(* ===== verification/Relay_Prelude.thy ===== *)
theory Relay_Prelude
  imports Main "HOL-Library.AList" "HOL-Library.Word"
begin

text \<open>
  Shared vocabulary of the development: the collections of rewrite rules the component theories
  extend, Go maps as association lists with distinct keys (the list order is one iteration order
  of the map, so a theorem over all such lists covers every order Go may choose), reachability of
  a step relation, and the \<open>invariant_system\<close> interface that turns a one-step preservation lemma
  into a fact about every reachable state.
\<close>

named_theorems go_string_simps \<open>rewrite rules for the string functions of the Go library\<close>
named_theorems limiter_simps \<open>unfolding rules of the session limiter\<close>
named_theorems pool_simps \<open>unfolding rules of the upstream pool\<close>
named_theorems frame_simps \<open>unfolding rules of the frame codec\<close>
named_theorems control_simps \<open>unfolding rules of the owner control plane\<close>

section \<open>Go maps\<close>

type_synonym ('k, 'v) gomap = "('k \<times> 'v) list"

text \<open>A map is well formed when each key is bound once, which is what \<open>len(m)\<close> counts.\<close>

definition gomap_ok :: "('k, 'v) gomap \<Rightarrow> bool" where
  "gomap_ok m \<longleftrightarrow> distinct (map fst m)"

text \<open>Indexing with the zero value for an absent key, as \<open>m[k]\<close> reads it.\<close>

definition mget :: "'v \<Rightarrow> ('k, 'v) gomap \<Rightarrow> 'k \<Rightarrow> 'v" where
  "mget z m k = (case map_of m k of None \<Rightarrow> z | Some v \<Rightarrow> v)"

text \<open>Assignment \<open>m[k] = v\<close> and \<open>delete(m, k)\<close>.\<close>

abbreviation mset_key :: "'k \<Rightarrow> 'v \<Rightarrow> ('k, 'v) gomap \<Rightarrow> ('k, 'v) gomap" where
  "mset_key \<equiv> AList.update"

abbreviation mdel :: "'k \<Rightarrow> ('k, 'v) gomap \<Rightarrow> ('k, 'v) gomap" where
  "mdel \<equiv> AList.delete"

definition mhas :: "('k, 'v) gomap \<Rightarrow> 'k \<Rightarrow> bool" where
  "mhas m k \<longleftrightarrow> k \<in> set (map fst m)"

lemma gomap_ok_Nil [simp]: "gomap_ok []"
  by (simp add: gomap_ok_def)

lemma gomap_ok_update [simp]: "gomap_ok m \<Longrightarrow> gomap_ok (mset_key k v m)"
  by (simp add: gomap_ok_def distinct_update)

lemma gomap_ok_delete [simp]: "gomap_ok m \<Longrightarrow> gomap_ok (mdel k m)"
  by (simp add: gomap_ok_def distinct_delete)

lemma gomap_ok_filter [simp]: "gomap_ok m \<Longrightarrow> gomap_ok (filter P m)"
  by (simp add: gomap_ok_def distinct_map_filter)

lemma mhas_iff_map_of: "mhas m k \<longleftrightarrow> map_of m k \<noteq> None"
  by (simp add: mhas_def map_of_eq_None_iff)

lemma mhas_Nil [simp]: "\<not> mhas [] k"
  by (simp add: mhas_def)

lemma mhas_update [simp]: "mhas (mset_key k v m) k' \<longleftrightarrow> k' = k \<or> mhas m k'"
  by (auto simp: mhas_iff_map_of update_conv')

lemma mhas_delete [simp]: "mhas (mdel k m) k' \<longleftrightarrow> k' \<noteq> k \<and> mhas m k'"
  by (auto simp: mhas_iff_map_of delete_conv')

lemma mget_update [simp]: "mget z (mset_key k v m) k' = (if k' = k then v else mget z m k')"
  by (simp add: mget_def update_conv')

lemma mget_delete [simp]: "mget z (mdel k m) k' = (if k' = k then z else mget z m k')"
  by (simp add: mget_def delete_conv')

lemma map_of_update [simp]: "map_of (mset_key k v m) = (map_of m)(k \<mapsto> v)"
  by (rule update_conv')

lemma map_of_mdel [simp]: "map_of (mdel k m) = (map_of m)(k := None)"
  by (rule delete_conv')

lemma mget_Nil [simp]: "mget z [] k = z"
  by (simp add: mget_def)

lemma mhasI: "(k, v) \<in> set m \<Longrightarrow> mhas m k"
  by (force simp: mhas_def)

lemma gomap_ok_map_of: "gomap_ok m \<Longrightarrow> (k, v) \<in> set m \<longleftrightarrow> map_of m k = Some v"
  unfolding gomap_ok_def by (metis map_of_SomeD map_of_is_SomeI)

lemma set_mset_keyD: "(k', v') \<in> set (mset_key k v m) \<Longrightarrow> (k' = k \<and> v' = v) \<or> (k', v') \<in> set m"
  by (induction m) (auto split: if_splits)

lemma set_mdel [simp]: "set (mdel k m) = {(k', v') \<in> set m. k' \<noteq> k}"
  by (auto simp: AList.delete_eq)

lemma length_mset_key: "length (mset_key k v m) = (if mhas m k then length m else Suc (length m))"
  by (induction m) (auto simp: mhas_def)

lemma length_mdel_le: "length (mdel k m) \<le> length m"
  by (rule length_delete_le)

lemma map_of_filter_key: "map_of (filter (\<lambda>(k, v). P k) m) k = (if P k then map_of m k else None)"
  by (induction m) auto

section \<open>Counting in lists\<close>

definition count_if :: "('a \<Rightarrow> bool) \<Rightarrow> 'a list \<Rightarrow> int" where
  "count_if P xs = int (length (filter P xs))"

lemma count_if_simps [simp]:
  "count_if P [] = 0"
  "count_if P (x # xs) = of_bool (P x) + count_if P xs"
  "count_if P (xs @ ys) = count_if P xs + count_if P ys"
  by (simp_all add: count_if_def)

lemma count_if_nonneg [simp]: "0 \<le> count_if P xs"
  by (simp add: count_if_def)

lemma count_if_update:
  "i < length xs \<Longrightarrow> count_if P (xs[i := x]) = count_if P xs - of_bool (P (xs ! i)) + of_bool (P x)"
proof (induction xs arbitrary: i)
  case (Cons y ys)
  then show ?case by (cases i) auto
qed simp

lemma count_if_pos:
  assumes "i < length xs" and "P (xs ! i)"
  shows "1 \<le> count_if P xs"
proof -
  have "xs ! i \<in> set (filter P xs)" using assms by simp
  then have "filter P xs \<noteq> []" by (metis empty_iff list.set(1))
  then show ?thesis by (cases "filter P xs") (simp_all add: count_if_def)
qed

lemma count_if_none: "(\<And>x. x \<in> set xs \<Longrightarrow> \<not> P x) \<Longrightarrow> count_if P xs = 0"
  by (simp add: count_if_def)

lemma count_if_mono: "(\<And>x. x \<in> set xs \<Longrightarrow> P x \<Longrightarrow> Q x) \<Longrightarrow> count_if P xs \<le> count_if Q xs"
  by (induction xs) (auto simp: of_bool_def)

section \<open>Reachable states and invariants\<close>

inductive reachable :: "('s \<Rightarrow> bool) \<Rightarrow> ('s \<Rightarrow> 's \<Rightarrow> bool) \<Rightarrow> 's \<Rightarrow> bool"
  for init :: "'s \<Rightarrow> bool" and step :: "'s \<Rightarrow> 's \<Rightarrow> bool" where
  reachable_init: "init s \<Longrightarrow> reachable init step s"
| reachable_step: "reachable init step s \<Longrightarrow> step s t \<Longrightarrow> reachable init step t"

text \<open>
  The contract between a component's step relation and its invariant. A component interprets it
  once, which discharges the two laws for its own definitions.
\<close>

locale invariant_system =
  fixes init :: "'s \<Rightarrow> bool"
    and step :: "'s \<Rightarrow> 's \<Rightarrow> bool"
    and inv :: "'s \<Rightarrow> bool"
  assumes inv_init: "init s \<Longrightarrow> inv s"
    and inv_step: "inv s \<Longrightarrow> step s t \<Longrightarrow> inv t"
begin

lemma inv_reachable: "reachable init step s \<Longrightarrow> inv s"
proof (induction rule: reachable.induct)
  case (reachable_init s)
  then show ?case by (rule inv_init)
next
  case (reachable_step s t)
  then show ?case by (blast intro: inv_step)
qed

lemma inv_reachable_from:
  assumes "inv s" and "step\<^sup>*\<^sup>* s t"
  shows "inv t"
  using assms(2,1) by (induction rule: rtranclp_induct) (auto intro: inv_step)

end

end
