(* ===== verification/Session_Limiter.thy ===== *)
theory Session_Limiter
  imports Relay_Prelude
begin

text \<open>
  The session limiter of \<open>internal/relay/upstream_pool.go\<close>: global, per-token and pending-dial
  counters, and the reservation object a WebSocket handler holds. Each method runs under the
  limiter's mutex, so it is one atomic step; the mutex itself is not modelled. The \<open>limiter\<close>
  pointer of a reservation is the limiter argument of its methods.
\<close>

definition maxRelaySessions :: int where "maxRelaySessions = 1024"
definition maxRelaySessionsPerToken :: int where "maxRelaySessionsPerToken = 128"
definition maxPendingUpstreamDials :: int where "maxPendingUpstreamDials = 128"

record sessionLimiter =
  sl_active :: int
  sl_pending :: int
  sl_byToken :: "(string, int) gomap"

record sessionReservation =
  sr_tokenID :: string
  sr_dialDone :: bool
  sr_released :: bool

definition newSessionLimiter :: sessionLimiter where
  "newSessionLimiter = \<lparr>sl_active = 0, sl_pending = 0, sl_byToken = []\<rparr>"

text \<open>
  \<open>reserve\<close> answers a reservation, or none and the HTTP status of the refusal; the order of the
  checks decides which status a caller sees when several limits are hit.
\<close>

definition reserve ::
  "sessionLimiter \<Rightarrow> string \<Rightarrow> sessionLimiter \<times> sessionReservation option \<times> int" where
  "reserve l tokenID =
     (if sl_pending l \<ge> maxPendingUpstreamDials then (l, None, 503)
      else if sl_active l \<ge> maxRelaySessions
              \<or> mget 0 (sl_byToken l) tokenID \<ge> maxRelaySessionsPerToken then (l, None, 429)
      else (l\<lparr>sl_active := sl_active l + 1, sl_pending := sl_pending l + 1,
              sl_byToken := mset_key tokenID (mget 0 (sl_byToken l) tokenID + 1) (sl_byToken l)\<rparr>,
            Some \<lparr>sr_tokenID = tokenID, sr_dialDone = False, sr_released = False\<rparr>, 0))"

text \<open>Both methods accept a nil receiver, the \<open>None\<close> case.\<close>

definition upstreamDialDone ::
  "sessionLimiter \<Rightarrow> sessionReservation option \<Rightarrow> sessionLimiter \<times> sessionReservation option" where
  "upstreamDialDone l r =
     (case r of
        None \<Rightarrow> (l, None)
      | Some r \<Rightarrow>
          if \<not> sr_dialDone r
          then (l\<lparr>sl_pending := sl_pending l - 1\<rparr>, Some (r\<lparr>sr_dialDone := True\<rparr>))
          else (l, Some r))"

definition release ::
  "sessionLimiter \<Rightarrow> sessionReservation option \<Rightarrow> sessionLimiter \<times> sessionReservation option" where
  "release l r =
     (case r of
        None \<Rightarrow> (l, None)
      | Some r \<Rightarrow>
          if sr_released r then (l, Some r)
          else
            let (l1, r1) =
                  (if \<not> sr_dialDone r
                   then (l\<lparr>sl_pending := sl_pending l - 1\<rparr>, r\<lparr>sr_dialDone := True\<rparr>)
                   else (l, r));
                n = mget 0 (sl_byToken l1) (sr_tokenID r1) - 1;
                m = mset_key (sr_tokenID r1) n (sl_byToken l1)
            in (l1\<lparr>sl_active := sl_active l1 - 1,
                   sl_byToken := (if n \<le> 0 then mdel (sr_tokenID r1) m else m)\<rparr>,
                Some (r1\<lparr>sr_released := True\<rparr>)))"

lemmas limiter_defs [limiter_simps] = reserve_def upstreamDialDone_def release_def Let_def

lemmas limiter_bounds [limiter_simps] =
  maxRelaySessions_def maxRelaySessionsPerToken_def maxPendingUpstreamDials_def

section \<open>The limiter together with the reservations handed out\<close>

record limiterSystem =
  ls_limiter :: sessionLimiter
  ls_reservations :: "sessionReservation list"

definition limiter_init :: "limiterSystem \<Rightarrow> bool" where
  "limiter_init s \<longleftrightarrow> s = \<lparr>ls_limiter = newSessionLimiter, ls_reservations = []\<rparr>"

text \<open>
  One step is one method call by some handler, on any reservation handed out before, in any
  order and any number of times: handlers run concurrently and \<open>release\<close> is deferred.
\<close>

inductive limiter_step :: "limiterSystem \<Rightarrow> limiterSystem \<Rightarrow> bool" where
  step_reserve:
    "reserve (ls_limiter s) t = (l, Some r, st) \<Longrightarrow>
     limiter_step s \<lparr>ls_limiter = l, ls_reservations = ls_reservations s @ [r]\<rparr>"
| step_refused:
    "reserve (ls_limiter s) t = (l, None, st) \<Longrightarrow>
     limiter_step s (s\<lparr>ls_limiter := l\<rparr>)"
| step_dialDone:
    "i < length (ls_reservations s) \<Longrightarrow>
     upstreamDialDone (ls_limiter s) (Some (ls_reservations s ! i)) = (l, Some r) \<Longrightarrow>
     limiter_step s \<lparr>ls_limiter = l, ls_reservations = (ls_reservations s)[i := r]\<rparr>"
| step_release:
    "i < length (ls_reservations s) \<Longrightarrow>
     release (ls_limiter s) (Some (ls_reservations s ! i)) = (l, Some r) \<Longrightarrow>
     limiter_step s \<lparr>ls_limiter = l, ls_reservations = (ls_reservations s)[i := r]\<rparr>"

inductive_cases limiter_stepE: "limiter_step s t"

text \<open>What the counters mean: reservations not released, and dials not finished.\<close>

definition live_sessions :: "sessionReservation list \<Rightarrow> int" where
  "live_sessions rs = count_if (\<lambda>r. \<not> sr_released r) rs"

definition live_dials :: "sessionReservation list \<Rightarrow> int" where
  "live_dials rs = count_if (\<lambda>r. \<not> sr_dialDone r) rs"

definition live_of_token :: "string \<Rightarrow> sessionReservation list \<Rightarrow> int" where
  "live_of_token t rs = count_if (\<lambda>r. \<not> sr_released r \<and> sr_tokenID r = t) rs"

lemmas live_defs = live_sessions_def live_dials_def live_of_token_def

definition limiter_inv :: "limiterSystem \<Rightarrow> bool" where
  "limiter_inv s \<longleftrightarrow>
     (let l = ls_limiter s; rs = ls_reservations s in
        sl_active l = live_sessions rs
      \<and> sl_pending l = live_dials rs
      \<and> (\<forall>t. mget 0 (sl_byToken l) t = live_of_token t rs)
      \<and> (\<forall>r \<in> set rs. sr_released r \<longrightarrow> sr_dialDone r)
      \<and> gomap_ok (sl_byToken l)
      \<and> (\<forall>t. mhas (sl_byToken l) t \<longrightarrow> 0 < mget 0 (sl_byToken l) t)
      \<and> sl_active l \<le> maxRelaySessions
      \<and> sl_pending l \<le> maxPendingUpstreamDials
      \<and> (\<forall>t. mget 0 (sl_byToken l) t \<le> maxRelaySessionsPerToken))"

lemma limiter_inv_init: "limiter_init s \<Longrightarrow> limiter_inv s"
  by (simp add: limiter_init_def limiter_inv_def newSessionLimiter_def live_defs limiter_bounds)

lemma limiter_inv_reserve:
  assumes "limiter_inv s" and "reserve (ls_limiter s) t = (l, Some r, st)"
  shows "limiter_inv \<lparr>ls_limiter = l, ls_reservations = ls_reservations s @ [r]\<rparr>"
  using assms by (auto simp: limiter_inv_def reserve_def live_defs Let_def split: if_splits)

lemma reserve_refused_same: "reserve l t = (l', None, st) \<Longrightarrow> l' = l"
  by (auto simp: reserve_def split: if_splits)

lemma live_of_token_nonneg: "0 \<le> live_of_token t rs"
  by (simp add: live_of_token_def)

lemma limiter_inv_dialDone:
  assumes inv: "limiter_inv s" and i: "i < length (ls_reservations s)"
    and ev: "upstreamDialDone (ls_limiter s) (Some (ls_reservations s ! i)) = (l, Some r)"
  shows "limiter_inv \<lparr>ls_limiter = l, ls_reservations = (ls_reservations s)[i := r]\<rparr>"
proof -
  let ?r = "ls_reservations s ! i"
  have mem: "?r \<in> set (ls_reservations s)" using i by simp
  have upd: "set ((ls_reservations s)[i := r]) \<subseteq> insert r (set (ls_reservations s))"
    by (rule set_update_subset_insert)
  have rel: "sr_released r = sr_released ?r" "sr_tokenID r = sr_tokenID ?r" "sr_dialDone r"
    using ev by (auto simp: upstreamDialDone_def split: if_splits)
  have rest: "sl_active l = sl_active (ls_limiter s)" "sl_byToken l = sl_byToken (ls_limiter s)"
    "sl_pending l = sl_pending (ls_limiter s) - of_bool (\<not> sr_dialDone ?r)"
    using ev by (auto simp: upstreamDialDone_def split: if_splits)
  show ?thesis
    using inv rel rest upd mem i
    by (auto simp: limiter_inv_def Let_def live_defs count_if_update of_bool_def)
qed

lemma limiter_inv_release:
  assumes inv: "limiter_inv s" and i: "i < length (ls_reservations s)"
    and ev: "release (ls_limiter s) (Some (ls_reservations s ! i)) = (l, Some r)"
  shows "limiter_inv \<lparr>ls_limiter = l, ls_reservations = (ls_reservations s)[i := r]\<rparr>"
proof (cases "sr_released (ls_reservations s ! i)")
  case True
  then have "l = ls_limiter s" "r = ls_reservations s ! i"
    using ev by (auto simp: release_def)
  then show ?thesis using inv i by (simp add: limiter_inv_def)
next
  case False
  let ?r = "ls_reservations s ! i" and ?rs = "ls_reservations s"
  let ?m = "sl_byToken (ls_limiter s)"
  let ?n = "mget 0 ?m (sr_tokenID ?r) - 1"
  have mem: "?r \<in> set ?rs" using i by simp
  have upd: "set (?rs[i := r]) \<subseteq> insert r (set ?rs)"
    by (rule set_update_subset_insert)
  have r: "sr_released r" "sr_dialDone r" "sr_tokenID r = sr_tokenID ?r"
    using ev False by (auto simp: release_def Let_def split: if_splits)
  have l: "sl_active l = sl_active (ls_limiter s) - 1"
    "sl_pending l = sl_pending (ls_limiter s) - of_bool (\<not> sr_dialDone ?r)"
    "sl_byToken l = (if ?n \<le> 0 then mdel (sr_tokenID ?r) (mset_key (sr_tokenID ?r) ?n ?m)
                     else mset_key (sr_tokenID ?r) ?n ?m)"
    using ev False by (auto simp: release_def Let_def split: if_splits)
  have pos: "1 \<le> live_of_token (sr_tokenID ?r) ?rs"
    unfolding live_of_token_def using count_if_pos [OF i] False by simp
  have lim: "live_of_token t ?rs \<le> maxRelaySessionsPerToken" for t
    using inv unfolding limiter_inv_def Let_def by metis
  have lim0: "0 \<le> maxRelaySessionsPerToken"
    by (simp add: maxRelaySessionsPerToken_def)
  have lim': "live_of_token t ?rs - 1 \<le> maxRelaySessionsPerToken" for t
    using lim [of t] by simp
  have tok: "live_of_token t (?rs[i := r]) = live_of_token t ?rs - of_bool (t = sr_tokenID ?r)" for t
    using r False i by (auto simp: live_of_token_def count_if_update)
  show ?thesis
    using inv r l upd mem i False pos lim lim' lim0
    by (auto simp: limiter_inv_def Let_def live_sessions_def live_dials_def tok count_if_update
        of_bool_def)
qed

lemma limiter_inv_step: "limiter_inv s \<Longrightarrow> limiter_step s t \<Longrightarrow> limiter_inv t"
  by (elim limiter_stepE)
     (auto dest: reserve_refused_same intro: limiter_inv_reserve limiter_inv_dialDone
       limiter_inv_release)

interpretation limiter: invariant_system limiter_init limiter_step limiter_inv
  by unfold_locales (auto intro: limiter_inv_init limiter_inv_step)

section \<open>Properties\<close>

text \<open>
  Claim C17. In every state reachable by any interleaving of \<open>reserve\<close>, \<open>upstreamDialDone\<close> and
  \<open>release\<close> calls (repeated calls on one reservation included) the limiter's counters are exactly
  the live sessions, the unfinished dials and the live sessions of each token, and none of them is
  negative or exceeds its limit.
\<close>

theorem limiter_counters_exact:
  assumes "reachable limiter_init limiter_step s"
  shows "sl_active (ls_limiter s) = live_sessions (ls_reservations s)
       \<and> sl_pending (ls_limiter s) = live_dials (ls_reservations s)
       \<and> mget 0 (sl_byToken (ls_limiter s)) t = live_of_token t (ls_reservations s)
       \<and> sl_active (ls_limiter s) \<in> {0..maxRelaySessions}
       \<and> sl_pending (ls_limiter s) \<in> {0..maxPendingUpstreamDials}
       \<and> mget 0 (sl_byToken (ls_limiter s)) t \<in> {0..maxRelaySessionsPerToken}"
  using limiter.inv_reachable [OF assms]
  by (auto simp: limiter_inv_def Let_def live_defs)

theorem limiter_counters_exact_witness:
  "sl_active (fst (reserve newSessionLimiter ''tok_a'')) = 1"
proof -
  let ?r = "\<lparr>sr_tokenID = ''tok_a'', sr_dialDone = False, sr_released = False\<rparr>"
  let ?l = "fst (reserve newSessionLimiter ''tok_a'')"
  have step: "reserve newSessionLimiter ''tok_a'' = (?l, Some ?r, 0)"
    by (simp add: reserve_def newSessionLimiter_def limiter_bounds)
  note st = step_reserve
    [of "\<lparr>ls_limiter = newSessionLimiter, ls_reservations = []\<rparr>", simplified, OF step]
  have "reachable limiter_init limiter_step \<lparr>ls_limiter = ?l, ls_reservations = [?r]\<rparr>"
    by (rule reachable_step, rule reachable_init, simp only: limiter_init_def, rule st)
  from limiter_counters_exact [OF this, THEN conjunct1] show ?thesis
    by (simp add: live_defs)
qed

text \<open>
  No leak: in a reachable state in which every reservation has been released, the limiter
  is back in its initial state (both counters zero and no entry left in the per-token map).
\<close>

theorem limiter_drained:
  assumes "reachable limiter_init limiter_step s"
    and "\<forall>r \<in> set (ls_reservations s). sr_released r"
  shows "ls_limiter s = newSessionLimiter"
proof -
  have inv: "limiter_inv s" using assms(1) by (rule limiter.inv_reachable)
  then have "sl_active (ls_limiter s) = 0" "sl_pending (ls_limiter s) = 0"
    using assms(2) by (auto simp: limiter_inv_def Let_def live_defs intro!: count_if_none)
  moreover have zero: "mget 0 (sl_byToken (ls_limiter s)) t = 0" for t
  proof -
    have "live_of_token t (ls_reservations s) = 0"
      unfolding live_of_token_def by (rule count_if_none) (use assms(2) in blast)
    then show ?thesis using inv by (simp add: limiter_inv_def Let_def)
  qed
  then have "\<not> mhas (sl_byToken (ls_limiter s)) t" for t
    using inv by (auto simp: limiter_inv_def Let_def)
  then have "sl_byToken (ls_limiter s) = []"
    by (cases "sl_byToken (ls_limiter s)") (auto simp: mhas_def)
  ultimately show ?thesis
    by (simp add: newSessionLimiter_def)
qed

theorem limiter_drained_witness: "ls_limiter \<lparr>ls_limiter = newSessionLimiter, ls_reservations = []\<rparr>
  = newSessionLimiter"
  by (rule limiter_drained) (auto intro: reachable_init simp: limiter_init_def)

end
