(* ===== verification/Go_Strings.thy ===== *)
theory Go_Strings
  imports Relay_Prelude
begin

text \<open>
  What the relay uses of the Go packages \<open>strings\<close>, \<open>unicode/utf8\<close>, \<open>strconv\<close> and
  \<open>encoding/hex\<close>. A Go string is a byte sequence: a \<open>string\<close> of Isabelle, whose characters are
  the 256 bytes. Functions that work on runes decode UTF-8 with Go's acceptance ranges, an
  ill-formed byte being the rune U+FFFD of width 1.
\<close>

section \<open>Bytes and characters\<close>

abbreviation code :: "char \<Rightarrow> nat" where
  "code c \<equiv> of_char c"

definition codes :: "string \<Rightarrow> nat list" where
  "codes s = map code s"

definition of_codes :: "nat list \<Rightarrow> string" where
  "of_codes ns = map char_of ns"

lemma code_less [simp]: "code c < 256"
  by (metis nat_of_char_less_256)

lemma of_codes_codes [simp]: "of_codes (codes s) = s"
  by (induction s) (simp_all add: of_codes_def codes_def)

lemma length_codes [simp]: "length (codes s) = length s"
  by (simp add: codes_def)

lemma codes_simps [simp]: "codes [] = []" "codes (c # s) = code c # codes s"
  "codes (s @ t) = codes s @ codes t"
  by (simp_all add: codes_def)

definition is_digit :: "char \<Rightarrow> bool" where
  "is_digit c \<longleftrightarrow> 48 \<le> code c \<and> code c \<le> 57"

definition is_lower :: "char \<Rightarrow> bool" where
  "is_lower c \<longleftrightarrow> 97 \<le> code c \<and> code c \<le> 122"

definition is_upper :: "char \<Rightarrow> bool" where
  "is_upper c \<longleftrightarrow> 65 \<le> code c \<and> code c \<le> 90"

definition is_alnum :: "char \<Rightarrow> bool" where
  "is_alnum c \<longleftrightarrow> is_lower c \<or> is_upper c \<or> is_digit c"

definition is_ascii :: "char \<Rightarrow> bool" where
  "is_ascii c \<longleftrightarrow> code c < 128"

lemmas char_class_defs [go_string_simps] =
  is_digit_def is_lower_def is_upper_def is_alnum_def is_ascii_def

section \<open>UTF-8\<close>

definition runeError :: nat where "runeError = 65533"

definition utf8_cont :: "nat \<Rightarrow> bool" where
  "utf8_cont b \<longleftrightarrow> 128 \<le> b \<and> b \<le> 191"

text \<open>
  \<open>utf8.DecodeRune\<close>: the first rune and its width. The bounds on the second byte exclude
  overlong forms, surrogates and values beyond U+10FFFF.
\<close>

fun decodeRune :: "nat list \<Rightarrow> nat \<times> nat" where
  "decodeRune [] = (runeError, 0)"
| "decodeRune (a # bs) =
     (if a < 128 then (a, 1)
      else if a < 194 then (runeError, 1)
      else if a < 224 then
        (case bs of
           b # _ \<Rightarrow> if utf8_cont b then ((a - 192) * 64 + (b - 128), 2) else (runeError, 1)
         | [] \<Rightarrow> (runeError, 1))
      else if a < 240 then
        (case bs of
           b # c # _ \<Rightarrow>
             if (if a = 224 then 160 else 128) \<le> b \<and> b \<le> (if a = 237 then 159 else 191) \<and> utf8_cont c
             then ((a - 224) * 4096 + (b - 128) * 64 + (c - 128), 3) else (runeError, 1)
         | _ \<Rightarrow> (runeError, 1))
      else if a < 245 then
        (case bs of
           b # c # d # _ \<Rightarrow>
             if (if a = 240 then 144 else 128) \<le> b \<and> b \<le> (if a = 244 then 143 else 191)
                \<and> utf8_cont c \<and> utf8_cont d
             then ((a - 240) * 262144 + (b - 128) * 4096 + (c - 128) * 64 + (d - 128), 4)
             else (runeError, 1)
         | _ \<Rightarrow> (runeError, 1))
      else (runeError, 1))"

lemma decodeRune_width: "bs \<noteq> [] \<Longrightarrow> 1 \<le> snd (decodeRune bs) \<and> snd (decodeRune bs) \<le> length bs"
  by (cases bs) (auto split: list.splits)

text \<open>The runes of a string, each with its width: \<open>for _, r := range s\<close>.\<close>

function range_runes :: "nat list \<Rightarrow> (nat \<times> nat) list" where
  "range_runes bs = (if bs = [] then [] else
     (let rw = decodeRune bs in rw # range_runes (drop (snd rw) bs)))"
  by pat_completeness auto
termination
proof (relation "measure length")
  show "wf (measure length)" by simp
next
  fix bs :: "nat list" and rw
  assume "bs \<noteq> []" and "rw = decodeRune bs"
  then show "(drop (snd rw) bs, bs) \<in> measure length"
    using decodeRune_width [of bs] by simp
qed

declare range_runes.simps [simp del]

lemma range_runes_Nil [simp]: "range_runes [] = []"
  by (simp add: range_runes.simps)

lemma range_runes_ascii [simp]: "a < 128 \<Longrightarrow> range_runes (a # bs) = (a, 1) # range_runes bs"
  by (subst range_runes.simps) simp

text \<open>\<open>utf8.AppendRune\<close>; surrogates and out-of-range values become U+FFFD.\<close>

definition valid_rune :: "nat \<Rightarrow> bool" where
  "valid_rune r \<longleftrightarrow> r < 55296 \<or> (57344 \<le> r \<and> r \<le> 1114111)"

definition encodeRune :: "nat \<Rightarrow> nat list" where
  "encodeRune r =
     (if r < 128 then [r]
      else if r < 2048 then [192 + r div 64, 128 + r mod 64]
      else if \<not> valid_rune r then [239, 191, 189]
      else if r < 65536 then [224 + r div 4096, 128 + r div 64 mod 64, 128 + r mod 64]
      else [240 + r div 262144, 128 + r div 4096 mod 64, 128 + r div 64 mod 64, 128 + r mod 64])"

definition runes :: "string \<Rightarrow> nat list" where
  "runes s = map fst (range_runes (codes s))"

definition of_runes :: "nat list \<Rightarrow> string" where
  "of_runes rs = of_codes (concat (map encodeRune rs))"

text \<open>\<open>utf8.Valid\<close>: no ill-formed byte, that is no U+FFFD of width 1.\<close>

definition utf8_valid :: "nat list \<Rightarrow> bool" where
  "utf8_valid bs \<longleftrightarrow> (\<forall>(r, w) \<in> set (range_runes bs). \<not> (r = runeError \<and> w = 1))"

lemma utf8_valid_ascii: "\<forall>b \<in> set bs. b < 128 \<Longrightarrow> utf8_valid bs"
proof -
  have "range_runes bs = map (\<lambda>b. (b, 1)) bs" if "\<forall>b \<in> set bs. b < 128" for bs
    using that by (induction bs) auto
  moreover assume "\<forall>b \<in> set bs. b < 128"
  ultimately show ?thesis by (auto simp: utf8_valid_def runeError_def)
qed

lemma runes_ascii: "\<forall>c \<in> set s. is_ascii c \<Longrightarrow> runes s = codes s"
  by (induction s) (auto simp: runes_def is_ascii_def)

section \<open>Package strings\<close>

text \<open>\<open>unicode.IsSpace\<close>.\<close>

definition rune_is_space :: "nat \<Rightarrow> bool" where
  "rune_is_space r \<longleftrightarrow> r \<in> {9, 10, 11, 12, 13, 32, 133, 160, 5760, 8232, 8233, 8239, 8287, 12288}
      \<or> (8192 \<le> r \<and> r \<le> 8202)"

text \<open>
  \<open>strings.TrimSpace\<close>. The width of a space rune at the front is that of the decoded rune; at the
  back it is found on the reversed bytes, since the encoding of a space has at most three bytes.
\<close>

definition front_space :: "string \<Rightarrow> nat" where
  "front_space s = (case decodeRune (codes (take 4 s)) of (r, w) \<Rightarrow> if rune_is_space r then w else 0)"

definition back_space :: "string \<Rightarrow> nat" where
  "back_space rs =
     (case codes (take 3 rs) of
        [] \<Rightarrow> 0
      | a # bs \<Rightarrow>
          if a < 128 then (if rune_is_space a then 1 else 0)
          else (case bs of
                  [] \<Rightarrow> 0
                | b # cs \<Rightarrow>
                    if snd (decodeRune [b, a]) = 2 \<and> rune_is_space (fst (decodeRune [b, a])) then 2
                    else (case cs of
                            [] \<Rightarrow> 0
                          | c # _ \<Rightarrow>
                              if snd (decodeRune [c, b, a]) = 3
                                 \<and> rune_is_space (fst (decodeRune [c, b, a])) then 3 else 0)))"

text \<open>The fuel, one more than the length, is never used up: each round drops a byte or stops.\<close>

fun drop_spaces :: "(string \<Rightarrow> nat) \<Rightarrow> nat \<Rightarrow> string \<Rightarrow> string" where
  "drop_spaces w 0 s = s"
| "drop_spaces w (Suc n) s = (if w s = 0 then s else drop_spaces w n (drop (w s) s))"

lemma drop_spaces_none: "w s = 0 \<Longrightarrow> drop_spaces w n s = s"
  by (cases n) auto

definition trimSpace :: "string \<Rightarrow> string" where
  "trimSpace s =
     (let l = drop_spaces front_space (Suc (length s)) s
      in rev (drop_spaces back_space (Suc (length l)) (rev l)))"

definition hasPrefix :: "string \<Rightarrow> string \<Rightarrow> bool" where
  "hasPrefix s p \<longleftrightarrow> take (length p) s = p"

definition trimPrefix :: "string \<Rightarrow> string \<Rightarrow> string" where
  "trimPrefix s p = (if hasPrefix s p then drop (length p) s else s)"

definition hasSuffix :: "string \<Rightarrow> string \<Rightarrow> bool" where
  "hasSuffix s p \<longleftrightarrow> hasPrefix (rev s) (rev p)"

definition trimSuffix :: "string \<Rightarrow> string \<Rightarrow> string" where
  "trimSuffix s p = (if hasSuffix s p then take (length s - length p) s else s)"

text \<open>\<open>strings.Contains\<close> for a substring, \<open>strings.Count\<close> for a non-empty one.\<close>

fun containsSub :: "string \<Rightarrow> string \<Rightarrow> bool" where
  "containsSub [] sub = (sub = [])"
| "containsSub (c # s) sub = (hasPrefix (c # s) sub \<or> containsSub s sub)"

text \<open>\<open>strings.Trim(s, cutset)\<close> for an ASCII cutset.\<close>

definition trimChars :: "char set \<Rightarrow> string \<Rightarrow> string" where
  "trimChars cs s = rev (dropWhile (\<lambda>c. c \<in> cs) (rev (dropWhile (\<lambda>c. c \<in> cs) s)))"

text \<open>\<open>strings.Split\<close> on a one-byte separator: always at least one part.\<close>

fun splitOn :: "char \<Rightarrow> string \<Rightarrow> string list" where
  "splitOn sep [] = [[]]"
| "splitOn sep (c # s) =
     (if c = sep then [] # splitOn sep s
      else (case splitOn sep s of p # ps \<Rightarrow> (c # p) # ps | [] \<Rightarrow> [[c]]))"

definition containsString :: "string list \<Rightarrow> string \<Rightarrow> bool" where
  "containsString items target = list_ex (\<lambda>item. item = target) items"

lemma containsString_iff [simp]: "containsString items target \<longleftrightarrow> target \<in> set items"
  by (auto simp: containsString_def list_ex_iff)

text \<open>ASCII lower case of a byte, and \<open>strings.ToLower\<close> with the Unicode table as a parameter.\<close>

definition lower_code :: "nat \<Rightarrow> nat" where
  "lower_code n = (if 65 \<le> n \<and> n \<le> 90 then n + 32 else n)"

definition lower_char :: "char \<Rightarrow> char" where
  "lower_char c = char_of (lower_code (code c))"

definition toLower :: "(nat \<Rightarrow> nat) \<Rightarrow> string \<Rightarrow> string" where
  "toLower uni s =
     (if \<forall>c \<in> set s. is_ascii c then map lower_char s
      else of_runes (map (\<lambda>r. if r < 128 then lower_code r else uni r) (runes s)))"

text \<open>
  \<open>strings.EqualFold\<close> against an ASCII constant: the only other runes that fold to ASCII letters
  are U+212A (k) and U+017F (s).
\<close>

definition equalFoldAscii :: "string \<Rightarrow> string \<Rightarrow> bool" where
  "equalFoldAscii s t \<longleftrightarrow>
     list_all2 (\<lambda>r c. lower_code r = lower_code (code c)
                   \<or> (r = 8490 \<and> lower_code (code c) = 107)
                   \<or> (r = 383 \<and> lower_code (code c) = 115)) (runes s) t"

subsection \<open>Plain strings\<close>

text \<open>
  A string with an ASCII non-space byte at each end is its own trimming; identifiers, hashes and
  tokens are of this kind, so most proofs about them never look inside \<open>trimSpace\<close>.
\<close>

definition plain_char :: "char \<Rightarrow> bool" where
  "plain_char c \<longleftrightarrow> 33 \<le> code c \<and> code c < 127"

lemma front_space_plain: "plain_char c \<Longrightarrow> front_space (c # s) = 0"
  by (auto simp: front_space_def plain_char_def rune_is_space_def)

lemma back_space_plain: "plain_char c \<Longrightarrow> back_space (c # s) = 0"
  by (auto simp: back_space_def plain_char_def rune_is_space_def)

lemma trimSpace_Nil [simp]: "trimSpace [] = []"
  by (simp add: trimSpace_def front_space_def back_space_def rune_is_space_def runeError_def)

lemma trimSpace_plain:
  assumes "s \<noteq> []" and "plain_char (hd s)" and "plain_char (last s)"
  shows "trimSpace s = s"
proof -
  from assms(1) obtain c r where s: "s = c # r" by (cases s) auto
  from assms(1) obtain d q where q: "rev s = d # q" by (cases "rev s") auto
  have d: "plain_char d" using assms(1,3) q by (metis hd_rev list.sel(1))
  have l: "drop_spaces front_space n s = s" for n
    using assms(2) by (intro drop_spaces_none) (simp add: s front_space_plain)
  have b: "drop_spaces back_space n (rev s) = rev s" for n
    using d by (intro drop_spaces_none) (simp add: q back_space_plain)
  show ?thesis by (simp only: trimSpace_def Let_def l b rev_rev_ident)
qed

lemma trimSpace_all_plain [simp]: "\<forall>c \<in> set s. plain_char c \<Longrightarrow> trimSpace s = s"
  by (cases "s = []") (auto intro!: trimSpace_plain)

lemma plain_ascii: "plain_char c \<Longrightarrow> is_ascii c"
  by (simp add: plain_char_def is_ascii_def)

lemma alnum_plain: "is_alnum c \<Longrightarrow> plain_char c"
  by (auto simp: plain_char_def go_string_simps)

section \<open>Package strconv\<close>

fun digits_value :: "nat \<Rightarrow> string \<Rightarrow> nat option" where
  "digits_value acc [] = Some acc"
| "digits_value acc (c # s) =
     (if is_digit c then digits_value (acc * 10 + (code c - 48)) s else None)"

definition parse_digits :: "string \<Rightarrow> nat option" where
  "parse_digits s = (if s = [] then None else digits_value 0 s)"

text \<open>\<open>strconv.Atoi\<close> on a 64-bit \<open>int\<close>: a sign, digits, and a range check.\<close>

definition atoi :: "string \<Rightarrow> int option" where
  "atoi s =
     (let (neg, ds) = (case s of
            c # r \<Rightarrow> if c = CHR ''-'' then (True, r) else if c = CHR ''+'' then (False, r) else (False, s)
          | [] \<Rightarrow> (False, s))
      in case parse_digits ds of
           None \<Rightarrow> None
         | Some n \<Rightarrow>
             let v = (if neg then - int n else int n)
             in if - (2 ^ 63) \<le> v \<and> v < 2 ^ 63 then Some v else None)"

fun decimal :: "nat \<Rightarrow> string" where
  "decimal n = (if n < 10 then [char_of (48 + n)] else decimal (n div 10) @ [char_of (48 + n mod 10)])"

declare decimal.simps [simp del]

section \<open>Package encoding/hex\<close>

definition hex_digit :: "nat \<Rightarrow> char" where
  "hex_digit n = (if n < 10 then char_of (48 + n) else char_of (87 + n))"

definition hex_value :: "char \<Rightarrow> nat option" where
  "hex_value c =
     (if is_digit c then Some (code c - 48)
      else if 97 \<le> code c \<and> code c \<le> 102 then Some (code c - 87)
      else if 65 \<le> code c \<and> code c \<le> 70 then Some (code c - 55)
      else None)"

fun hexEncode :: "nat list \<Rightarrow> string" where
  "hexEncode [] = []"
| "hexEncode (b # bs) = hex_digit (b div 16) # hex_digit (b mod 16) # hexEncode bs"

fun hexDecode :: "string \<Rightarrow> nat list option" where
  "hexDecode [] = Some []"
| "hexDecode [c] = None"
| "hexDecode (c # d # s) =
     (case (hex_value c, hex_value d, hexDecode s) of
        (Some h, Some l, Some bs) \<Rightarrow> Some ((16 * h + l) # bs)
      | _ \<Rightarrow> None)"

lemma code_char_of [simp]: "n < 256 \<Longrightarrow> code (char_of n) = n"
  by simp

lemma char_of_eq_code: "n < 256 \<Longrightarrow> char_of n = c \<longleftrightarrow> code c = n"
  by auto

lemma hex_digit_cases:
  assumes "n < 16"
  obtains "is_digit (hex_digit n)" "code (hex_digit n) = 48 + n" "n < 10"
    | "97 \<le> code (hex_digit n)" "code (hex_digit n) \<le> 102" "code (hex_digit n) = 87 + n" "10 \<le> n"
  using assms by (cases "n < 10") (auto simp: hex_digit_def is_digit_def)

lemma hex_value_hex_digit [simp]: "n < 16 \<Longrightarrow> hex_value (hex_digit n) = Some n"
  by (auto simp: hex_digit_def hex_value_def is_digit_def)

lemma hex_value_less: "hex_value c = Some n \<Longrightarrow> n < 16"
  by (auto simp: hex_value_def is_digit_def split: if_splits)

definition is_lower_hex :: "char \<Rightarrow> bool" where
  "is_lower_hex c \<longleftrightarrow> is_digit c \<or> (97 \<le> code c \<and> code c \<le> 102)"

lemma is_lower_hex_digit: "n < 16 \<Longrightarrow> is_lower_hex (hex_digit n)"
  by (auto simp: hex_digit_def is_lower_hex_def is_digit_def)

lemma length_hexEncode [simp]: "length (hexEncode bs) = 2 * length bs"
  by (induction bs) auto

lemma set_hexEncode: "\<forall>b \<in> set bs. b < 256 \<Longrightarrow> c \<in> set (hexEncode bs) \<Longrightarrow> is_lower_hex c"
  by (induction bs) (auto simp: is_lower_hex_digit)

lemma hexDecode_hexEncode [simp]: "\<forall>b \<in> set bs. b < 256 \<Longrightarrow> hexDecode (hexEncode bs) = Some bs"
  by (induction bs) auto

lemma hexEncode_append [simp]: "hexEncode (xs @ ys) = hexEncode xs @ hexEncode ys"
  by (induction xs) auto

text \<open>On lower-case input decoding is injective: equal bytes come from equal digits.\<close>

lemma hex_value_inj_lower:
  assumes "is_lower_hex c" and "is_lower_hex d" and "hex_value c = hex_value d"
  shows "c = d"
proof -
  define n m where "n = code c" and "m = code d"
  have "n = m"
    using assms unfolding is_lower_hex_def hex_value_def is_digit_def n_def [symmetric] m_def [symmetric]
    by (auto split: if_splits)
  then show ?thesis by (simp add: n_def m_def)
qed

lemma hexDecode_Some_length: "hexDecode s = Some bs \<Longrightarrow> length s = 2 * length bs"
  by (induction s arbitrary: bs rule: hexDecode.induct) (auto split: option.splits)

lemma hexDecode_chars: "hexDecode s = Some bs \<Longrightarrow> c \<in> set s \<Longrightarrow> hex_value c \<noteq> None"
  by (induction s arbitrary: bs rule: hexDecode.induct) (auto split: option.splits)

lemma hexDecode_inj_lower:
  assumes "\<forall>c \<in> set s. is_lower_hex c" and "\<forall>c \<in> set t. is_lower_hex c"
    and "hexDecode s = Some bs" and "hexDecode t = Some bs"
  shows "s = t"
  using assms
proof (induction s arbitrary: t bs rule: hexDecode.induct)
  case 1
  then show ?case by (auto dest: hexDecode_Some_length)
next
  case (2 c)
  then show ?case by simp
next
  case (3 c d s)
  obtain h l bs' where hl: "hex_value c = Some h" "hex_value d = Some l" "hexDecode s = Some bs'"
    "bs = (16 * h + l) # bs'"
    using 3(4) by (auto split: option.splits)
  then obtain c' d' t' where t: "t = c' # d' # t'"
    using 3(5) by (cases t rule: hexDecode.cases) auto
  then obtain h' l' where hl': "hex_value c' = Some h'" "hex_value d' = Some l'"
    "hexDecode t' = Some bs'" "16 * h' + l' = 16 * h + l"
    using 3(5) hl by (auto split: option.splits)
  have small: "l < 16" "l' < 16"
    using hl(2) hl'(2) by (auto dest: hex_value_less)
  then have "(16 * h + l) div 16 = h" "(16 * h' + l') div 16 = h'" by simp_all
  then have "h = h'" using hl'(4) by simp
  then have "l = l'" using hl'(4) by simp
  note \<open>h = h'\<close> this
  then have "c = c'" "d = d'"
    using hl(1,2) hl'(1,2) 3(2,3) t \<open>h = h'\<close> by (auto intro: hex_value_inj_lower)
  moreover have "s = t'"
    by (rule 3(1) [OF _ _ hl(3) hl'(3)]) (use 3(2,3) t in auto)
  ultimately show ?case by (simp add: t)
qed

lemma hasPrefix_append [simp]: "hasPrefix (p @ s) p"
  by (simp add: hasPrefix_def)

lemma trimPrefix_append [simp]: "trimPrefix (p @ s) p = s"
  by (simp add: trimPrefix_def)

lemma hasPrefix_split: "hasPrefix s p \<Longrightarrow> s = p @ drop (length p) s"
  by (metis append_take_drop_id hasPrefix_def)

lemma lower_char_fixed: "\<not> is_upper c \<Longrightarrow> lower_char c = c"
  by (auto simp: lower_char_def lower_code_def is_upper_def)

lemma toLower_fixed: "\<forall>c \<in> set s. is_ascii c \<and> \<not> is_upper c \<Longrightarrow> toLower u s = s"
  by (induction s) (auto simp: toLower_def lower_char_fixed)

end
