(* ===== verification/Go_Net.thy ===== *)
theory Go_Net
  imports Go_Strings
begin

unbundle bit_operations_syntax

text \<open>
  What the relay uses of package \<open>net\<close>: \<open>net.IP\<close> as its 4 or 16 bytes, the parsers of IPv4 and
  IPv6 literals, \<open>IP.String\<close>, \<open>SplitHostPort\<close>, \<open>JoinHostPort\<close>, the address classes and
  membership in a CIDR block. A nil \<open>net.IP\<close> is \<open>None\<close> at the call sites.
\<close>

type_synonym ip = "8 word list"

section \<open>Address classes\<close>

definition v4InV6Prefix :: ip where
  "v4InV6Prefix = [0, 0, 0, 0, 0, 0, 0, 0, 0, 0, 0xff, 0xff]"

definition to4 :: "ip \<Rightarrow> ip option" where
  "to4 ip =
     (if length ip = 4 then Some ip
      else if length ip = 16 \<and> take 12 ip = v4InV6Prefix then Some (drop 12 ip)
      else None)"

text \<open>\<open>IP.Equal\<close>: an IPv4 address and its IPv6-mapped form are equal.\<close>

definition ip_equal :: "ip \<Rightarrow> ip \<Rightarrow> bool" where
  "ip_equal a b =
     (if length a = length b then a = b
      else if length a = 4 \<and> length b = 16 then take 12 b = v4InV6Prefix \<and> a = drop 12 b
      else if length a = 16 \<and> length b = 4 then take 12 a = v4InV6Prefix \<and> drop 12 a = b
      else False)"

definition ipv4zero :: ip where "ipv4zero = v4InV6Prefix @ [0, 0, 0, 0]"
definition ipv4bcast :: ip where "ipv4bcast = v4InV6Prefix @ [255, 255, 255, 255]"
definition ipv6unspecified :: ip where "ipv6unspecified = replicate 16 0"
definition ipv6loopback :: ip where "ipv6loopback = replicate 15 0 @ [1]"

definition isUnspecified :: "ip \<Rightarrow> bool" where
  "isUnspecified ip \<longleftrightarrow> ip_equal ip ipv4zero \<or> ip_equal ip ipv6unspecified"

definition isLoopback :: "ip \<Rightarrow> bool" where
  "isLoopback ip = (case to4 ip of Some v \<Rightarrow> v ! 0 = 127 | None \<Rightarrow> ip_equal ip ipv6loopback)"

definition isPrivate :: "ip \<Rightarrow> bool" where
  "isPrivate ip =
     (case to4 ip of
        Some v \<Rightarrow> v ! 0 = 10 \<or> (v ! 0 = 172 \<and> v ! 1 AND 0xf0 = 16) \<or> (v ! 0 = 192 \<and> v ! 1 = 168)
      | None \<Rightarrow> length ip = 16 \<and> ip ! 0 AND 0xfe = 0xfc)"

definition isMulticast :: "ip \<Rightarrow> bool" where
  "isMulticast ip =
     (case to4 ip of
        Some v \<Rightarrow> v ! 0 AND 0xf0 = 0xe0
      | None \<Rightarrow> length ip = 16 \<and> ip ! 0 = 0xff)"

definition isLinkLocalMulticast :: "ip \<Rightarrow> bool" where
  "isLinkLocalMulticast ip =
     (case to4 ip of
        Some v \<Rightarrow> v ! 0 = 224 \<and> v ! 1 = 0 \<and> v ! 2 = 0
      | None \<Rightarrow> length ip = 16 \<and> ip ! 0 = 0xff \<and> ip ! 1 AND 0x0f = 0x02)"

definition isLinkLocalUnicast :: "ip \<Rightarrow> bool" where
  "isLinkLocalUnicast ip =
     (case to4 ip of
        Some v \<Rightarrow> v ! 0 = 169 \<and> v ! 1 = 254
      | None \<Rightarrow> length ip = 16 \<and> ip ! 0 = 0xfe \<and> ip ! 1 AND 0xc0 = 0x80)"

definition isGlobalUnicast :: "ip \<Rightarrow> bool" where
  "isGlobalUnicast ip \<longleftrightarrow>
     (length ip = 4 \<or> length ip = 16) \<and> \<not> ip_equal ip ipv4bcast \<and> \<not> isUnspecified ip
     \<and> \<not> isLoopback ip \<and> \<not> isMulticast ip \<and> \<not> isLinkLocalUnicast ip"

lemmas ip_class_defs =
  isGlobalUnicast_def isUnspecified_def isLoopback_def isPrivate_def isMulticast_def
  isLinkLocalMulticast_def isLinkLocalUnicast_def

section \<open>CIDR blocks\<close>

definition mask_byte :: "nat \<Rightarrow> 8 word" where
  "mask_byte n = NOT (mask (8 - n))"

text \<open>The mask of a prefix length over the bytes of an address, and \<open>IPNet.Contains\<close>.\<close>

fun prefix_mask :: "nat \<Rightarrow> nat \<Rightarrow> 8 word list" where
  "prefix_mask 0 n = []"
| "prefix_mask (Suc k) n = mask_byte n # prefix_mask k (n - 8)"

definition cidr_contains :: "ip \<times> nat \<Rightarrow> ip \<Rightarrow> bool" where
  "cidr_contains block ip =
     (let x = (case to4 ip of Some v \<Rightarrow> v | None \<Rightarrow> ip)
      in length x = length (fst block)
         \<and> list_all2 (\<lambda>(n, m) b. n AND m = b AND m)
             (zip (fst block) (prefix_mask (length (fst block)) (snd block))) x)"

section \<open>Parsing and printing addresses\<close>

text \<open>One decimal field of a dotted IPv4 address: no leading zero, at most 255.\<close>

definition parse_octet :: "string \<Rightarrow> 8 word option" where
  "parse_octet s =
     (case parse_digits s of
        None \<Rightarrow> None
      | Some n \<Rightarrow> if n \<le> 255 \<and> (length s = 1 \<or> hd s \<noteq> CHR ''0'') then Some (of_nat n) else None)"

definition parseIPv4 :: "string \<Rightarrow> ip option" where
  "parseIPv4 s =
     (case splitOn CHR ''.'' s of
        [a, b, c, d] \<Rightarrow>
          (case (parse_octet a, parse_octet b, parse_octet c, parse_octet d) of
             (Some w, Some x, Some y, Some z) \<Rightarrow> Some [w, x, y, z]
           | _ \<Rightarrow> None)
      | _ \<Rightarrow> None)"

fun hex_group :: "nat \<Rightarrow> string \<Rightarrow> nat" where
  "hex_group acc [] = acc"
| "hex_group acc (c # s) = hex_group (acc * 16 + (case hex_value c of Some v \<Rightarrow> v | None \<Rightarrow> 0)) s"

text \<open>
  The loop of \<open>netip.parseIPv6\<close>: the rest of the text, the bytes read so far and the position of
  the ellipsis. It leaves the loop with the unread text, the bytes and the ellipsis.
\<close>

function parseIPv6_loop :: "string \<Rightarrow> ip \<Rightarrow> nat option \<Rightarrow> (string \<times> ip \<times> nat option) option" where
  "parseIPv6_loop s bs el =
     (if length bs \<ge> 16 then Some (s, bs, el)
      else
        let ds = takeWhile (\<lambda>c. hex_value c \<noteq> None) s; off = length ds; rest = drop off s in
        if off = 0 \<or> off > 4 then None
        else if rest \<noteq> [] \<and> hd rest = CHR ''.'' then
          (if el = None \<and> length bs \<noteq> 12 then None
           else if length bs + 4 > 16 then None
           else (case parseIPv4 s of None \<Rightarrow> None | Some v \<Rightarrow> Some ([], bs @ v, el)))
        else
          let acc = hex_group 0 ds; bs' = bs @ [of_nat (acc div 256), of_nat (acc mod 256)] in
          if rest = [] then Some ([], bs', el)
          else if hd rest \<noteq> CHR '':'' then None
          else if length rest = 1 then None
          else
            let s' = tl rest in
            if hd s' = CHR '':'' then
              (if el \<noteq> None then None
               else if tl s' = [] then Some ([], bs', Some (length bs'))
               else parseIPv6_loop (tl s') bs' (Some (length bs')))
            else parseIPv6_loop s' bs' el)"
  by pat_completeness auto
termination
  by (relation "measure (\<lambda>(s, bs, el). 16 - length bs)") auto

declare parseIPv6_loop.simps [simp del]

definition parseIPv6 :: "string \<Rightarrow> ip option" where
  "parseIPv6 s =
     (if s = ''::'' then Some ipv6unspecified
      else
        (let lead = hasPrefix s ''::''
         in case parseIPv6_loop (if lead then drop 2 s else s) [] (if lead then Some 0 else None) of
              None \<Rightarrow> None
            | Some (rest, bs, el) \<Rightarrow>
                if rest \<noteq> [] then None
                else if length bs < 16 then
                  (case el of
                     None \<Rightarrow> None
                   | Some e \<Rightarrow> Some (take e bs @ replicate (16 - length bs) 0 @ drop e bs))
                else if el \<noteq> None then None
                else Some bs))"

text \<open>
  \<open>net.ParseIP\<close>: the first of \<open>.\<close>, \<open>:\<close>, \<open>%\<close> decides the parser; a zone is rejected, and an IPv4
  address is returned in its 16-byte form.
\<close>

definition parseIP :: "string \<Rightarrow> ip option" where
  "parseIP s =
     (case dropWhile (\<lambda>c. c \<noteq> CHR ''.'' \<and> c \<noteq> CHR '':'' \<and> c \<noteq> CHR ''%'') s of
        [] \<Rightarrow> None
      | c # _ \<Rightarrow>
          if c = CHR ''.'' then map_option (\<lambda>v. v4InV6Prefix @ v) (parseIPv4 s)
          else if c = CHR '':'' then (if CHR ''%'' \<in> set s then None else parseIPv6 s)
          else None)"

fun join_with :: "string \<Rightarrow> string list \<Rightarrow> string" where
  "join_with sep [] = []"
| "join_with sep [x] = x"
| "join_with sep (x # xs) = x @ sep @ join_with sep xs"

definition dotted :: "ip \<Rightarrow> string" where
  "dotted v = join_with ''.'' (map (\<lambda>b. decimal (unat b)) v)"

fun groups16 :: "ip \<Rightarrow> nat list" where
  "groups16 (a # b # r) = (unat a * 256 + unat b) # groups16 r"
| "groups16 _ = []"

fun hex_text :: "nat \<Rightarrow> string" where
  "hex_text n = (if n < 16 then [hex_digit n] else hex_text (n div 16) @ [hex_digit (n mod 16)])"

declare hex_text.simps [simp del]

text \<open>Length of the run of zero groups at each position; the first longest run of two or more.\<close>

fun zero_run :: "nat list \<Rightarrow> nat" where
  "zero_run [] = 0"
| "zero_run (g # gs) = (if g = 0 then Suc (zero_run gs) else 0)"

fun best_run :: "nat \<Rightarrow> nat list \<Rightarrow> nat \<times> nat" where
  "best_run i [] = (i, 0)"
| "best_run i (g # gs) =
     (let here = zero_run (g # gs); (j, n) = best_run (Suc i) gs
      in if here \<ge> n then (i, here) else (j, n))"

definition ipv6_text :: "nat list \<Rightarrow> string" where
  "ipv6_text gs =
     (let (j, n) = best_run 0 gs; hx = (\<lambda>xs. join_with '':'' (map hex_text xs))
      in if n < 2 then hx gs else hx (take j gs) @ ''::'' @ hx (drop (j + n) gs))"

definition ip_string :: "ip \<Rightarrow> string" where
  "ip_string ip = (case to4 ip of Some v \<Rightarrow> dotted v | None \<Rightarrow> ipv6_text (groups16 ip))"

section \<open>Host and port\<close>

definition index_of :: "char \<Rightarrow> string \<Rightarrow> nat option" where
  "index_of c s = (if c \<in> set s then Some (length (takeWhile (\<lambda>d. d \<noteq> c) s)) else None)"

definition last_index_of :: "char \<Rightarrow> string \<Rightarrow> nat option" where
  "last_index_of c s = map_option (\<lambda>i. length s - 1 - i) (index_of c (rev s))"

definition splitHostPort :: "string \<Rightarrow> (string \<times> string) option" where
  "splitHostPort hp =
     (case last_index_of CHR '':'' hp of
        None \<Rightarrow> None
      | Some i \<Rightarrow>
          if hd hp = CHR ''['' then
            (case index_of CHR '']'' hp of
               None \<Rightarrow> None
             | Some e \<Rightarrow>
                 if e + 1 = length hp \<or> e + 1 \<noteq> i then None
                 else if CHR ''['' \<in> set (drop 1 hp) \<or> CHR '']'' \<in> set (drop (e + 1) hp) then None
                 else Some (take (e - 1) (drop 1 hp), drop (i + 1) hp))
          else
            if CHR '':'' \<in> set (take i hp) \<or> CHR ''['' \<in> set hp \<or> CHR '']'' \<in> set hp then None
            else Some (take i hp, drop (i + 1) hp))"

definition joinHostPort :: "string \<Rightarrow> string \<Rightarrow> string" where
  "joinHostPort host port =
     (if CHR '':'' \<in> set host then ''['' @ host @ '']:'' @ port else host @ '':'' @ port)"

lemma index_of_first: "c \<notin> set xs \<Longrightarrow> index_of c (xs @ c # ys) = Some (length xs)"
proof -
  assume "c \<notin> set xs"
  then have "takeWhile (\<lambda>d. d \<noteq> c) xs = xs" by (auto simp: takeWhile_eq_all_conv)
  then show ?thesis by (simp add: index_of_def takeWhile_append)
qed

lemma last_index_of_last: "c \<notin> set ys \<Longrightarrow> last_index_of c (xs @ c # ys) = Some (length xs)"
  using index_of_first [of c "rev ys" "rev xs"] by (simp add: last_index_of_def)

text \<open>Joining a host without brackets and a port and splitting again gives both back.\<close>

lemma split_join_host_port:
  assumes "host \<noteq> []" and "CHR ''['' \<notin> set host" "CHR '']'' \<notin> set host"
    and "CHR '':'' \<notin> set port" "CHR ''['' \<notin> set port" "CHR '']'' \<notin> set port"
  shows "splitHostPort (joinHostPort host port) = Some (host, port)"
proof (cases "CHR '':'' \<in> set host")
  case True
  let ?hp = "''['' @ host @ '']:'' @ port"
  have i: "last_index_of CHR '':'' ?hp = Some (length host + 2)"
    using last_index_of_last [of "CHR '':''" port "''['' @ host @ '']''"] assms by simp
  have e: "index_of CHR '']'' ?hp = Some (length host + 1)"
    using index_of_first [of "CHR '']''" "''['' @ host" "'':'' @ port"] assms by simp
  show ?thesis
    using True assms i e by (simp add: joinHostPort_def splitHostPort_def)
next
  case False
  have i: "last_index_of CHR '':'' (host @ '':'' @ port) = Some (length host)"
    using last_index_of_last [of "CHR '':''" port host] assms by simp
  have "hd (host @ '':'' @ port) \<noteq> CHR ''[''"
    using assms(1,2) by (cases host) auto
  then show ?thesis
    using False assms i by (simp add: joinHostPort_def splitHostPort_def)
qed

end
