(* ===== verification/Go_Base64.thy ===== *)
theory Go_Base64
  imports Go_Strings
begin

text \<open>
  Package \<open>encoding/base64\<close> as the relay uses it: the standard and URL alphabets, with and without
  padding, in Go's lenient mode (line breaks are skipped, trailing bits are ignored). The round
  trip of the encoder and the decoder is proved for every byte list.
\<close>

datatype b64_alphabet = StdAlphabet | UrlAlphabet

fun b64_char62 :: "b64_alphabet \<Rightarrow> nat" where
  "b64_char62 StdAlphabet = 43"
| "b64_char62 UrlAlphabet = 45"

fun b64_char63 :: "b64_alphabet \<Rightarrow> nat" where
  "b64_char63 StdAlphabet = 47"
| "b64_char63 UrlAlphabet = 95"

definition b64_char :: "b64_alphabet \<Rightarrow> nat \<Rightarrow> char" where
  "b64_char al n =
     (if n < 26 then char_of (65 + n)
      else if n < 52 then char_of (71 + n)
      else if n < 62 then char_of (n - 4)
      else if n = 62 then char_of (b64_char62 al) else char_of (b64_char63 al))"

definition b64_value :: "b64_alphabet \<Rightarrow> char \<Rightarrow> nat option" where
  "b64_value al c =
     (if is_upper c then Some (code c - 65)
      else if is_lower c then Some (code c - 71)
      else if is_digit c then Some (code c + 4)
      else if code c = b64_char62 al then Some 62
      else if code c = b64_char63 al then Some 63
      else None)"

lemma b64_char_code:
  "n < 64 \<Longrightarrow> code (b64_char al n) =
     (if n < 26 then 65 + n else if n < 52 then 71 + n else if n < 62 then n - 4
      else if n = 62 then b64_char62 al else b64_char63 al)"
  by (cases al) (auto simp: b64_char_def)

lemma b64_value_char [simp]: "n < 64 \<Longrightarrow> b64_value al (b64_char al n) = Some n"
  by (cases al) (auto simp: b64_value_def b64_char_code go_string_simps)

lemma b64_char_not_special:
  assumes "n < 64"
  shows "code (b64_char al n) \<noteq> 61" and "plain_char (b64_char al n)"
  using assms by (cases al; auto simp: b64_char_code plain_char_def)+

text \<open>\<open>EncodeToString\<close>; \<open>pad\<close> distinguishes \<open>StdEncoding\<close> from \<open>RawStdEncoding\<close>.\<close>

fun b64Encode :: "b64_alphabet \<Rightarrow> bool \<Rightarrow> nat list \<Rightarrow> string" where
  "b64Encode al pad [] = []"
| "b64Encode al pad [a] =
     [b64_char al (a div 4), b64_char al (a mod 4 * 16)] @ (if pad then ''=='' else [])"
| "b64Encode al pad [a, b] =
     [b64_char al (a div 4), b64_char al (a mod 4 * 16 + b div 16), b64_char al (b mod 16 * 4)]
     @ (if pad then ''='' else [])"
| "b64Encode al pad (a # b # c # r) =
     [b64_char al (a div 4), b64_char al (a mod 4 * 16 + b div 16),
      b64_char al (b mod 16 * 4 + c div 64), b64_char al (c mod 64)] @ b64Encode al pad r"

text \<open>Decoding of the characters that are left once line breaks are skipped.\<close>

fun b64_quanta :: "b64_alphabet \<Rightarrow> bool \<Rightarrow> string \<Rightarrow> nat list option" where
  "b64_quanta al pad [] = Some []"
| "b64_quanta al pad [p] = None"
| "b64_quanta al pad [p, q] =
     (if pad then None else
      (case (b64_value al p, b64_value al q) of
         (Some v, Some w) \<Rightarrow> Some [v * 4 + w div 16] | _ \<Rightarrow> None))"
| "b64_quanta al pad [p, q, r] =
     (if pad then None else
      (case (b64_value al p, b64_value al q, b64_value al r) of
         (Some v, Some w, Some x) \<Rightarrow> Some [v * 4 + w div 16, w mod 16 * 16 + x div 4] | _ \<Rightarrow> None))"
| "b64_quanta al pad (p # q # r # s # rest) =
     (if pad \<and> s = CHR ''='' then
        (if rest \<noteq> [] then None
         else if r = CHR ''='' then
           (case (b64_value al p, b64_value al q) of
              (Some v, Some w) \<Rightarrow> Some [v * 4 + w div 16] | _ \<Rightarrow> None)
         else
           (case (b64_value al p, b64_value al q, b64_value al r) of
              (Some v, Some w, Some x) \<Rightarrow> Some [v * 4 + w div 16, w mod 16 * 16 + x div 4] | _ \<Rightarrow> None))
      else
        (case (b64_value al p, b64_value al q, b64_value al r, b64_value al s, b64_quanta al pad rest) of
           (Some v, Some w, Some x, Some y, Some bs) \<Rightarrow>
             Some ([v * 4 + w div 16, w mod 16 * 16 + x div 4, x mod 4 * 64 + y] @ bs)
         | _ \<Rightarrow> None))"

definition b64Decode :: "b64_alphabet \<Rightarrow> bool \<Rightarrow> string \<Rightarrow> nat list option" where
  "b64Decode al pad s = b64_quanta al pad (filter (\<lambda>c. code c \<noteq> 10 \<and> code c \<noteq> 13) s)"

lemma b64Encode_plain:
  "\<forall>b \<in> set bs. b < 256 \<Longrightarrow> ch \<in> set (b64Encode al False bs) \<Longrightarrow> plain_char ch"
proof (induction al False bs rule: b64Encode.induct)
  case (4 al a b c r)
  then show ?case
    by (auto intro!: b64_char_not_special(2) simp: less_mult_imp_div_less)
qed (auto intro!: b64_char_not_special(2) simp: less_mult_imp_div_less)

lemma b64_split3:
  fixes a b c :: nat
  assumes "a < 256" "b < 256" "c < 256"
  shows "a div 4 < 64" "a mod 4 * 16 + b div 16 < 64" "b mod 16 * 4 + c div 64 < 64" "c mod 64 < 64"
    "a div 4 * 4 + (a mod 4 * 16 + b div 16) div 16 = a"
    "(a mod 4 * 16 + b div 16) mod 16 * 16 + (b mod 16 * 4 + c div 64) div 4 = b"
    "(b mod 16 * 4 + c div 64) mod 4 * 64 + c mod 64 = c"
    "b div 16 mod 16 = b div 16" "c div 64 mod 4 = c div 64"
proof -
  have bounds: "b div 16 < 16" "c div 64 < 4" "a div 4 < 64"
    using assms by (simp_all add: less_mult_imp_div_less)
  then show "a div 4 < 64" "a mod 4 * 16 + b div 16 < 64" "b mod 16 * 4 + c div 64 < 64"
    "c mod 64 < 64"
    by (simp_all add: add_less_mono)
  show "a div 4 * 4 + (a mod 4 * 16 + b div 16) div 16 = a"
    using bounds by simp
  show "(a mod 4 * 16 + b div 16) mod 16 * 16 + (b mod 16 * 4 + c div 64) div 4 = b"
    using bounds by simp
  show "(b mod 16 * 4 + c div 64) mod 4 * 64 + c mod 64 = c"
    using bounds by simp
  show "b div 16 mod 16 = b div 16" "c div 64 mod 4 = c div 64"
    using bounds by simp_all
qed

lemma b64_quanta_encode_raw:
  "\<forall>b \<in> set bs. b < 256 \<Longrightarrow> b64_quanta al False (b64Encode al False bs) = Some bs"
proof (induction al False bs rule: b64Encode.induct)
  case (2 al a)
  then show ?case using b64_split3 [of a 0 0] by simp
next
  case (3 al a b)
  then show ?case using b64_split3 [of a b 0] by simp
next
  case (4 al a b c r)
  then show ?case using b64_split3 [of a b c] by simp
qed simp

lemma b64_quanta_encode_pad:
  "\<forall>b \<in> set bs. b < 256 \<Longrightarrow> b64_quanta al True (b64Encode al True bs) = Some bs"
proof (induction al True bs rule: b64Encode.induct)
  case (2 al a)
  then show ?case using b64_split3 [of a 0 0] by simp
next
  case (3 al a b)
  have "code (b64_char al (b mod 16 * 4)) \<noteq> code CHR ''=''"
    using b64_char_not_special(1) [of "b mod 16 * 4" al] 3 b64_split3 [of a b 0] by simp
  then have "b64_char al (b mod 16 * 4) \<noteq> CHR ''=''" by metis
  then show ?case using 3 b64_split3 [of a b 0] by simp
next
  case (4 al a b c r)
  have "code (b64_char al (c mod 64)) \<noteq> code CHR ''=''"
    using b64_char_not_special(1) [of "c mod 64" al] by simp
  then have "b64_char al (c mod 64) \<noteq> CHR ''=''" by metis
  then show ?case using 4 b64_split3 [of a b c] by simp
qed simp

lemma b64_no_breaks:
  "\<forall>b \<in> set bs. b < 256 \<Longrightarrow>
     filter (\<lambda>c. code c \<noteq> 10 \<and> code c \<noteq> 13) (b64Encode al False bs) = b64Encode al False bs"
  by (auto simp: filter_id_conv plain_char_def dest!: b64Encode_plain)

lemma b64Decode_encode_raw:
  "\<forall>b \<in> set bs. b < 256 \<Longrightarrow> b64Decode al False (b64Encode al False bs) = Some bs"
  by (simp add: b64Decode_def b64_no_breaks b64_quanta_encode_raw)

lemma b64_raw_length: "length (b64Encode al False bs) = (length bs * 4 + 2) div 3"
  by (induction al False bs rule: b64Encode.induct) auto

end
