(* ===== verification/Config.thy ===== *)
theory Config
  imports Go_Net Go_Base64
begin

text \<open>
  \<open>internal/config/config.go\<close>: the configuration types, the defaults, validation, token hashes and
  the selection of Telegram addresses. \<open>goenv\<close> holds the library functions whose tables or
  algorithms are not part of this program: the Unicode case tables, SHA-256, \<open>url.Parse\<close> and
  \<open>time.Parse(time.RFC3339, _)\<close>. A check that returns an error is a \<open>string option\<close> with the code's
  message; \<open>first_error\<close> is a sequence of early returns. A loop over the runes of a string whose
  test only accepts ASCII (or only rejects ASCII control bytes) is a loop over its bytes.
\<close>

section \<open>Library parameters\<close>

record url =
  url_scheme :: string
  url_host :: string
  url_hostname :: string
  url_hasUser :: bool
  url_rawQuery :: string
  url_fragment :: string

record goenv =
  ge_lower :: "nat \<Rightarrow> nat"
  ge_equalFold :: "string \<Rightarrow> string \<Rightarrow> bool"
  ge_sha256 :: "string \<Rightarrow> nat list"
  ge_urlParse :: "string \<Rightarrow> url option"
  ge_rfc3339 :: "string \<Rightarrow> int option"

text \<open>What the proofs rely on: a digest is 32 bytes.\<close>

definition sha256_ok :: "goenv \<Rightarrow> bool" where
  "sha256_ok E \<longleftrightarrow> (\<forall>s. length (ge_sha256 E s) = 32 \<and> (\<forall>b \<in> set (ge_sha256 E s). b < 256))"

section \<open>Types\<close>

definition maxConfigBytes :: int where "maxConfigBytes = 2 ^ 20"
definition maxTelegramDCs :: int where "maxTelegramDCs = 32"
definition maxEndpointsPerDC :: int where "maxEndpointsPerDC = 32"
definition maxTelegramEndpoints :: int where
  "maxTelegramEndpoints = maxTelegramDCs * maxEndpointsPerDC"

record Token =
  tk_ID :: string
  tk_Name :: string
  tk_Hash :: string
  tk_CreatedAt :: string

record AdminConfig =
  ac_Tokens :: "Token list"
  ac_StatePath :: string
  ac_GeoIPURL :: string

record TelegramEndpoint =
  ep_Address :: string
  ep_Role :: string
  ep_Static :: bool
  ep_ThisPortOnly :: bool
  ep_TCPOOnly :: bool
  ep_Secret :: string

record TopologyConfig =
  tp_URL :: string
  tp_PublicKey :: string
  tp_StatePath :: string
  tp_RefreshIntervalSec :: int

text \<open>\<open>None\<close> is a nil map, which \<open>applyDefaults\<close> distinguishes from an empty one.\<close>

record TelegramConfig =
  tg_ConnectTimeoutMs :: int
  tg_IdleTimeoutSec :: int
  tg_DCMap :: "(int, string) gomap option"
  tg_TestDCMap :: "(int, string) gomap option"
  tg_DCOptions :: "(int, TelegramEndpoint list) gomap"
  tg_TestDCOptions :: "(int, TelegramEndpoint list) gomap"
  tg_Topology :: TopologyConfig

record WebSocketConfig =
  ws_Path :: string
  ws_PingIntervalSec :: int
  ws_PongTimeoutSec :: int
  ws_WriteTimeoutSec :: int
  ws_MaxMessageBytes :: int

record Config =
  cf_InstanceID :: string
  cf_Listen :: string
  cf_PublicURL :: string
  cf_Tokens :: "Token list"
  cf_Admin :: AdminConfig
  cf_Telegram :: TelegramConfig
  cf_WebSocket :: WebSocketConfig

definition noTopology :: TopologyConfig where
  "noTopology = \<lparr>tp_URL = [], tp_PublicKey = [], tp_StatePath = [], tp_RefreshIntervalSec = 0\<rparr>"

definition defaultConfig :: Config where
  "defaultConfig =
     \<lparr>cf_InstanceID = [], cf_Listen = ''127.0.0.1:18080'', cf_PublicURL = [], cf_Tokens = [],
      cf_Admin = \<lparr>ac_Tokens = [], ac_StatePath = ''/var/lib/tgproxy-relay/state.json'',
                  ac_GeoIPURL = ''https://ipwho.is/%s?lang=ru&fields=success,country,city''\<rparr>,
      cf_Telegram =
        \<lparr>tg_ConnectTimeoutMs = 7000, tg_IdleTimeoutSec = 0,
         tg_DCMap = Some [(1, ''149.154.175.50''), (2, ''149.154.167.51''), (3, ''149.154.175.100''),
                          (4, ''149.154.167.91''), (5, ''149.154.171.5''), (203, ''91.105.192.100'')],
         tg_TestDCMap = Some [(1, ''149.154.175.10''), (2, ''149.154.167.40''), (3, ''149.154.175.117'')],
         tg_DCOptions = [], tg_TestDCOptions = [], tg_Topology = noTopology\<rparr>,
      cf_WebSocket = \<lparr>ws_Path = ''/apiws'', ws_PingIntervalSec = 25, ws_PongTimeoutSec = 12,
                      ws_WriteTimeoutSec = 15, ws_MaxMessageBytes = 16 * 1024 * 1024\<rparr>\<rparr>"

section \<open>Checks\<close>

definition check :: "bool \<Rightarrow> string \<Rightarrow> string option" where
  "check bad msg = (if bad then Some msg else None)"

fun first_error :: "string option list \<Rightarrow> string option" where
  "first_error [] = None"
| "first_error (Some e # _) = Some e"
| "first_error (None # es) = first_error es"

lemma check_None [simp]: "check bad msg = None \<longleftrightarrow> \<not> bad"
  by (simp add: check_def)

lemma first_error_None [simp]: "first_error es = None \<longleftrightarrow> (\<forall>e \<in> set es. e = None)"
  by (induction es rule: first_error.induct) auto

lemma first_error_cong_None: "first_error es = None \<Longrightarrow> e \<in> set es \<Longrightarrow> e = None"
  by simp

section \<open>Identifiers, tokens and hashes\<close>

definition has_control :: "string \<Rightarrow> bool" where
  "has_control s \<longleftrightarrow> list_ex (\<lambda>c. code c < 32 \<or> code c = 127) s"

definition ValidInstanceID :: "string \<Rightarrow> bool" where
  "ValidInstanceID value =
     (let clean = trimSpace value; hexPart = trimPrefix clean ''ri_''
      in hasPrefix clean ''ri_'' \<and> 32 \<le> length hexPart \<and> length hexPart \<le> 64
         \<and> list_all is_lower_hex hexPart)"

definition ident_char :: "char \<Rightarrow> bool" where
  "ident_char c \<longleftrightarrow> is_alnum c \<or> c = CHR ''-'' \<or> c = CHR ''_''"

definition validIdentifier :: "string \<Rightarrow> bool" where
  "validIdentifier value =
     (let id = trimSpace value in id \<noteq> [] \<and> length id \<le> 96 \<and> list_all ident_char id)"

definition TokenHash :: "goenv \<Rightarrow> string \<Rightarrow> string" where
  "TokenHash E token = ''sha256:'' @ hexEncode (ge_sha256 E token)"

definition normalizeHash :: "goenv \<Rightarrow> string \<Rightarrow> string" where
  "normalizeHash E value =
     (let normalized = trimSpace (toLower (ge_lower E) value)
      in if normalized = [] then []
         else if hasPrefix normalized ''sha256:'' then normalized
         else if length normalized = 64 \<and> hexDecode normalized \<noteq> None then ''sha256:'' @ normalized
         else normalized)"

definition StableTokenID :: "goenv \<Rightarrow> Token \<Rightarrow> string" where
  "StableTokenID E token =
     (if validIdentifier (tk_ID token) then trimSpace (tk_ID token)
      else
        (let hash = trimPrefix (normalizeHash E (tk_Hash token)) ''sha256:''
         in if length hash \<ge> 16 then ''cfg_'' @ take 16 hash else ''cfg_unknown''))"

text \<open>The loop of \<open>validateTokens\<close> with its two sets of seen hashes and ids.\<close>

fun validateTokens_loop :: "goenv \<Rightarrow> string \<Rightarrow> Token list \<Rightarrow> string list \<Rightarrow> string list \<Rightarrow> string option" where
  "validateTokens_loop E label [] seenHashes seenIDs = None"
| "validateTokens_loop E label (token # tokens) seenHashes seenIDs =
     (let normalized = normalizeHash E (tk_Hash token);
          hexHash = trimPrefix normalized ''sha256:'';
          id = StableTokenID E token
      in first_error
        [check (length (tk_Name token) > 128 \<or> has_control (tk_Name token)) (label @ '' name is invalid''),
         check (tk_ID token \<noteq> [] \<and> \<not> validIdentifier (tk_ID token)) (label @ '' id is invalid''),
         check (length (tk_CreatedAt token) > 64 \<or> has_control (tk_CreatedAt token))
           (label @ '' createdAt is invalid''),
         check (\<not> hasPrefix normalized ''sha256:'' \<or> length hexHash \<noteq> 64)
           (label @ '' hash must be sha256:<64 hex chars>''),
         check (hexDecode hexHash = None) (label @ '' hash must be sha256:<64 hex chars>''),
         check (containsString seenHashes normalized) (''duplicate '' @ label @ '' hash''),
         check (containsString seenIDs id) (''duplicate '' @ label @ '' id''),
         validateTokens_loop E label tokens (normalized # seenHashes) (id # seenIDs)])"

definition validateTokens :: "goenv \<Rightarrow> Token list \<Rightarrow> string \<Rightarrow> nat \<Rightarrow> string option" where
  "validateTokens E tokens label limit =
     first_error
       [check (length tokens > limit) (''too many '' @ label @ '' entries''),
        validateTokens_loop E label tokens [] []]"

text \<open>\<open>subtle.ConstantTimeCompare\<close> answers 1 exactly for equal strings.\<close>

definition authorizeToken :: "goenv \<Rightarrow> Token list \<Rightarrow> string \<Rightarrow> bool" where
  "authorizeToken E tokens rawToken =
     (if trimSpace rawToken = [] then False
      else
        (let hash = TokenHash E rawToken
         in list_ex (\<lambda>token. let stored = normalizeHash E (tk_Hash token)
                             in stored \<noteq> [] \<and> hash = stored) tokens))"

definition AuthorizeToken :: "goenv \<Rightarrow> Config \<Rightarrow> string \<Rightarrow> bool" where
  "AuthorizeToken E c rawToken = authorizeToken E (cf_Tokens c) rawToken"

definition AuthorizeBearer :: "goenv \<Rightarrow> Config \<Rightarrow> string \<Rightarrow> bool" where
  "AuthorizeBearer E c header =
     (if \<not> hasPrefix header ''Bearer '' then False
      else AuthorizeToken E c (trimSpace (trimPrefix header ''Bearer '')))"

definition AuthorizeAdminBearer :: "goenv \<Rightarrow> Config \<Rightarrow> string \<Rightarrow> bool" where
  "AuthorizeAdminBearer E c header =
     (if \<not> hasPrefix header ''Bearer '' then False
      else authorizeToken E (ac_Tokens (cf_Admin c)) (trimSpace (trimPrefix header ''Bearer '')))"

section \<open>Hosts, paths and URLs\<close>

definition validHost :: "string \<Rightarrow> bool" where
  "validHost value =
     (let host = trimSuffix (trimSpace value) ''.''
      in if host = [] then False
         else if parseIP host \<noteq> None then True
         else if length host > 253 then False
         else list_all (\<lambda>label. label \<noteq> [] \<and> length label \<le> 63
                          \<and> hd label \<noteq> CHR ''-'' \<and> last label \<noteq> CHR ''-''
                          \<and> list_all (\<lambda>ch. is_alnum ch \<or> ch = CHR ''-'') label)
                (splitOn CHR ''.'' host))"

definition path_char :: "char \<Rightarrow> bool" where
  "path_char c \<longleftrightarrow> is_alnum c \<or> c \<in> set ''._~-''"

definition validWebSocketPath :: "string \<Rightarrow> bool" where
  "validWebSocketPath value =
     (let path = trimSpace value
      in if path = [] \<or> length path > 256 \<or> hd path \<noteq> CHR ''/'' \<or> length path = 1
            \<or> hasSuffix path ''/'' \<or> containsSub path ''//''
            \<or> list_ex (\<lambda>c. c \<in> set ''%?#'') path
         then False
         else list_all (\<lambda>segment. segment \<noteq> [] \<and> segment \<noteq> ''.'' \<and> segment \<noteq> ''..''
                          \<and> list_all path_char segment)
                (splitOn CHR ''/'' (drop 1 path)))"

text \<open>\<open>strings.FieldsFunc\<close>: the maximal runs of bytes that are not separators.\<close>

fun fieldsFunc :: "(char \<Rightarrow> bool) \<Rightarrow> string \<Rightarrow> string \<Rightarrow> string list" where
  "fieldsFunc sep cur [] = (if cur = [] then [] else [cur])"
| "fieldsFunc sep cur (c # s) =
     (if sep c then (if cur = [] then [] else [cur]) @ fieldsFunc sep [] s
      else fieldsFunc sep (cur @ [c]) s)"

definition validStatePath :: "string \<Rightarrow> bool" where
  "validStatePath value =
     (let path = trimSpace value
      in if path = [] \<or> length path > 512 \<or> \<not> hasPrefix path ''/'' \<or> list_ex (\<lambda>c. code c = 0) path
         then False
         else list_all (\<lambda>part. part \<noteq> ''..'')
                (fieldsFunc (\<lambda>c. c = CHR ''/'' \<or> code c = 92) [] path))"

text \<open>Occurrences of \<open>%s\<close>, which cannot overlap, and the first one replaced.\<close>

fun countPercentS :: "string \<Rightarrow> nat" where
  "countPercentS (c # d # s) =
     (if c = CHR ''%'' \<and> d = CHR ''s'' then Suc (countPercentS s) else countPercentS (d # s))"
| "countPercentS s = 0"

fun replacePercentS :: "string \<Rightarrow> string \<Rightarrow> string" where
  "replacePercentS new (c # d # s) =
     (if c = CHR ''%'' \<and> d = CHR ''s'' then new @ s else c # replacePercentS new (d # s))"
| "replacePercentS new s = s"

definition validGeoIPURL :: "goenv \<Rightarrow> string \<Rightarrow> bool" where
  "validGeoIPURL E value =
     (let raw = trimSpace value
      in if raw = [] then True
         else if countPercentS raw \<noteq> 1 \<or> length raw > 1024 then False
         else (case ge_urlParse E (replacePercentS ''127.0.0.1'' raw) of
                 None \<Rightarrow> False
               | Some parsed \<Rightarrow> url_scheme parsed = ''https'' \<and> url_host parsed \<noteq> []
                                 \<and> \<not> url_hasUser parsed))"

definition ParsePort :: "string \<Rightarrow> int \<Rightarrow> int" where
  "ParsePort value fallback =
     (case atoi (trimSpace value) of
        None \<Rightarrow> fallback
      | Some port \<Rightarrow> if port \<le> 0 \<or> port > 65535 then fallback else port)"

section \<open>Telegram addresses\<close>

definition brackets :: "char set" where "brackets = {CHR ''['', CHR '']''}"

definition normalizeTelegramAddress :: "string \<Rightarrow> string" where
  "normalizeTelegramAddress value =
     (let raw = trimSpace value
      in if raw = [] then []
         else (case parseIP (trimChars brackets raw) of
                 Some ip \<Rightarrow> joinHostPort (ip_string ip) ''443''
               | None \<Rightarrow>
                   (case splitHostPort raw of
                      Some (host, port) \<Rightarrow>
                        if host = [] \<or> port = [] then []
                        else joinHostPort (trimChars brackets host) port
                    | None \<Rightarrow>
                        if containsSub raw '':'' then [] else joinHostPort raw ''443'')))"

definition v4_reserved :: "(ip \<times> nat) list" where
  "v4_reserved =
     [([0, 0, 0, 0], 8), ([100, 64, 0, 0], 10), ([192, 0, 0, 0], 24), ([192, 0, 2, 0], 24),
      ([198, 18, 0, 0], 15), ([198, 51, 100, 0], 24), ([203, 0, 113, 0], 24), ([240, 0, 0, 0], 4)]"

definition v6_reserved :: "(ip \<times> nat) list" where
  "v6_reserved =
     [([1, 0] @ replicate 14 0, 64), ([0x20, 0x01, 0x0d, 0xb8] @ replicate 12 0, 32)]"

definition IsSafeTelegramIP :: "ip option \<Rightarrow> bool" where
  "IsSafeTelegramIP ip =
     (case ip of
        None \<Rightarrow> False
      | Some ip \<Rightarrow>
          if \<not> isGlobalUnicast ip \<or> isPrivate ip \<or> isLoopback ip \<or> isLinkLocalUnicast ip
             \<or> isLinkLocalMulticast ip \<or> isMulticast ip \<or> isUnspecified ip then False
          else (case to4 ip of
                  Some v4 \<Rightarrow> \<not> list_ex (\<lambda>block. cidr_contains block v4) v4_reserved
                | None \<Rightarrow> \<not> list_ex (\<lambda>block. cidr_contains block ip) v6_reserved))"

definition validateTelegramAddress :: "string \<Rightarrow> string option" where
  "validateTelegramAddress address =
     (case splitHostPort (trimSpace address) of
        None \<Rightarrow> Some ''invalid host''
      | Some (host, rawPort) \<Rightarrow>
          if \<not> IsSafeTelegramIP (parseIP (trimChars brackets host))
          then Some ''Telegram endpoint must be a public IP literal''
          else (case atoi rawPort of
                  None \<Rightarrow> Some ''invalid port''
                | Some port \<Rightarrow> if port \<le> 0 \<or> port > 65535 then Some ''invalid port'' else None))"

definition validateDCMap :: "(int, string) gomap \<Rightarrow> string option" where
  "validateDCMap routes =
     first_error
       (check (int (length routes) > maxTelegramDCs) ''telegram dc map contains too many routes''
        # concat (map (\<lambda>(dc, host).
            [check (dc \<le> 0 \<or> dc > 32767 \<or> trimSpace host = [])
               ''telegram dc map contains an invalid route'',
             check (validateTelegramAddress (normalizeTelegramAddress host) \<noteq> None)
               ''telegram dc map contains an invalid address'']) routes))"

text \<open>The role of an endpoint as both the validator and the route selection read it.\<close>

definition lower_role :: "goenv \<Rightarrow> TelegramEndpoint \<Rightarrow> string" where
  "lower_role E endpoint = toLower (ge_lower E) (trimSpace (ep_Role endpoint))"

definition effective_role :: "goenv \<Rightarrow> TelegramEndpoint \<Rightarrow> string" where
  "effective_role E endpoint =
     (if lower_role E endpoint = [] then ''regular'' else lower_role E endpoint)"

fun validateEndpoints :: "goenv \<Rightarrow> TelegramEndpoint list \<Rightarrow> string list \<Rightarrow> string option" where
  "validateEndpoints E [] seen = None"
| "validateEndpoints E (endpoint # endpoints) seen =
     (let role = lower_role E endpoint;
          address = normalizeTelegramAddress (ep_Address endpoint);
          key = effective_role E endpoint @ ''|'' @ address
      in first_error
        [check (role \<noteq> [] \<and> role \<noteq> ''regular'' \<and> role \<noteq> ''media'' \<and> role \<noteq> ''cdn'')
           ''telegram dc endpoint contains an invalid role'',
         check (ep_Secret endpoint \<noteq> []) ''telegram dc endpoint secrets are not supported by raw relay'',
         check (validateTelegramAddress address \<noteq> None)
           ''telegram dc endpoint contains an invalid address'',
         check (containsString seen key) ''telegram dc endpoint is duplicated'',
         validateEndpoints E endpoints (key # seen)])"

definition ValidateTelegramDCOptions ::
  "goenv \<Rightarrow> (int, TelegramEndpoint list) gomap \<Rightarrow> string option" where
  "ValidateTelegramDCOptions E routes =
     first_error
       ([check (int (length routes) > maxTelegramDCs) ''telegram dc options contain too many routes'']
        @ concat (map (\<lambda>(dc, endpoints).
            [check (dc \<le> 0 \<or> dc > 32767 \<or> endpoints = []
                    \<or> int (length endpoints) > maxEndpointsPerDC)
               ''telegram dc options contain an invalid route'',
             validateEndpoints E endpoints []]) routes)
        @ [check (int (sum_list (map (\<lambda>(dc, endpoints). length endpoints) routes))
                    > maxTelegramEndpoints)
             ''telegram dc options contain too many endpoints''])"

definition decodeKey32 :: "string \<Rightarrow> nat list option" where
  "decodeKey32 value =
     (case b64Decode StdAlphabet False (trimSpace value) of
        Some key \<Rightarrow> Some key
      | None \<Rightarrow> b64Decode StdAlphabet True (trimSpace value))"

definition validateTopology :: "goenv \<Rightarrow> TopologyConfig \<Rightarrow> string option" where
  "validateTopology E topology =
     (let rawURL = trimSpace (tp_URL topology)
      in if rawURL = [] then
           check (trimSpace (tp_PublicKey topology) \<noteq> [] \<or> trimSpace (tp_StatePath topology) \<noteq> []
                  \<or> tp_RefreshIntervalSec topology \<noteq> 0)
             ''telegram topology url is required when topology settings are present''
         else
           first_error
             [check (case ge_urlParse E rawURL of
                       None \<Rightarrow> True
                     | Some parsed \<Rightarrow>
                         url_scheme parsed \<noteq> ''https'' \<or> url_host parsed = [] \<or> url_hasUser parsed
                         \<or> url_fragment parsed \<noteq> [] \<or> \<not> validHost (url_hostname parsed))
                ''telegram topology url must be an absolute https URL'',
              check (case decodeKey32 (tp_PublicKey topology) of
                       None \<Rightarrow> True | Some key \<Rightarrow> length key \<noteq> 32)
                ''telegram topology publicKey must be a base64 Ed25519 public key'',
              check (\<not> validStatePath (tp_StatePath topology))
                ''telegram topology statePath must be an absolute safe path'',
              check (tp_RefreshIntervalSec topology < 300 \<or> tp_RefreshIntervalSec topology > 86400)
                ''telegram topology refreshIntervalSec must be between 300 and 86400''])"

section \<open>Route selection\<close>

fun appendRole :: "goenv \<Rightarrow> TelegramEndpoint list \<Rightarrow> string \<Rightarrow> string list \<Rightarrow> string list" where
  "appendRole E [] role result = result"
| "appendRole E (endpoint # options) role result =
     (let address = normalizeTelegramAddress (ep_Address endpoint)
      in appendRole E options role
           (if effective_role E endpoint \<noteq> role then result
            else if address \<noteq> [] \<and> \<not> containsString result address then result @ [address]
            else result))"

text \<open>Indexing a nil map gives the zero value.\<close>

definition nilmap :: "('k, 'v) gomap option \<Rightarrow> ('k, 'v) gomap" where
  "nilmap m = (case m of None \<Rightarrow> [] | Some m \<Rightarrow> m)"

definition AddressesForRoute :: "goenv \<Rightarrow> TelegramConfig \<Rightarrow> int \<Rightarrow> bool \<Rightarrow> bool \<Rightarrow> string list" where
  "AddressesForRoute E t dc test media =
     (let options = mget [] (if test then tg_TestDCOptions t else tg_DCOptions t) dc;
          legacy = mget [] (nilmap (if test then tg_TestDCMap t else tg_DCMap t)) dc;
          result =
            (if media
             then appendRole E options ''regular''
                    (appendRole E options ''cdn'' (appendRole E options ''media'' []))
             else appendRole E options ''cdn'' (appendRole E options ''regular'' []))
      in if result = [] then
           (let address = normalizeTelegramAddress legacy
            in if address \<noteq> [] then [address] else [])
         else result)"

definition AddressForRoute :: "goenv \<Rightarrow> TelegramConfig \<Rightarrow> int \<Rightarrow> bool \<Rightarrow> string" where
  "AddressForRoute E t dc test =
     (case AddressesForRoute E t dc test False of [] \<Rightarrow> [] | a # _ \<Rightarrow> a)"

definition AddressForDC :: "TelegramConfig \<Rightarrow> int \<Rightarrow> string" where
  "AddressForDC t dc =
     normalizeTelegramAddress
       (case tg_DCMap t of None \<Rightarrow> [] | Some m \<Rightarrow> trimSpace (mget [] m dc))"

section \<open>Defaults and validation\<close>

definition applyDefaults_topology :: "TopologyConfig \<Rightarrow> TopologyConfig" where
  "applyDefaults_topology tp =
     (if trimSpace (tp_URL tp) \<noteq> [] then
        (let tp1 = (if trimSpace (tp_StatePath tp) = []
                    then tp\<lparr>tp_StatePath := ''/var/lib/tgproxy-relay/topology.json''\<rparr> else tp)
         in if tp_RefreshIntervalSec tp1 \<le> 0 then tp1\<lparr>tp_RefreshIntervalSec := 900\<rparr> else tp1)
      else tp)"

definition applyDefaults_telegram :: "TelegramConfig \<Rightarrow> TelegramConfig" where
  "applyDefaults_telegram t =
     (let d = cf_Telegram defaultConfig
      in t\<lparr>tg_ConnectTimeoutMs :=
             (if tg_ConnectTimeoutMs t \<le> 0 then tg_ConnectTimeoutMs d else tg_ConnectTimeoutMs t),
           tg_IdleTimeoutSec := (if tg_IdleTimeoutSec t < 0 then 0 else tg_IdleTimeoutSec t),
           tg_DCMap := (if tg_DCMap t = None then tg_DCMap d else tg_DCMap t),
           tg_TestDCMap := (if tg_TestDCMap t = None then tg_TestDCMap d else tg_TestDCMap t),
           tg_Topology := applyDefaults_topology (tg_Topology t)\<rparr>)"

definition applyDefaults_websocket :: "WebSocketConfig \<Rightarrow> WebSocketConfig" where
  "applyDefaults_websocket w =
     (let d = cf_WebSocket defaultConfig
      in \<lparr>ws_Path = (if trimSpace (ws_Path w) = [] then ws_Path d else ws_Path w),
          ws_PingIntervalSec =
            (if ws_PingIntervalSec w \<le> 0 then ws_PingIntervalSec d else ws_PingIntervalSec w),
          ws_PongTimeoutSec =
            (if ws_PongTimeoutSec w \<le> 0 then ws_PongTimeoutSec d else ws_PongTimeoutSec w),
          ws_WriteTimeoutSec =
            (if ws_WriteTimeoutSec w \<le> 0 then ws_WriteTimeoutSec d else ws_WriteTimeoutSec w),
          ws_MaxMessageBytes =
            (if ws_MaxMessageBytes w \<le> 0 then ws_MaxMessageBytes d else ws_MaxMessageBytes w)\<rparr>)"

definition applyDefaults :: "Config \<Rightarrow> Config" where
  "applyDefaults c =
     (let a = cf_Admin c
      in c\<lparr>cf_Listen := (if trimSpace (cf_Listen c) = [] then cf_Listen defaultConfig else cf_Listen c),
           cf_Telegram := applyDefaults_telegram (cf_Telegram c),
           cf_Admin := (if trimSpace (ac_StatePath a) = []
                        then a\<lparr>ac_StatePath := ac_StatePath (cf_Admin defaultConfig)\<rparr> else a),
           cf_WebSocket := applyDefaults_websocket (cf_WebSocket c)\<rparr>)"

text \<open>A management endpoint the WebSocket path must not take.\<close>

definition management_path :: "string \<Rightarrow> bool" where
  "management_path p \<longleftrightarrow>
     p \<in> set [''/healthz'', ''/version'', ''/identity'', ''/capabilities'', ''/test-routes'',
              ''/connect'', ''/admin'', ''/apiws/connect'', ''/apiws/identity'', ''/apiws/admin'']
     \<or> hasPrefix p ''/admin/'' \<or> hasPrefix p ''/apiws/admin/''"

definition validate_listen :: "string \<Rightarrow> string option" where
  "validate_listen listen =
     (if trimSpace listen = [] then Some ''listen is required''
      else (case splitHostPort listen of
              None \<Rightarrow> Some ''listen must be host:port''
            | Some (host, portText) \<Rightarrow>
                if host \<noteq> [] \<and> \<not> validHost host then Some ''listen contains an invalid host''
                else (case atoi portText of
                        None \<Rightarrow> Some ''listen port must be between 1 and 65535''
                      | Some port \<Rightarrow>
                          check (port \<le> 0 \<or> port > 65535)
                            ''listen port must be between 1 and 65535'')))"

definition validate_publicURL :: "goenv \<Rightarrow> string \<Rightarrow> string option" where
  "validate_publicURL E raw =
     check (trimSpace raw \<noteq> []
            \<and> (case ge_urlParse E raw of
                 None \<Rightarrow> True
               | Some u \<Rightarrow> (url_scheme u \<noteq> ''http'' \<and> url_scheme u \<noteq> ''https'') \<or> url_host u = []
                   \<or> \<not> validHost (url_hostname u) \<or> url_hasUser u \<or> url_rawQuery u \<noteq> []
                   \<or> url_fragment u \<noteq> []))
       ''publicUrl must be an absolute http or https URL''"

definition negative_limits :: "Config \<Rightarrow> bool" where
  "negative_limits c \<longleftrightarrow>
     (let t = cf_Telegram c; w = cf_WebSocket c
      in tg_ConnectTimeoutMs t < 0 \<or> tg_IdleTimeoutSec t < 0 \<or> ws_PingIntervalSec w < 0
         \<or> ws_PongTimeoutSec w < 0 \<or> ws_WriteTimeoutSec w < 0 \<or> ws_MaxMessageBytes w < 0)"

text \<open>The checks of \<open>Validate\<close> after the defaults, in the order of its early returns.\<close>

definition validate_checks :: "goenv \<Rightarrow> Config \<Rightarrow> string option list" where
  "validate_checks E c =
     (let t = cf_Telegram c; w = cf_WebSocket c; a = cf_Admin c;
          clientHashes = map (\<lambda>token. normalizeHash E (tk_Hash token)) (cf_Tokens c)
      in
      [check (trimSpace (cf_InstanceID c) \<noteq> [] \<and> \<not> ValidInstanceID (cf_InstanceID c))
         ''instanceId must use ri_ followed by 32 to 64 lowercase hexadecimal characters'',
       validate_listen (cf_Listen c),
       validate_publicURL E (cf_PublicURL c),
       check (cf_Tokens c = []) ''at least one token is required'',
       validateTokens E (cf_Tokens c) ''token'' 1024,
       validateTokens E (ac_Tokens a) ''admin token'' 64,
       check (list_ex (\<lambda>token. containsString clientHashes (normalizeHash E (tk_Hash token)))
                (ac_Tokens a))
         ''admin and client tokens must be different'',
       check (ac_Tokens a \<noteq> [] \<and> \<not> validStatePath (ac_StatePath a))
         ''admin statePath must be an absolute safe path'',
       check (ac_Tokens a \<noteq> [] \<and> \<not> validGeoIPURL E (ac_GeoIPURL a))
         ''admin geoIpUrl must be empty or an https URL containing one %s placeholder'',
       check (tg_ConnectTimeoutMs t > 60000) ''telegram connectTimeoutMs must not exceed 60000'',
       check (tg_IdleTimeoutSec t > 86400) ''telegram idleTimeoutSec must not exceed 86400'',
       validateDCMap (nilmap (tg_DCMap t)),
       validateDCMap (nilmap (tg_TestDCMap t)),
       ValidateTelegramDCOptions E (tg_DCOptions t),
       ValidateTelegramDCOptions E (tg_TestDCOptions t),
       check (nilmap (tg_DCMap t) = [] \<and> tg_DCOptions t = [])
         ''telegram requires at least one production bootstrap route'',
       validateTopology E (tg_Topology t),
       check (\<not> validWebSocketPath (ws_Path w))
         ''websocket path must be a canonical absolute path without escapes, query, or fragment'',
       check (management_path (ws_Path w)) ''websocket path conflicts with a management endpoint'',
       check (ws_PingIntervalSec w \<le> 0 \<or> ws_PongTimeoutSec w \<le> 0)
         ''websocket ping and pong timeouts must be positive'',
       check (ws_PingIntervalSec w > 3600 \<or> ws_PongTimeoutSec w > 3600)
         ''websocket ping and pong timeouts must not exceed 3600'',
       check (ws_WriteTimeoutSec w \<le> 0) ''websocket write timeout must be positive'',
       check (ws_WriteTimeoutSec w > 3600) ''websocket write timeout must not exceed 3600'',
       check (ws_MaxMessageBytes w < 64 * 1024 \<or> ws_MaxMessageBytes w > 64 * 1024 * 1024)
         ''websocket maxMessageBytes must be between 65536 and 67108864''])"

text \<open>\<open>Validate\<close> writes the defaults into its receiver, so it returns the configuration too.\<close>

definition Validate :: "goenv \<Rightarrow> Config \<Rightarrow> Config \<times> string option" where
  "Validate E c =
     (if negative_limits c then (c, Some ''timeouts and size limits must not be negative'')
      else (applyDefaults c, first_error (validate_checks E (applyDefaults c))))"

end
