(* ===== verification/Safe_Address.thy ===== *)
theory Safe_Address
  imports Config
begin

text \<open>
  The public-address boundary \<open>IsSafeTelegramIP\<close>: on IPv4 it is equivalent to a table of address
  ranges written as numbers, in the 4-byte, the mapped and the dotted form.
  The proofs reduce byte masks to divisions.
\<close>

section \<open>Masks as divisions\<close>

lemma and_not_mask: "a AND NOT (mask k) = push_bit k (drop_bit k a)" for a :: "'a::len word"
  by (rule bit_word_eqI) (auto simp: bit_simps)

lemma mask_byte_eq: "a AND mask_byte n = b AND mask_byte n \<longleftrightarrow> unat a div 2 ^ (8 - n) = unat b div 2 ^ (8 - n)"
proof -
  have drop: "drop_bit k (push_bit k (drop_bit k a)) = drop_bit k a" for k and a :: "8 word"
    by (rule bit_word_eqI) (auto simp: bit_simps dest: bit_imp_le_length)
  have "a AND mask_byte n = b AND mask_byte n \<longleftrightarrow> drop_bit (8 - n) a = drop_bit (8 - n) b"
    unfolding mask_byte_def and_not_mask by (metis drop)
  also have "\<dots> \<longleftrightarrow> unat (drop_bit (8 - n) a) = unat (drop_bit (8 - n) b)"
    by (simp only: word_unat_eq_iff)
  also have "\<dots> \<longleftrightarrow> unat a div 2 ^ (8 - n) = unat b div 2 ^ (8 - n)"
    unfolding unat_drop_bit_eq by (simp add: drop_bit_eq_div)
  finally show ?thesis .
qed

lemma masks: "mask_byte 4 = 0xf0" "mask_byte 0 = 0" "mask_byte 8 = 255" "mask_byte 7 = 0xfe" "mask_byte 2 = 0xc0"
  by (simp_all add: mask_byte_def mask_eq_exp_minus_1)

lemma prefix_mask_4:
  "prefix_mask 4 n = [mask_byte n, mask_byte (n - 8), mask_byte (n - 16), mask_byte (n - 24)]"
  by (simp add: numeral_eq_Suc)

lemma cidr_v4:
  "cidr_contains ([p, q, r, s], n) [a, b, c, d] \<longleftrightarrow>
     unat a div 2 ^ (8 - n) = unat p div 2 ^ (8 - n)
   \<and> unat b div 2 ^ (8 - (n - 8)) = unat q div 2 ^ (8 - (n - 8))
   \<and> unat c div 2 ^ (8 - (n - 16)) = unat r div 2 ^ (8 - (n - 16))
   \<and> unat d div 2 ^ (8 - (n - 24)) = unat s div 2 ^ (8 - (n - 24))"
  unfolding mask_byte_eq [symmetric] by (auto simp: cidr_contains_def prefix_mask_4 to4_def)

lemma div_range: "0 < k \<Longrightarrow> n div k = q \<longleftrightarrow> q * k \<le> n \<and> n < q * k + k" for n k q :: nat
  by (metis add.commute div_nat_eqI div_times_less_eq_dividend dividend_less_div_times mult.commute mult_Suc)

lemma div_ranges:
  "n div 16 = 14 \<or> n div 16 = 15 \<longleftrightarrow> 224 \<le> n \<and> n \<le> 255"
  "n div 16 = 1 \<longleftrightarrow> 16 \<le> n \<and> n \<le> 31"
  "n div 64 = 1 \<longleftrightarrow> 64 \<le> n \<and> n \<le> 127"
  "n div 2 = 9 \<longleftrightarrow> 18 \<le> n \<and> n \<le> 19" for n :: nat
  by (auto simp: div_range)

section \<open>The table of special ranges\<close>

text \<open>A dotted address as a number; lexicographic order of the bytes is the order of the numbers.\<close>

definition v4_number :: "nat \<Rightarrow> nat \<Rightarrow> nat \<Rightarrow> nat \<Rightarrow> nat" where
  "v4_number a b c d = a * 16777216 + b * 65536 + c * 256 + d"

definition v4_special :: "(nat \<times> nat) list" where
  "v4_special =
     [(v4_number 0 0 0 0, v4_number 0 255 255 255),
      (v4_number 10 0 0 0, v4_number 10 255 255 255),
      (v4_number 100 64 0 0, v4_number 100 127 255 255),
      (v4_number 127 0 0 0, v4_number 127 255 255 255),
      (v4_number 169 254 0 0, v4_number 169 254 255 255),
      (v4_number 172 16 0 0, v4_number 172 31 255 255),
      (v4_number 192 0 0 0, v4_number 192 0 0 255),
      (v4_number 192 0 2 0, v4_number 192 0 2 255),
      (v4_number 192 168 0 0, v4_number 192 168 255 255),
      (v4_number 198 18 0 0, v4_number 198 19 255 255),
      (v4_number 198 51 100 0, v4_number 198 51 100 255),
      (v4_number 203 0 113 0, v4_number 203 0 113 255),
      (v4_number 224 0 0 0, v4_number 255 255 255 255)]"

lemma byte_lt [simp]: "unat (a :: 8 word) < 256"
proof -
  have "unsigned a < (2 ^ LENGTH(8) :: nat)" by (rule unsigned_less)
  then show ?thesis by simp
qed

lemma byte_is: "n < 256 \<Longrightarrow> unat (a :: 8 word) = n \<longleftrightarrow> a = of_nat n"
  by (auto simp: unat_of_nat take_bit_eq_mod)

lemma and_masks:
  "a AND 0xf0 = 0xe0 \<longleftrightarrow> unat a div 16 = 14" "a AND 0xf0 = 16 \<longleftrightarrow> unat a div 16 = 1" for a :: "8 word"
  using mask_byte_eq [of a 4 "0xe0"] mask_byte_eq [of a 4 16] by (simp_all add: masks)

lemmas byte_consts [simp] = byte_is [of 0, simplified] byte_is [of 2, simplified] byte_is [of 10, simplified]
  byte_is [of 51, simplified] byte_is [of 100, simplified] byte_is [of 113, simplified]
  byte_is [of 127, simplified] byte_is [of 168, simplified] byte_is [of 169, simplified]
  byte_is [of 172, simplified] byte_is [of 192, simplified] byte_is [of 198, simplified]
  byte_is [of 203, simplified] byte_is [of 254, simplified]

lemma zeros_not_mapped: "take 12 ipv6unspecified \<noteq> v4InV6Prefix" "take 12 ipv6loopback \<noteq> v4InV6Prefix"
  by code_simp+

lemma to4_4 [simp]: "to4 [a, b, c, d] = Some [a, b, c, d]"
  by (simp add: to4_def)

lemma length_specials: "length ipv4zero = 16" "length ipv4bcast = 16" "length ipv6unspecified = 16" "length ipv6loopback = 16"
  by (simp_all add: ipv4zero_def ipv4bcast_def ipv6unspecified_def ipv6loopback_def v4InV6Prefix_def)

lemma ip_equal_4:
  "ip_equal [a, b, c, d] ipv4zero \<longleftrightarrow> a = 0 \<and> b = 0 \<and> c = 0 \<and> d = 0"
  "ip_equal [a, b, c, d] ipv4bcast \<longleftrightarrow> a = 255 \<and> b = 255 \<and> c = 255 \<and> d = 255"
  "\<not> ip_equal [a, b, c, d] ipv6unspecified"
  by (simp_all add: ip_equal_def length_specials zeros_not_mapped)
     (simp_all add: ipv4zero_def ipv4bcast_def v4InV6Prefix_def)

lemma classes_4:
  "isUnspecified [a, b, c, d] \<longleftrightarrow> a = 0 \<and> b = 0 \<and> c = 0 \<and> d = 0"
  "isLoopback [a, b, c, d] \<longleftrightarrow> a = 127"
  "isPrivate [a, b, c, d] \<longleftrightarrow> a = 10 \<or> (a = 172 \<and> unat b div 16 = 1) \<or> (a = 192 \<and> b = 168)"
  "isMulticast [a, b, c, d] \<longleftrightarrow> unat a div 16 = 14"
  "isLinkLocalMulticast [a, b, c, d] \<longleftrightarrow> a = 224 \<and> b = 0 \<and> c = 0"
  "isLinkLocalUnicast [a, b, c, d] \<longleftrightarrow> a = 169 \<and> b = 254"
  by (simp_all add: isUnspecified_def isLoopback_def isPrivate_def isMulticast_def
      isLinkLocalMulticast_def isLinkLocalUnicast_def ip_equal_4 and_masks)

lemma reserved_4: "list_ex (\<lambda>block. cidr_contains block [a, b, c, d]) v4_reserved \<longleftrightarrow>
   a = 0 \<or> (a = 100 \<and> unat b div 64 = 1) \<or> (a = 192 \<and> b = 0 \<and> c = 0)
      \<or> (a = 192 \<and> b = 0 \<and> c = 2) \<or> (a = 198 \<and> unat b div 2 = 9)
      \<or> (a = 198 \<and> b = 51 \<and> c = 100) \<or> (a = 203 \<and> b = 0 \<and> c = 113) \<or> unat a div 16 = 15"
  by (simp add: v4_reserved_def cidr_v4)

lemma IsSafe_v4_raw:
  "IsSafeTelegramIP (Some [a, b, c, d]) \<longleftrightarrow>
     \<not> (a = 0 \<or> a = 10 \<or> (a = 100 \<and> unat b div 64 = 1) \<or> a = 127
      \<or> (a = 169 \<and> b = 254)
      \<or> (a = 172 \<and> unat b div 16 = 1) \<or> (a = 192 \<and> b = 0 \<and> c = 0)
      \<or> (a = 192 \<and> b = 0 \<and> c = 2)
      \<or> (a = 192 \<and> b = 168) \<or> (a = 198 \<and> unat b div 2 = 9)
      \<or> (a = 198 \<and> b = 51 \<and> c = 100)
      \<or> (a = 203 \<and> b = 0 \<and> c = 113) \<or> (unat a div 16 = 14 \<or> unat a div 16 = 15))"
proof -
  have "unat a div 16 = 15" if "a = 255" using that by simp
  moreover have "unat a div 16 = 14" if "a = 224" using that by simp
  ultimately show ?thesis
    unfolding IsSafeTelegramIP_def isGlobalUnicast_def
    by (simp add: classes_4 ip_equal_4 reserved_4)
qed



text \<open>Membership in a range of a whole first byte, of a second byte and of a third byte.\<close>

lemma v4_range1:
  assumes "B < 256" "C < 256" "D < 256"
  shows "v4_number x 0 0 0 \<le> v4_number A B C D \<and> v4_number A B C D \<le> v4_number y 255 255 255
      \<longleftrightarrow> x \<le> A \<and> A \<le> y"
  using assms by (auto simp: v4_number_def)

lemma v4_range2:
  assumes "B < 256" "C < 256" "D < 256" "z < 256"
  shows "v4_number x w 0 0 \<le> v4_number A B C D \<and> v4_number A B C D \<le> v4_number x z 255 255
      \<longleftrightarrow> A = x \<and> w \<le> B \<and> B \<le> z"
  using assms by (cases "A = x") (auto simp: v4_number_def)

lemma v4_range3:
  assumes "B < 256" "C < 256" "D < 256" "z < 256" "w < 256"
  shows "v4_number x z w 0 \<le> v4_number A B C D \<and> v4_number A B C D \<le> v4_number x z w 255
      \<longleftrightarrow> A = x \<and> B = z \<and> C = w"
  using assms by (cases "A = x"; cases "B = z") (auto simp: v4_number_def)

lemma le_le_eq: "k \<le> n \<and> n \<le> k \<longleftrightarrow> n = k" for n k :: nat
  by auto

definition v4_public :: "nat \<Rightarrow> bool" where
  "v4_public n \<longleftrightarrow> list_all (\<lambda>(lo, hi). \<not> (lo \<le> n \<and> n \<le> hi)) v4_special"

section \<open>Mapped addresses\<close>

lemma mapped_4:
  "to4 (v4InV6Prefix @ [a, b, c, d]) = Some [a, b, c, d]"
  "length (v4InV6Prefix @ [a, b, c, d]) = 16"
  "take 12 (v4InV6Prefix @ [a, b, c, d]) = v4InV6Prefix"
  "drop 12 (v4InV6Prefix @ [a, b, c, d]) = [a, b, c, d]"
  by (simp_all add: to4_def v4InV6Prefix_def)

lemma mapped_equal:
  "ip_equal (v4InV6Prefix @ [a, b, c, d]) ipv4zero \<longleftrightarrow> ip_equal [a, b, c, d] ipv4zero"
  "ip_equal (v4InV6Prefix @ [a, b, c, d]) ipv4bcast \<longleftrightarrow> ip_equal [a, b, c, d] ipv4bcast"
  "\<not> ip_equal (v4InV6Prefix @ [a, b, c, d]) ipv6unspecified"
  unfolding ip_equal_4
proof -
  have "take 12 (v4InV6Prefix @ [a, b, c, d]) \<noteq> take 12 ipv6unspecified"
    unfolding mapped_4 using zeros_not_mapped(1) by (rule not_sym)
  then have "v4InV6Prefix @ [a, b, c, d] \<noteq> ipv6unspecified" by metis
  then show "\<not> ip_equal (v4InV6Prefix @ [a, b, c, d]) ipv6unspecified"
    by (simp only: ip_equal_def mapped_4 length_specials simp_thms if_True)
qed (simp_all only: ip_equal_def mapped_4 length_specials ipv4zero_def ipv4bcast_def
      simp_thms if_True append_same_eq same_append_eq list.inject)

lemma mapped_classes:
  "isUnspecified (v4InV6Prefix @ [a, b, c, d]) = isUnspecified [a, b, c, d]"
  "isLoopback (v4InV6Prefix @ [a, b, c, d]) = isLoopback [a, b, c, d]"
  "isPrivate (v4InV6Prefix @ [a, b, c, d]) = isPrivate [a, b, c, d]"
  "isMulticast (v4InV6Prefix @ [a, b, c, d]) = isMulticast [a, b, c, d]"
  "isLinkLocalMulticast (v4InV6Prefix @ [a, b, c, d]) = isLinkLocalMulticast [a, b, c, d]"
  "isLinkLocalUnicast (v4InV6Prefix @ [a, b, c, d]) = isLinkLocalUnicast [a, b, c, d]"
  by (simp_all only: isUnspecified_def isLoopback_def isPrivate_def isMulticast_def
      isLinkLocalMulticast_def isLinkLocalUnicast_def mapped_4 to4_4 mapped_equal ip_equal_4 option.case)

lemma IsSafe_mapped:
  "IsSafeTelegramIP (Some (v4InV6Prefix @ [a, b, c, d])) = IsSafeTelegramIP (Some [a, b, c, d])"
  unfolding IsSafeTelegramIP_def isGlobalUnicast_def option.case
  by (simp only: mapped_classes mapped_4 mapped_equal to4_4 list.size) simp

section \<open>Dotted text\<close>

lemma code_digit: "n < 10 \<Longrightarrow> code (char_of (48 + n)) = 48 + n"
  by (simp add: of_char_of)

lemma decimal_small:
  "n < 10 \<Longrightarrow> decimal n = [char_of (48 + n)]"
  "10 \<le> n \<Longrightarrow> n < 100 \<Longrightarrow> decimal n = [char_of (48 + n div 10), char_of (48 + n mod 10)]"
  "100 \<le> n \<Longrightarrow> n < 1000 \<Longrightarrow>
     decimal n = [char_of (48 + n div 100), char_of (48 + n div 10 mod 10), char_of (48 + n mod 10)]"
proof -
  show one: "n < 10 \<Longrightarrow> decimal n = [char_of (48 + n)]" for n by (simp add: decimal.simps [of n])
  show two: "10 \<le> n \<Longrightarrow> n < 100 \<Longrightarrow> decimal n = [char_of (48 + n div 10), char_of (48 + n mod 10)]" for n
    using one [of "n div 10"] by (simp add: decimal.simps [of n])
  show "100 \<le> n \<Longrightarrow> n < 1000 \<Longrightarrow>
     decimal n = [char_of (48 + n div 100), char_of (48 + n div 10 mod 10), char_of (48 + n mod 10)]"
    using two [of "n div 10"] by (simp add: decimal.simps [of n] div_mult2_eq [symmetric])
qed

lemma octet_text:
  assumes "n < 256"
  shows "parse_octet (decimal n) = Some (of_nat n)" and "list_all is_digit (decimal n)"
proof -
  have zero: "char_of (48 + k) \<noteq> CHR ''0''" if "0 < k" "k < 10" for k :: nat
    using code_digit [of k] that by (auto dest: arg_cong [of _ _ "of_char :: char \<Rightarrow> nat"])
  consider "n < 10" | "10 \<le> n" "n < 100" | "100 \<le> n" "n < 1000" using assms by linarith
  then have "parse_octet (decimal n) = Some (of_nat n) \<and> list_all is_digit (decimal n)"
  proof cases
    case 1
    then show ?thesis by (simp add: decimal_small parse_octet_def parse_digits_def is_digit_def code_digit)
  next
    case 2
    then have "0 < n div 10" "n div 10 < 10" by auto
    then show ?thesis
      using 2 zero by (simp add: decimal_small parse_octet_def parse_digits_def is_digit_def code_digit)
  next
    case 3
    have "n div 100 = n div 10 div 10" by (simp add: div_mult2_eq [symmetric])
    then have "n div 100 * 100 + n div 10 mod 10 * 10 + n mod 10 = n"
      using div_mult_mod_eq [of "n div 10" 10] div_mult_mod_eq [of n 10] by linarith
    moreover have "0 < n div 100" "n div 100 < 10" "n mod 10 \<le> 9" "n div 10 mod 10 \<le> 9" using 3 by auto
    ultimately
    show ?thesis
      using 3 zero [of "n div 100"] assms by (simp add: decimal_small parse_octet_def parse_digits_def is_digit_def code_digit algebra_simps)
  qed
  then show "parse_octet (decimal n) = Some (of_nat n)" "list_all is_digit (decimal n)" by simp_all
qed

lemma splitOn_part: "sep \<notin> set s \<Longrightarrow> splitOn sep s = [s]" "sep \<notin> set s \<Longrightarrow> splitOn sep (s @ sep # t) = s # splitOn sep t"
  by (induction s) auto

lemma parseIP_dotted: "parseIP (dotted [a, b, c, d]) = Some (v4InV6Prefix @ [a, b, c, d])"
proof -
  have dig: "list_all is_digit (decimal (unat x))" for x :: "8 word" by (rule octet_text(2)) simp
  have sep: "CHR ''.'' \<notin> set (decimal (unat x))" for x :: "8 word"
    using dig [of x] by (auto simp: list_all_iff is_digit_def)
  have shape: "dotted [a, b, c, d] = decimal (unat a) @ CHR ''.'' # (decimal (unat b) @ CHR ''.'' #
      (decimal (unat c) @ CHR ''.'' # decimal (unat d)))"
    by (simp add: dotted_def)
  have "parseIPv4 (dotted [a, b, c, d]) = Some [a, b, c, d]"
    by (simp add: parseIPv4_def shape splitOn_part sep octet_text(1))
  moreover have "dropWhile (\<lambda>c. c \<noteq> CHR ''.'' \<and> c \<noteq> CHR '':'' \<and> c \<noteq> CHR ''%'') (dotted [a, b, c, d])
      = CHR ''.'' # (decimal (unat b) @ CHR ''.'' # (decimal (unat c) @ CHR ''.'' # decimal (unat d)))"
    using dig [of a] unfolding shape by (subst dropWhile_append2) (auto simp: list_all_iff is_digit_def)
  ultimately show ?thesis by (simp add: parseIP_def)
qed

section \<open>The boundary\<close>

text \<open>
  Claim C39. The SSRF boundary, exactly: an IPv4 address is accepted, in its 4-byte form, in the 16-byte
  mapped form, and as the dotted string an endpoint is configured with, if and only if its number lies in
  none of the special ranges (this network, private, carrier NAT, loopback, link-local,
  protocol assignments, documentation, benchmarking, multicast, reserved and broadcast).
\<close>

theorem IsSafeTelegramIP_v4:
  "(IsSafeTelegramIP (Some [a, b, c, d]) \<longleftrightarrow> v4_public (v4_number (unat a) (unat b) (unat c) (unat d)))
   \<and> (IsSafeTelegramIP (Some (v4InV6Prefix @ [a, b, c, d])) \<longleftrightarrow>
        v4_public (v4_number (unat a) (unat b) (unat c) (unat d)))
   \<and> (IsSafeTelegramIP (parseIP (dotted [a, b, c, d])) \<longleftrightarrow>
        v4_public (v4_number (unat a) (unat b) (unat c) (unat d)))"
proof -
  note bytes = byte_lt [of b] byte_lt [of c] byte_lt [of d]
  note r1 = v4_range1 [OF bytes, of _ "unat a"] and r2 = v4_range2 [OF bytes, of _ _ _ "unat a"]
    and r3 = v4_range3 [OF bytes, of _ _ _ "unat a"]
  note ranges = r1 [of 0 0] r1 [of 10 10] r1 [of 127 127] r1 [of 224 255]
    r2 [of 127 100 64, simplified] r2 [of 254 169 254, simplified] r2 [of 31 172 16, simplified]
    r2 [of 168 192 168, simplified] r2 [of 19 198 18, simplified]
    r3 [of 0 0 192, simplified] r3 [of 0 2 192, simplified] r3 [of 51 100 198, simplified]
    r3 [of 0 113 203, simplified]
  have pub: "v4_public (v4_number (unat a) (unat b) (unat c) (unat d)) \<longleftrightarrow>
     \<not> (unat a = 0 \<or> unat a = 10 \<or> (unat a = 100 \<and> 64 \<le> unat b \<and> unat b \<le> 127) \<or> unat a = 127
      \<or> (unat a = 169 \<and> unat b = 254)
      \<or> (unat a = 172 \<and> 16 \<le> unat b \<and> unat b \<le> 31) \<or> (unat a = 192 \<and> unat b = 0 \<and> unat c = 0)
      \<or> (unat a = 192 \<and> unat b = 0 \<and> unat c = 2)
      \<or> (unat a = 192 \<and> unat b = 168) \<or> (unat a = 198 \<and> 18 \<le> unat b \<and> unat b \<le> 19)
      \<or> (unat a = 198 \<and> unat b = 51 \<and> unat c = 100)
      \<or> (unat a = 203 \<and> unat b = 0 \<and> unat c = 113) \<or> (224 \<le> unat a \<and> unat a \<le> 255))"
    unfolding v4_public_def v4_special_def list.pred_inject prod.case ranges le_le_eq
      byte_consts
    by (simp only: list_all_iff list.set ball_empty) blast
  have top: "(unat a div 16 = 14 \<or> unat a div 16 = 15) = (224 \<le> unat a \<and> unat a \<le> 255)"
    by (rule div_ranges)
  show ?thesis
    unfolding parseIP_dotted IsSafe_mapped IsSafe_v4_raw pub byte_consts top div_ranges(2-4) by simp
qed

end
