(* ===== verification/Token_Facts.thy ===== *)
theory Token_Facts
  imports Config
begin

text \<open>
  Facts about token hashes and identifiers shared by the configuration and the owner control plane:
  a canonical hash (\<open>sha256:\<close> and 64 lower-case hex digits) is its own normal form, every hash the
  validator accepts normalises to a canonical one, and stable token ids are plain identifiers.
\<close>

text \<open>Documented behaviour of \<open>unicode.ToLower\<close>: no rune has an ASCII capital as its lower case.\<close>

definition lower_ok :: "goenv \<Rightarrow> bool" where
  "lower_ok E \<longleftrightarrow> (\<forall>r. 128 \<le> r \<longrightarrow> \<not> (65 \<le> ge_lower E r \<and> ge_lower E r \<le> 90))"

definition goenv_ok :: "goenv \<Rightarrow> bool" where
  "goenv_ok E \<longleftrightarrow> sha256_ok E \<and> lower_ok E"

definition canonical_hash :: "string \<Rightarrow> bool" where
  "canonical_hash h \<longleftrightarrow>
     hasPrefix h ''sha256:'' \<and> length h = 71 \<and> list_all is_lower_hex (drop 7 h)"

section \<open>Lower case\<close>

lemma encodeRune_high: "128 \<le> r \<Longrightarrow> b \<in> set (encodeRune r) \<Longrightarrow> 128 \<le> b \<and> b < 256"
  by (auto simp: encodeRune_def valid_rune_def split: if_splits)

lemma not_upper_lower_code: "n < 256 \<Longrightarrow> \<not> is_upper (char_of (lower_code n))"
  by (auto simp: lower_code_def is_upper_def)

lemma toLower_not_upper:
  assumes "lower_ok E" and "c \<in> set (toLower (ge_lower E) s)"
  shows "\<not> is_upper c"
proof (cases "\<forall>c \<in> set s. is_ascii c")
  case True
  then show ?thesis
    using assms(2) by (auto simp: toLower_def lower_char_def not_upper_lower_code)
next
  case False
  then obtain r b where rb: "b \<in> set (encodeRune (if r < 128 then lower_code r else ge_lower E r))"
    "c = char_of b"
    using assms(2) unfolding toLower_def if_not_P [OF False] of_runes_def of_codes_def by auto
  let ?q = "if r < 128 then lower_code r else ge_lower E r"
  have q: "\<not> (65 \<le> ?q \<and> ?q \<le> 90)"
    using assms(1) by (auto simp: lower_ok_def lower_code_def)
  show ?thesis
  proof (cases "?q < 128")
    case True
    then have "b = ?q" using rb(1) by (simp add: encodeRune_def split: if_splits)
    then show ?thesis using q True rb(2) by (simp add: is_upper_def)
  next
    case False
    then have "128 \<le> b \<and> b < 256" using rb(1) by (intro encodeRune_high) auto
    then show ?thesis using rb(2) by (simp add: is_upper_def)
  qed
qed

lemma set_drop_spaces: "set (drop_spaces w n s) \<subseteq> set s"
  by (induction n arbitrary: s) (auto dest: in_set_dropD)

lemma set_trimSpace: "set (trimSpace s) \<subseteq> set s"
proof -
  have "set (rev (drop_spaces w n (rev t))) \<subseteq> set t" for w n and t :: string
    using set_drop_spaces [of w n "rev t"] by simp
  then show ?thesis
    unfolding trimSpace_def Let_def by (rule subset_trans) (rule set_drop_spaces)
qed

lemma hex_value_lower: "hex_value c \<noteq> None \<Longrightarrow> \<not> is_upper c \<Longrightarrow> is_lower_hex c"
  by (auto simp: hex_value_def is_lower_hex_def is_upper_def split: if_splits)

lemma lower_hex_plain: "is_lower_hex c \<Longrightarrow> plain_char c \<and> is_ascii c \<and> \<not> is_upper c"
  by (auto simp: is_lower_hex_def plain_char_def is_upper_def is_ascii_def is_digit_def)

section \<open>Canonical hashes\<close>

lemma trimPrefix_sha [simp]:
  "trimPrefix (CHR ''s'' # CHR ''h'' # CHR ''a'' # CHR ''2'' # CHR ''5'' # CHR ''6'' # CHR '':'' # hex)
     ''sha256:'' = hex"
  using trimPrefix_append [of "''sha256:''" hex] by simp

lemma canonical_hashI:
  "list_all is_lower_hex hex \<Longrightarrow> length hex = 64 \<Longrightarrow> canonical_hash (''sha256:'' @ hex)"
  by (simp add: canonical_hash_def hasPrefix_def)

lemma canonical_hashE:
  assumes "canonical_hash h"
  obtains hex where "h = ''sha256:'' @ hex" "length hex = 64" "\<forall>c \<in> set hex. is_lower_hex c"
proof -
  have "length ''sha256:'' = 7" by simp
  then have "h = ''sha256:'' @ drop 7 h"
    using hasPrefix_split [of h "''sha256:''"] assms unfolding canonical_hash_def by metis
  then show ?thesis
    using assms by (intro that [of "drop 7 h"]) (auto simp: canonical_hash_def list_all_iff)
qed

lemma canonical_hash_chars:
  assumes "canonical_hash h" and "c \<in> set h"
  shows "plain_char c \<and> is_ascii c \<and> \<not> is_upper c"
proof -
  obtain hex where "h = ''sha256:'' @ hex" "\<forall>c \<in> set hex. is_lower_hex c"
    using assms(1) by (rule canonical_hashE) blast
  then show ?thesis
    using assms(2) lower_hex_plain by (auto simp: plain_char_def is_ascii_def is_upper_def)
qed

lemma normalizeHash_canonical [simp]: "canonical_hash h \<Longrightarrow> normalizeHash E h = h"
proof -
  assume h: "canonical_hash h"
  then have "toLower (ge_lower E) h = h" "trimSpace h = h"
    by (auto intro!: toLower_fixed trimSpace_all_plain dest: canonical_hash_chars)
  moreover have "h \<noteq> []" "hasPrefix h ''sha256:''"
    using h by (auto simp: canonical_hash_def)
  ultimately show ?thesis by (simp add: normalizeHash_def)
qed

lemma canonical_TokenHash: "sha256_ok E \<Longrightarrow> canonical_hash (TokenHash E s)"
  unfolding TokenHash_def
  by (intro canonical_hashI) (auto simp: sha256_ok_def list_all_iff dest: set_hexEncode [rotated])

lemma TokenHash_nonempty [simp]: "TokenHash E s \<noteq> []"
  by (simp add: TokenHash_def)

lemma TokenHash_eq_iff:
  assumes "sha256_ok E"
  shows "TokenHash E a = TokenHash E b \<longleftrightarrow> ge_sha256 E a = ge_sha256 E b"
proof -
  have "hexDecode (hexEncode (ge_sha256 E s)) = Some (ge_sha256 E s)" for s
    using assms by (simp add: sha256_ok_def)
  then show ?thesis unfolding TokenHash_def by (metis option.inject same_append_eq)
qed

lemma hexDecode_canonical:
  assumes "canonical_hash h"
  shows "\<exists>bs. hexDecode (trimPrefix h ''sha256:'') = Some bs \<and> length bs = 32"
proof -
  have ex: "\<exists>bs. hexDecode s = Some bs" if "\<forall>c \<in> set s. is_lower_hex c" "even (length s)" for s
    using that by (induction s rule: hexDecode.induct)
      (auto simp: is_lower_hex_def hex_value_def is_digit_def)
  obtain hex where "h = ''sha256:'' @ hex" "length hex = 64" "\<forall>c \<in> set hex. is_lower_hex c"
    using assms by (rule canonical_hashE)
  moreover obtain bs where "hexDecode hex = Some bs"
    using ex [of hex] calculation by auto
  ultimately show ?thesis
    using hexDecode_Some_length [of hex bs] by simp
qed

text \<open>The validator's test on a normalised hash is canonicity.\<close>

lemma normalizeHash_not_upper:
  "lower_ok E \<Longrightarrow> c \<in> set (normalizeHash E v) \<Longrightarrow> \<not> is_upper c"
  using set_trimSpace toLower_not_upper
  by (fastforce simp: normalizeHash_def Let_def is_upper_def split: if_splits)

lemma canonical_normalizeHash:
  assumes "lower_ok E" and "hasPrefix (normalizeHash E v) ''sha256:''"
    and "length (trimPrefix (normalizeHash E v) ''sha256:'') = 64"
    and "hexDecode (trimPrefix (normalizeHash E v) ''sha256:'') = Some bs"
  shows "canonical_hash (normalizeHash E v)"
proof -
  let ?n = "normalizeHash E v"
  have "length ''sha256:'' = 7" by simp
  then have n: "?n = ''sha256:'' @ drop 7 ?n"
    using hasPrefix_split [OF assms(2)] by metis
  have t: "trimPrefix ?n ''sha256:'' = drop 7 ?n"
    by (subst n) (rule trimPrefix_append)
  have "is_lower_hex c" if "c \<in> set (drop 7 ?n)" for c
    using that hexDecode_chars [OF assms(4)] normalizeHash_not_upper [OF assms(1), of c v]
    by (intro hex_value_lower) (auto simp: t dest: in_set_dropD)
  then show ?thesis
    using n assms(3) t canonical_hashI [of "drop 7 ?n"] by (auto simp: list_all_iff)
qed

section \<open>Validated token lists\<close>

lemma validateTokens_loop_hash:
  assumes "lower_ok E" and "validateTokens_loop E label ts hs is = None" and "t \<in> set ts"
  shows "canonical_hash (normalizeHash E (tk_Hash t)) \<and> (tk_ID t \<noteq> [] \<longrightarrow> validIdentifier (tk_ID t))"
  using assms(2,3)
proof (induction ts arbitrary: hs "is")
  case (Cons u us)
  then show ?case
    by (cases "t = u") (auto simp: Let_def intro: canonical_normalizeHash [OF assms(1)])
qed simp

lemma validateTokens_loop_distinct:
  "validateTokens_loop E label ts hs is = None \<Longrightarrow>
     distinct (map (\<lambda>t. normalizeHash E (tk_Hash t)) ts)
     \<and> (\<forall>t \<in> set ts. normalizeHash E (tk_Hash t) \<notin> set hs)
     \<and> distinct (map (StableTokenID E) ts) \<and> (\<forall>t \<in> set ts. StableTokenID E t \<notin> set is)"
proof (induction ts arbitrary: hs "is")
  case (Cons u us)
  then have "validateTokens_loop E label us (normalizeHash E (tk_Hash u) # hs) (StableTokenID E u # is) = None"
    by (simp add: Let_def)
  from Cons.IH [OF this] Cons.prems show ?case by (auto simp: Let_def)
qed simp

lemma validateTokens_facts:
  assumes "validateTokens E ts label n = None"
  shows "length ts \<le> n" and "distinct (map (\<lambda>t. normalizeHash E (tk_Hash t)) ts)"
    and "distinct (map (StableTokenID E) ts)"
    and "lower_ok E \<Longrightarrow> t \<in> set ts \<Longrightarrow> canonical_hash (normalizeHash E (tk_Hash t))"
    and "lower_ok E \<Longrightarrow> t \<in> set ts \<Longrightarrow> tk_ID t \<noteq> [] \<Longrightarrow> validIdentifier (tk_ID t)"
  using assms validateTokens_loop_distinct [of E label ts "[]" "[]"]
    validateTokens_loop_hash [of E label ts "[]" "[]" t]
  by (auto simp: validateTokens_def)

section \<open>Stable identifiers\<close>

lemma ident_char_plain: "ident_char c \<Longrightarrow> plain_char c"
  by (auto simp: ident_char_def plain_char_def dest: alnum_plain)

lemma lower_hex_ident: "is_lower_hex c \<Longrightarrow> ident_char c"
  by (auto simp: is_lower_hex_def ident_char_def is_alnum_def is_lower_def)

text \<open>An identifier in normal form: not empty, short, and made of identifier characters.\<close>

definition plain_ident :: "string \<Rightarrow> bool" where
  "plain_ident s \<longleftrightarrow> s \<noteq> [] \<and> length s \<le> 96 \<and> list_all ident_char s"

lemma plain_ident_trim [simp]: "plain_ident s \<Longrightarrow> trimSpace s = s"
  by (rule trimSpace_all_plain) (auto simp: plain_ident_def list_all_iff ident_char_plain)

lemma validIdentifier_plain: "validIdentifier v \<longleftrightarrow> plain_ident (trimSpace v)"
  by (simp add: validIdentifier_def plain_ident_def Let_def)

lemma plain_ident_valid: "plain_ident s \<Longrightarrow> validIdentifier s"
  by (simp add: validIdentifier_plain)

lemma StableTokenID_plain_ident:
  assumes "canonical_hash (normalizeHash E (tk_Hash t))"
  shows "plain_ident (StableTokenID E t)"
proof -
  obtain hex where hex: "normalizeHash E (tk_Hash t) = ''sha256:'' @ hex" "length hex = 64"
    "\<forall>c \<in> set hex. is_lower_hex c"
    using assms by (rule canonical_hashE)
  have "list_all ident_char (''cfg_'' @ take 16 hex)"
    using hex(3) lower_hex_ident
    by (auto simp: list_all_iff ident_char_def is_alnum_def is_lower_def dest!: in_set_takeD)
  then have "plain_ident (''cfg_'' @ take 16 hex)"
    using hex(2) by (simp add: plain_ident_def)
  moreover have "trimPrefix (normalizeHash E (tk_Hash t)) ''sha256:'' = hex"
    unfolding hex(1) by (rule trimPrefix_append)
  ultimately show ?thesis
    using hex(2) by (auto simp: StableTokenID_def validIdentifier_plain Let_def)
qed

lemma StableTokenID_explicit: "plain_ident (tk_ID t) \<Longrightarrow> StableTokenID E t = tk_ID t"
  by (simp add: StableTokenID_def plain_ident_valid)

lemma StableTokenID_idem:
  assumes "canonical_hash (normalizeHash E (tk_Hash t))"
  shows "StableTokenID E (t\<lparr>tk_Hash := h, tk_ID := StableTokenID E t\<rparr>) = StableTokenID E t"
  using StableTokenID_explicit [of "t\<lparr>tk_Hash := h, tk_ID := StableTokenID E t\<rparr>" E]
    StableTokenID_plain_ident [OF assms] by simp

end
