(* ===== verification/Sample_Config.thy ===== *)
theory Sample_Config
  imports Safe_Address Token_Facts
begin

text \<open>
  A concrete library environment and configuration, shared by the witnesses of the development:
  a 32-byte digest that pads its input, one client token, one owner token and one production route.
\<close>

definition sample_sha256 :: "string \<Rightarrow> nat list" where
  "sample_sha256 s = take 32 (codes s @ replicate 32 0)"

definition sample_env :: goenv where
  "sample_env =
     \<lparr>ge_lower = id, ge_equalFold = (=), ge_sha256 = sample_sha256,
      ge_urlParse = (\<lambda>s. Some \<lparr>url_scheme = ''https'', url_host = ''relay.example.com'',
          url_hostname = ''relay.example.com'', url_hasUser = False, url_rawQuery = [],
          url_fragment = []\<rparr>),
      ge_rfc3339 = (\<lambda>s. if s = [] then None else Some (int (length s)))\<rparr>"

lemma sample_sha256_ok: "sha256_ok sample_env"
  by (auto simp: sha256_ok_def sample_env_def sample_sha256_def codes_def dest!: in_set_takeD)

definition sample_token :: Token where
  "sample_token = \<lparr>tk_ID = ''primary'', tk_Name = ''phone'', tk_Hash = TokenHash sample_env ''alpha'',
     tk_CreatedAt = []\<rparr>"

definition sample_owner :: Token where
  "sample_owner = \<lparr>tk_ID = ''owner'', tk_Name = ''owner'', tk_Hash = TokenHash sample_env ''omega'',
     tk_CreatedAt = []\<rparr>"

definition sample_config :: Config where
  "sample_config = defaultConfig
     \<lparr>cf_Tokens := [sample_token],
      cf_Admin := \<lparr>ac_Tokens = [sample_owner], ac_StatePath = ''/var/lib/state.json'', ac_GeoIPURL = []\<rparr>,
      cf_Telegram := (cf_Telegram defaultConfig)
        \<lparr>tg_DCMap := Some [(2, ''149.154.167.51'')], tg_TestDCMap := Some []\<rparr>\<rparr>"

lemma sample_trims:
  "trimSpace ''149.154.167.51'' = ''149.154.167.51''"
  "trimSpace ''149.154.167.51:443'' = ''149.154.167.51:443''"
  "trimSpace ''/apiws'' = ''/apiws''" "trimSpace ''127.0.0.1:18080'' = ''127.0.0.1:18080''"
  "trimSpace ''127.0.0.1'' = ''127.0.0.1''" "trimSpace ''/var/lib/state.json'' = ''/var/lib/state.json''"
  "trimSpace ''primary'' = ''primary''" "trimSpace ''owner'' = ''owner''"
  "trimSpace ''alpha'' = ''alpha''" "trimSpace ''omega'' = ''omega''"
  by (simp_all add: plain_char_def)

lemma sample_parse:
  "parseIP ''149.154.167.51'' = Some (v4InV6Prefix @ [149, 154, 167, 51])"
  "parseIP ''127.0.0.1'' = Some (v4InV6Prefix @ [127, 0, 0, 1])"
  by (simp_all add: parseIP_def parseIPv4_def parse_octet_def parse_digits_def is_digit_def)

lemma sample_print: "ip_string (v4InV6Prefix @ [149, 154, 167, 51]) = ''149.154.167.51''"
  by (simp add: ip_string_def mapped_4 dotted_def decimal.simps char_of_eq_code)

lemma sample_normalize: "normalizeTelegramAddress ''149.154.167.51'' = ''149.154.167.51:443''"
  by (simp add: normalizeTelegramAddress_def sample_trims sample_parse sample_print trimChars_def
      brackets_def joinHostPort_def)

lemma sample_safe: "IsSafeTelegramIP (Some (v4InV6Prefix @ [149, 154, 167, 51]))"
  unfolding IsSafe_mapped IsSafe_v4_raw by simp

lemma sample_valid_address: "validateTelegramAddress ''149.154.167.51:443'' = None"
  by (simp add: validateTelegramAddress_def sample_trims splitHostPort_def last_index_of_def
      index_of_def sample_parse sample_safe trimChars_def brackets_def atoi_def parse_digits_def
      is_digit_def)

lemma sample_dcmap: "validateDCMap [(2, ''149.154.167.51'')] = None" "validateDCMap [] = None"
  by (simp_all add: validateDCMap_def sample_normalize sample_valid_address sample_trims
      maxTelegramDCs_def)

lemma sample_listen: "validate_listen ''127.0.0.1:18080'' = None"
  by (simp add: validate_listen_def sample_trims splitHostPort_def last_index_of_def index_of_def
      validHost_def trimSuffix_def hasSuffix_def hasPrefix_def sample_parse atoi_def parse_digits_def
      is_digit_def)

lemma sample_path: "validWebSocketPath ''/apiws''" "\<not> management_path ''/apiws''"
  by (simp_all add: validWebSocketPath_def management_path_def sample_trims hasSuffix_def hasPrefix_def
      path_char_def is_alnum_def is_lower_def)

lemma sample_statePath: "validStatePath ''/var/lib/state.json''"
  by (simp add: validStatePath_def sample_trims hasPrefix_def)

lemma sample_lower_ok: "lower_ok sample_env"
  by (simp add: lower_ok_def sample_env_def)

lemma sample_env_ok: "goenv_ok sample_env"
  by (simp add: goenv_ok_def sample_sha256_ok sample_lower_ok)

lemmas sample_canonical = canonical_TokenHash [OF sample_sha256_ok]

lemma sample_hashes_differ: "TokenHash sample_env ''omega'' \<noteq> TokenHash sample_env ''alpha''"
  unfolding TokenHash_eq_iff [OF sample_sha256_ok]
  by (simp add: sample_env_def sample_sha256_def codes_def)

lemma canonical_token_check:
  assumes "canonical_hash h"
  shows "hasPrefix h ''sha256:''" and "length (trimPrefix h ''sha256:'') = 64"
    and "hexDecode (trimPrefix h ''sha256:'') \<noteq> None"
  using hexDecode_canonical [OF assms] hexDecode_Some_length [of "trimPrefix h ''sha256:''"] assms
  by (auto simp: canonical_hash_def)

lemma sample_tokens:
  "validateTokens sample_env [sample_token] ''token'' 1024 = None"
  "validateTokens sample_env [sample_owner] ''admin token'' 64 = None"
  by (simp_all add: validateTokens_def Let_def sample_token_def sample_owner_def sample_canonical
      canonical_token_check has_control_def validIdentifier_plain plain_ident_def sample_trims
      ident_char_def is_alnum_def is_lower_def containsString_def)

lemma sample_config_Validate: "Validate sample_env sample_config = (sample_config, None)"
proof -
  have d: "applyDefaults sample_config = sample_config"
    by (simp add: applyDefaults_def applyDefaults_telegram_def applyDefaults_websocket_def
        applyDefaults_topology_def sample_config_def defaultConfig_def noTopology_def sample_trims)
  have "\<forall>e \<in> set (validate_checks sample_env sample_config). e = None"
    using sample_hashes_differ
    by (simp add: validate_checks_def sample_config_def defaultConfig_def noTopology_def Let_def
        sample_listen sample_tokens sample_dcmap nilmap_def sample_path sample_statePath
        validate_publicURL_def ValidateTelegramDCOptions_def validateTopology_def validGeoIPURL_def
        maxTelegramDCs_def maxTelegramEndpoints_def maxEndpointsPerDC_def containsString_def
        sample_tokens [unfolded sample_token_def sample_owner_def]
        sample_token_def sample_owner_def sample_canonical)
  then show ?thesis
    using d by (simp add: Validate_def negative_limits_def sample_config_def defaultConfig_def Let_def)
qed

end
