(* ===== verification/Config_Props.thy ===== *)
theory Config_Props
  imports Sample_Config
begin

text \<open>
  Properties of the configuration layer: what a configuration accepted by \<open>Validate\<close> guarantees,
  the separation of client and owner tokens, the public-address boundary and the order in which
  endpoints are selected.
\<close>

section \<open>Reading off accepted checks\<close>

lemma Validate_ok:
  assumes "Validate E c = (c', None)"
  shows "c' = applyDefaults c" and "\<forall>e \<in> set (validate_checks E c'). e = None"
    and "\<not> negative_limits c"
  using assms by (auto simp: Validate_def split: if_splits)

lemma Validate_tokens:
  assumes "Validate E c = (c', None)"
  shows "cf_Tokens c' \<noteq> []" and "validateTokens E (cf_Tokens c') ''token'' 1024 = None"
    and "validateTokens E (ac_Tokens (cf_Admin c')) ''admin token'' 64 = None"
    and "t \<in> set (ac_Tokens (cf_Admin c')) \<Longrightarrow>
         normalizeHash E (tk_Hash t) \<notin> (\<lambda>t. normalizeHash E (tk_Hash t)) ` set (cf_Tokens c')"
  using Validate_ok(2) [OF assms] by (auto simp: validate_checks_def Let_def list_ex_iff)

lemma Validate_routes:
  assumes "Validate E c = (c', None)"
  shows "validateDCMap (nilmap (tg_DCMap (cf_Telegram c'))) = None"
    and "validateDCMap (nilmap (tg_TestDCMap (cf_Telegram c'))) = None"
    and "ValidateTelegramDCOptions E (tg_DCOptions (cf_Telegram c')) = None"
    and "ValidateTelegramDCOptions E (tg_TestDCOptions (cf_Telegram c')) = None"
    and "nilmap (tg_DCMap (cf_Telegram c')) \<noteq> [] \<or> tg_DCOptions (cf_Telegram c') \<noteq> []"
  using Validate_ok(2) [OF assms] by (auto simp: validate_checks_def Let_def)

section \<open>Tokens\<close>

lemma authorizeToken_hash:
  "authorizeToken E ts raw \<Longrightarrow> \<exists>t \<in> set ts. normalizeHash E (tk_Hash t) = TokenHash E raw"
  by (auto simp: authorizeToken_def Let_def list_ex_iff split: if_splits)

text \<open>
  Role separation within the configuration: under a configuration accepted by \<open>Validate\<close> no
  \<open>Authorization\<close> header is accepted both as a configured client token and as an owner token.
\<close>

theorem bearer_roles_disjoint:
  assumes "Validate E c = (c', None)" and "AuthorizeBearer E c' header"
  shows "\<not> AuthorizeAdminBearer E c' header"
proof
  assume "AuthorizeAdminBearer E c' header"
  then obtain a where a: "a \<in> set (ac_Tokens (cf_Admin c'))"
    "normalizeHash E (tk_Hash a) = TokenHash E (trimSpace (trimPrefix header ''Bearer ''))"
    by (auto simp: AuthorizeAdminBearer_def split: if_splits dest!: authorizeToken_hash)
  obtain t where t: "t \<in> set (cf_Tokens c')"
    "normalizeHash E (tk_Hash t) = TokenHash E (trimSpace (trimPrefix header ''Bearer ''))"
    using assms(2)
    by (auto simp: AuthorizeBearer_def AuthorizeToken_def split: if_splits dest!: authorizeToken_hash)
  show False
    using Validate_tokens(4) [OF assms(1) a(1)] a(2) t by force
qed

lemma sample_bearer: "AuthorizeBearer sample_env sample_config ''Bearer alpha''"
  by (simp add: AuthorizeBearer_def AuthorizeToken_def authorizeToken_def hasPrefix_def trimPrefix_def
      sample_trims sample_config_def sample_token_def sample_canonical TokenHash_nonempty)

theorem bearer_roles_disjoint_witness:
  "AuthorizeBearer sample_env sample_config ''Bearer alpha''
   \<and> \<not> AuthorizeAdminBearer sample_env sample_config ''Bearer alpha''"
  using bearer_roles_disjoint [OF sample_config_Validate sample_bearer] sample_bearer by simp

section \<open>Addresses that leave the relay\<close>

lemma validateEndpoints_address:
  "validateEndpoints E eps seen = None \<Longrightarrow> e \<in> set eps \<Longrightarrow>
     validateTelegramAddress (normalizeTelegramAddress (ep_Address e)) = None"
  by (induction eps arbitrary: seen) (auto simp: Let_def)

lemma mget_member: "mget z m k \<noteq> z \<Longrightarrow> (k, mget z m k) \<in> set m"
  by (auto simp: mget_def split: option.splits dest: map_of_SomeD)

lemma options_address:
  assumes "ValidateTelegramDCOptions E routes = None" and "e \<in> set (mget [] routes dc)"
  shows "validateTelegramAddress (normalizeTelegramAddress (ep_Address e)) = None"
proof -
  have "(dc, mget [] routes dc) \<in> set routes"
    using assms(2) by (intro mget_member) auto
  then have "validateEndpoints E (mget [] routes dc) [] = None"
    using assms(1) by (fastforce simp: ValidateTelegramDCOptions_def)
  then show ?thesis using assms(2) by (rule validateEndpoints_address)
qed

lemma dcmap_address:
  assumes "validateDCMap m = None" and "(dc, host) \<in> set m"
  shows "validateTelegramAddress (normalizeTelegramAddress host) = None"
  using assms by (fastforce simp: validateDCMap_def)

text \<open>The selection adds the addresses of one role after the other, skipping known ones.\<close>

fun add_new :: "string list \<Rightarrow> string list \<Rightarrow> string list" where
  "add_new res [] = res"
| "add_new res (a # as) = add_new (if a \<noteq> [] \<and> a \<notin> set res then res @ [a] else res) as"

definition role_addresses :: "goenv \<Rightarrow> TelegramEndpoint list \<Rightarrow> string \<Rightarrow> string list" where
  "role_addresses E eps role =
     map (\<lambda>e. normalizeTelegramAddress (ep_Address e)) (filter (\<lambda>e. effective_role E e = role) eps)"

lemma set_add_new: "set (add_new res as) = set res \<union> (set as - {[]})"
  by (induction as arbitrary: res) auto

lemma distinct_add_new: "distinct res \<Longrightarrow> distinct (add_new res as)"
  by (induction as arbitrary: res) auto

lemma add_new_append: "add_new res (as @ bs) = add_new (add_new res as) bs"
  by (induction as arbitrary: res) auto

lemma appendRole_add_new: "appendRole E eps role res = add_new res (role_addresses E eps role)"
  by (induction eps arbitrary: res) (auto simp: role_addresses_def Let_def)

lemma role_addresses_mem:
  "a \<in> set (role_addresses E eps role) \<Longrightarrow>
     \<exists>e \<in> set eps. a = normalizeTelegramAddress (ep_Address e) \<and> effective_role E e = role"
  by (auto simp: role_addresses_def)

lemma normalizeTelegramAddress_Nil [simp]: "normalizeTelegramAddress [] = []"
  by (simp add: normalizeTelegramAddress_def)

lemma validated_routes_public:
  assumes "validateDCMap (nilmap (tg_DCMap t)) = None" "validateDCMap (nilmap (tg_TestDCMap t)) = None"
    and "ValidateTelegramDCOptions E (tg_DCOptions t) = None"
    and "ValidateTelegramDCOptions E (tg_TestDCOptions t) = None"
    and "address \<in> set (AddressesForRoute E t dc test media)"
  shows "validateTelegramAddress address = None"
proof -
  define options where "options = mget [] (if test then tg_TestDCOptions t else tg_DCOptions t) dc"
  define legacy where "legacy = mget [] (nilmap (if test then tg_TestDCMap t else tg_DCMap t)) dc"
  have cases: "(\<exists>e \<in> set options. address = normalizeTelegramAddress (ep_Address e))
      \<or> (address = normalizeTelegramAddress legacy \<and> address \<noteq> [])"
    using assms(5) unfolding AddressesForRoute_def Let_def
    by (auto simp: appendRole_add_new set_add_new options_def [symmetric] legacy_def [symmetric]
        split: if_splits dest!: role_addresses_mem)
  show ?thesis
  proof (cases "\<exists>e \<in> set options. address = normalizeTelegramAddress (ep_Address e)")
    case True
    then show ?thesis
      using assms(3,4) by (auto simp: options_def intro: options_address split: if_splits)
  next
    case False
    with cases have a: "address = normalizeTelegramAddress legacy" "legacy \<noteq> []" by auto
    then have "(dc, legacy) \<in> set (nilmap (if test then tg_TestDCMap t else tg_DCMap t))"
      unfolding legacy_def by (intro mget_member)
    then show ?thesis
      using assms(1,2) a(1) by (auto intro: dcmap_address split: if_splits)
  qed
qed

text \<open>
  Every address the route selection can hand to the dialer under an accepted
  configuration, for any DC, environment and media flag, passed the public-address check: the
  relay never dials a private, loopback, link-local or otherwise reserved address, nor a host name.
\<close>

theorem routes_are_public:
  assumes "Validate E c = (c', None)"
    and "address \<in> set (AddressesForRoute E (cf_Telegram c') dc test media)"
  shows "validateTelegramAddress address = None"
  using validated_routes_public [OF Validate_routes(1-4) [OF assms(1)] assms(2)] .

lemma sample_route:
  "AddressesForRoute sample_env (cf_Telegram sample_config) 2 False media = [''149.154.167.51:443'']"
  by (simp add: AddressesForRoute_def sample_config_def defaultConfig_def nilmap_def mget_def
      sample_normalize)

theorem routes_are_public_witness:
  "''149.154.167.51:443'' \<in> set (AddressesForRoute sample_env (cf_Telegram sample_config) 2 False True)
   \<and> validateTelegramAddress ''149.154.167.51:443'' = None"
  using routes_are_public [OF sample_config_Validate, of "''149.154.167.51:443''" 2 False True]
    sample_route by simp

section \<open>The order of endpoint selection\<close>

text \<open>The reference: keep the first occurrence of every address.\<close>

definition keep_first :: "'a list \<Rightarrow> 'a list" where
  "keep_first xs = rev (remdups (rev xs))"

definition route_spec :: "goenv \<Rightarrow> TelegramEndpoint list \<Rightarrow> string \<Rightarrow> bool \<Rightarrow> string list" where
  "route_spec E options legacy media =
     (let found = keep_first (filter (\<lambda>a. a \<noteq> []) (concat (map (role_addresses E options)
            (if media then [''media'', ''cdn'', ''regular''] else [''regular'', ''cdn'']))))
      in if found \<noteq> [] then found else filter (\<lambda>a. a \<noteq> []) [normalizeTelegramAddress legacy])"

lemma keep_first_snoc: "keep_first (xs @ [x]) = (if x \<in> set xs then keep_first xs else keep_first xs @ [x])"
  by (simp add: keep_first_def)

lemma set_keep_first [simp]: "set (keep_first xs) = set xs"
  by (simp add: keep_first_def)

lemma add_new_keep_first: "add_new (keep_first xs) as = keep_first (xs @ filter (\<lambda>a. a \<noteq> []) as)"
proof (induction as arbitrary: xs)
  case (Cons a as)
  show ?case
  proof (cases "a \<noteq> []")
    case True
    then have "(if a \<noteq> [] \<and> a \<notin> set (keep_first xs) then keep_first xs @ [a] else keep_first xs)
        = keep_first (xs @ [a])"
      by (simp add: keep_first_snoc)
    then show ?thesis using Cons.IH [of "xs @ [a]"] True by simp
  next
    case False
    then show ?thesis using Cons.IH [of xs] by simp
  qed
qed simp

lemma add_new_Nil: "add_new [] as = keep_first (filter (\<lambda>a. a \<noteq> []) as)"
  using add_new_keep_first [of "[]" as] by (simp add: keep_first_def)

lemma AddressesForRoute_eq:
  "AddressesForRoute E t dc test media =
     route_spec E (mget [] (if test then tg_TestDCOptions t else tg_DCOptions t) dc)
       (mget [] (nilmap (if test then tg_TestDCMap t else tg_DCMap t)) dc) media"
  unfolding AddressesForRoute_def route_spec_def Let_def
  by (simp add: appendRole_add_new add_new_Nil add_new_keep_first)

text \<open>
  Endpoint selection: the addresses of a route are the endpoints' addresses in role
  order (media, cdn, regular for a media connection; regular, cdn otherwise), each address once at
  its first place, and the legacy map's address only when no endpoint qualifies.
\<close>

theorem AddressesForRoute_order:
  "AddressesForRoute E t dc test media =
     route_spec E (mget [] (if test then tg_TestDCOptions t else tg_DCOptions t) dc)
       (mget [] (nilmap (if test then tg_TestDCMap t else tg_DCMap t)) dc) media"
  by (rule AddressesForRoute_eq)

section \<open>Ranges and stability of an accepted configuration\<close>

lemma Validate_defaults:
  assumes "Validate E c = (c', None)"
  shows "0 < tg_ConnectTimeoutMs (cf_Telegram c')" and "0 \<le> tg_IdleTimeoutSec (cf_Telegram c')"
  using Validate_ok(1) [OF assms]
  by (simp_all add: applyDefaults_def applyDefaults_telegram_def defaultConfig_def Let_def)

lemma validateTokens_length: "validateTokens E ts label n = None \<Longrightarrow> length ts \<le> n"
  by (simp add: validateTokens_def)

text \<open>
  Every timeout, limit and token count of an accepted configuration is inside the range
  the runtime relies on, whatever the file held, and the WebSocket path is a canonical path that
  is not one of the management endpoints.
\<close>

theorem Validate_ranges:
  assumes "Validate E c = (c', None)"
  shows "tg_ConnectTimeoutMs (cf_Telegram c') \<in> {1..60000}
    \<and> tg_IdleTimeoutSec (cf_Telegram c') \<in> {0..86400}
    \<and> ws_PingIntervalSec (cf_WebSocket c') \<in> {1..3600}
    \<and> ws_PongTimeoutSec (cf_WebSocket c') \<in> {1..3600}
    \<and> ws_WriteTimeoutSec (cf_WebSocket c') \<in> {1..3600}
    \<and> ws_MaxMessageBytes (cf_WebSocket c') \<in> {65536..67108864}
    \<and> length (cf_Tokens c') \<in> {1..1024} \<and> length (ac_Tokens (cf_Admin c')) \<le> 64
    \<and> validWebSocketPath (ws_Path (cf_WebSocket c'))
    \<and> \<not> management_path (ws_Path (cf_WebSocket c'))"
proof -
  note ok = Validate_ok(2) [OF assms, unfolded validate_checks_def Let_def]
  have "Suc 0 \<le> length (cf_Tokens c')" using Validate_tokens(1) [OF assms] by (cases "cf_Tokens c'") auto
  then show ?thesis
    using ok Validate_defaults [OF assms]
      validateTokens_length [OF Validate_tokens(2) [OF assms]]
      validateTokens_length [OF Validate_tokens(3) [OF assms]]
    by simp
qed

theorem Validate_ranges_witness:
  "ws_MaxMessageBytes (cf_WebSocket sample_config) \<in> {65536..67108864}
   \<and> length (cf_Tokens sample_config) \<in> {1..1024}"
  using Validate_ranges [OF sample_config_Validate] by blast

lemma applyDefaults_topology_idem [simp]:
  "applyDefaults_topology (applyDefaults_topology tp) = applyDefaults_topology tp"
  by (simp add: applyDefaults_topology_def Let_def plain_char_def)

lemma applyDefaults_telegram_idem [simp]:
  "applyDefaults_telegram (applyDefaults_telegram t) = applyDefaults_telegram t"
  by (simp add: applyDefaults_telegram_def defaultConfig_def Let_def)

lemma applyDefaults_websocket_idem [simp]:
  "applyDefaults_websocket (applyDefaults_websocket w) = applyDefaults_websocket w"
  by (simp add: applyDefaults_websocket_def defaultConfig_def Let_def plain_char_def)

lemma applyDefaults_idem [simp]: "applyDefaults (applyDefaults c) = applyDefaults c"
  by (simp add: applyDefaults_def defaultConfig_def Let_def plain_char_def)

lemma negative_limits_defaults: "\<not> negative_limits (applyDefaults c)"
  by (simp add: negative_limits_def applyDefaults_def applyDefaults_telegram_def
      applyDefaults_websocket_def defaultConfig_def Let_def)

text \<open>
  Validation is stable: a configuration that was accepted is accepted again unchanged, so
  writing it back and loading it does not alter it.
\<close>

theorem Validate_stable:
  assumes "Validate E c = (c', None)"
  shows "Validate E c' = (c', None)"
  using Validate_ok [OF assms] negative_limits_defaults [of c]
  by (simp add: Validate_def del: first_error_None) simp

theorem Validate_stable_witness: "Validate sample_env sample_config = (sample_config, None)"
  by (rule Validate_stable [OF sample_config_Validate])

end
