(* ===== verification/Upstream_Pool.thy ===== *)
theory Upstream_Pool
  imports Relay_Prelude Go_Strings "HOL-Library.Multiset"
begin

text \<open>
  The upstream side of \<open>internal/relay/upstream_pool.go\<close>: endpoint health with exponential backoff
  and a half-open probe lease, the order in which a route's endpoints are tried, and the staggered
  race of dial attempts. A \<open>time.Time\<close> is the number of nanoseconds since its zero value, so 0 is
  the zero time and every clock reading is positive. The clock is an argument of each operation.

  A wave starts one goroutine per endpoint; each sends exactly one result. What the scheduler and
  the network decide (the order of arrival, each outcome, the clock at each receive and whether the
  parent context ends first) is the \<open>waveRun\<close> argument; \<open>wave_valid\<close> says which runs the code allows.
\<close>

type_synonym gotime = int

definition second :: int where "second = 1000000000"

definition endpointRaceWidth :: nat where "endpointRaceWidth = 3"

record endpointState =
  es_failures :: int
  es_retryAt :: gotime
  es_probeLeaseUntil :: gotime

record upstreamPool =
  up_health :: "(string, endpointState) gomap"
  up_cursor :: "64 word"

definition zeroEndpoint :: endpointState where
  "zeroEndpoint = \<lparr>es_failures = 0, es_retryAt = 0, es_probeLeaseUntil = 0\<rparr>"

definition newUpstreamPool :: upstreamPool where
  "newUpstreamPool = \<lparr>up_health = [], up_cursor = 0\<rparr>"

section \<open>Endpoint order\<close>

text \<open>\<open>sort.SliceStable\<close>: elements neither of which is less than the other keep their order.\<close>

fun insertStable :: "('a \<Rightarrow> 'a \<Rightarrow> bool) \<Rightarrow> 'a \<Rightarrow> 'a list \<Rightarrow> 'a list" where
  "insertStable lt x [] = [x]"
| "insertStable lt x (y # ys) = (if lt y x then y # insertStable lt x ys else x # y # ys)"

definition sliceStable :: "('a \<Rightarrow> 'a \<Rightarrow> bool) \<Rightarrow> 'a list \<Rightarrow> 'a list" where
  "sliceStable lt xs = foldr (insertStable lt) xs []"

definition retry_less :: "(string, endpointState) gomap \<Rightarrow> gotime \<Rightarrow> string \<Rightarrow> string \<Rightarrow> bool" where
  "retry_less health now a b =
     (let left = es_retryAt (mget zeroEndpoint health a);
          right = es_retryAt (mget zeroEndpoint health b);
          leftReady = (left = 0 \<or> \<not> left > now);
          rightReady = (right = 0 \<or> \<not> right > now)
      in if leftReady \<noteq> rightReady then leftReady else left < right)"

fun eligible_loop ::
  "gotime \<Rightarrow> (string, endpointState) gomap \<Rightarrow> string list \<Rightarrow> (string, endpointState) gomap \<times> string list" where
  "eligible_loop now health [] = (health, [])"
| "eligible_loop now health (address # rest) =
     (case map_of health address of
        None \<Rightarrow> (let (h, el) = eligible_loop now health rest in (h, address # el))
      | Some state \<Rightarrow>
          if es_retryAt state > now \<or> es_probeLeaseUntil state > now
          then eligible_loop now health rest
          else
            (let (h, el) =
               eligible_loop now
                 (mset_key address (state\<lparr>es_probeLeaseUntil := now + 5 * second\<rparr>) health) rest
             in (h, address # el)))"

definition ordered :: "upstreamPool \<Rightarrow> string list \<Rightarrow> gotime \<Rightarrow> upstreamPool \<times> string list" where
  "ordered p addresses now =
     (if addresses = [] then (p, [])
      else
        (let start = unat (up_cursor p) mod length addresses;
             rotated = drop start addresses @ take start addresses;
             (health, eligible) = eligible_loop now (up_health p) rotated
         in (\<lparr>up_health = health, up_cursor = up_cursor p + 1\<rparr>,
             sliceStable (retry_less health now) eligible)))"

section \<open>Outcomes\<close>

definition succeeded :: "upstreamPool \<Rightarrow> string \<Rightarrow> upstreamPool" where
  "succeeded p address = p\<lparr>up_health := mdel address (up_health p)\<rparr>"

definition failed :: "upstreamPool \<Rightarrow> string \<Rightarrow> gotime \<Rightarrow> upstreamPool" where
  "failed p address now =
     (let state = mget zeroEndpoint (up_health p) address;
          n = es_failures state + 1;
          n = (if n > 6 then 6 else n);
          delay = second * 2 ^ nat (n - 1)
      in p\<lparr>up_health := mset_key address
             \<lparr>es_failures = n, es_retryAt = now + delay, es_probeLeaseUntil = 0\<rparr> (up_health p)\<rparr>)"

section \<open>Dial races\<close>

text \<open>
  A connection is named by a number. Of an error the code only asks whether it is
  \<open>context.Canceled\<close> and for its text.
\<close>

type_synonym conn = nat

datatype dialError = Canceled | Failed string

datatype routeError =
    RouteText string | ContextError dialError | Joined "(string \<times> dialError option) list"

record endpointDialResult =
  dr_connection :: "conn option"
  dr_address :: string
  dr_err :: "dialError option"

text \<open>
  One goroutine. The context may end while it waits for its turn; otherwise it dials, and a
  connection that arrives after the context ended is closed here. The second component is the
  list of connections it closed.
\<close>

datatype raceOutcome =
    EndedWaiting dialError
  | Dialled "conn option" "dialError option" "dialError option" \<comment> \<open>connection, error, \<open>ctx.Err()\<close> after it\<close>

fun race_goroutine :: "string \<Rightarrow> raceOutcome \<Rightarrow> endpointDialResult \<times> conn list" where
  "race_goroutine target (EndedWaiting e) =
     (\<lparr>dr_connection = None, dr_address = target, dr_err = Some e\<rparr>, [])"
| "race_goroutine target (Dialled connection err ctxErr) =
     (if err = None \<and> ctxErr \<noteq> None
      then (\<lparr>dr_connection = None, dr_address = target, dr_err = ctxErr\<rparr>,
            case connection of None \<Rightarrow> [] | Some c \<Rightarrow> [c])
      else (\<lparr>dr_connection = connection, dr_address = target, dr_err = err\<rparr>, []))"

definition late_connections :: "endpointDialResult list \<Rightarrow> conn list" where
  "late_connections results =
     concat (map (\<lambda>r. case dr_connection r of None \<Rightarrow> [] | Some c \<Rightarrow> [c]) results)"

text \<open>
  \<open>closeLateEndpointConnections\<close> receives \<open>remaining\<close> more results and closes their connections.
\<close>

definition closeLateEndpointConnections :: "endpointDialResult list \<Rightarrow> nat \<Rightarrow> conn list" where
  "closeLateEndpointConnections results remaining = late_connections (take remaining results)"

text \<open>
  The receive loop of a wave of \<open>n\<close> endpoints: the arrivals not yet received, each with the clock
  at its receive, and the number of receives after which the parent is found done. The result is
  the pool, the connection and address returned, the failures and the connections closed later.
\<close>

fun wave_loop ::
  "upstreamPool \<Rightarrow> nat \<Rightarrow> nat \<Rightarrow> nat option \<Rightarrow> dialError \<Rightarrow> (gotime \<times> endpointDialResult) list
   \<Rightarrow> (string \<times> dialError option) list
   \<Rightarrow> upstreamPool \<times> (conn \<times> string) option \<times> (string \<times> dialError option) list \<times> conn list" where
  "wave_loop p n received parentAt parentErr arrivals failures =
     (if received \<ge> n then (p, None, failures, [])
      else if parentAt = Some received
      then (p, None, failures @ [([], Some parentErr)],
            closeLateEndpointConnections (map snd arrivals) (n - received))
      else
        (case arrivals of
           [] \<Rightarrow> (p, None, failures, [])
         | (now, result) # rest \<Rightarrow>
             (case (dr_err result, dr_connection result) of
                (None, Some c) \<Rightarrow>
                  (succeeded p (dr_address result), Some (c, dr_address result), failures,
                   closeLateEndpointConnections (map snd rest) (n - received - 1))
              | _ \<Rightarrow>
                  if dr_err result \<noteq> Some Canceled
                  then wave_loop (failed p (dr_address result) now) n (Suc received) parentAt parentErr
                         rest (failures @ [(dr_address result, dr_err result)])
                  else wave_loop p n (Suc received) parentAt parentErr rest failures)))"

text \<open>
  What one wave meets: for each arrival the clock, the endpoint and the goroutine's outcome, in
  the order of arrival; when the parent is seen done; and the parent's error after the wave.
\<close>

record waveRun =
  wr_arrivals :: "(gotime \<times> string \<times> raceOutcome) list"
  wr_parentAt :: "nat option"
  wr_parentErr :: dialError
  wr_ctxErr :: "dialError option"

definition wave_valid :: "string list \<Rightarrow> waveRun \<Rightarrow> bool" where
  "wave_valid addresses run \<longleftrightarrow>
     mset (map (\<lambda>(now, target, out). target) (wr_arrivals run)) = mset addresses"

definition wave_results :: "waveRun \<Rightarrow> (gotime \<times> endpointDialResult) list" where
  "wave_results run =
     map (\<lambda>(now, target, out). (now, fst (race_goroutine target out))) (wr_arrivals run)"

definition wave_self_closed :: "waveRun \<Rightarrow> conn list" where
  "wave_self_closed run =
     concat (map (\<lambda>(now, target, out). snd (race_goroutine target out)) (wr_arrivals run))"

definition dialEndpointWave ::
  "upstreamPool \<Rightarrow> string list \<Rightarrow> waveRun
   \<Rightarrow> upstreamPool \<times> (conn \<times> string) option \<times> (string \<times> dialError option) list \<times> conn list" where
  "dialEndpointWave p addresses run =
     (if addresses = [] then (p, None, [], [])
      else
        (let (p', res, failures, late) =
           wave_loop p (length addresses) 0 (wr_parentAt run) (wr_parentErr run) (wave_results run) []
         in (p', res, failures, wave_self_closed run @ late)))"

text \<open>The waves of \<open>dialTelegramRoute\<close>, three endpoints at a time.\<close>

function dial_waves ::
  "(nat \<Rightarrow> waveRun) \<Rightarrow> nat \<Rightarrow> upstreamPool \<Rightarrow> string list \<Rightarrow> (string \<times> dialError option) list
   \<Rightarrow> upstreamPool \<times> (routeError + conn \<times> string) \<times> conn list" where
  "dial_waves runs k p order failures =
     (if order = [] then (p, Inl (Joined failures), [])
      else
        (let (p1, res, waveFailures, closed) =
               dialEndpointWave p (take endpointRaceWidth order) (runs k)
         in (case res of
               Some found \<Rightarrow> (p1, Inr found, closed)
             | None \<Rightarrow>
                 (case wr_ctxErr (runs k) of
                    Some e \<Rightarrow> (p1, Inl (ContextError e), closed)
                  | None \<Rightarrow>
                      (let (p2, r, closed') =
                         dial_waves runs (Suc k) p1 (drop endpointRaceWidth order)
                           (failures @ waveFailures)
                       in (p2, r, closed @ closed'))))))"
  by pat_completeness auto
termination
  by (relation "measure (\<lambda>(runs, k, p, order, failures). length order)")
    (auto simp: endpointRaceWidth_def)

declare dial_waves.simps [simp del] wave_loop.simps [simp del]

text \<open>\<open>addresses\<close> is the answer of the topology manager for the requested route.\<close>

definition dialTelegramRoute ::
  "(nat \<Rightarrow> waveRun) \<Rightarrow> upstreamPool \<Rightarrow> string list \<Rightarrow> gotime
   \<Rightarrow> upstreamPool \<times> (routeError + conn \<times> string) \<times> conn list" where
  "dialTelegramRoute runs p addresses now =
     (if addresses = [] then (p, Inl (RouteText ''unknown dc''), [])
      else
        (let (p1, order) = ordered p addresses now
         in if order = []
            then (p1, Inl (RouteText ''all Telegram endpoints are cooling down''), [])
            else dial_waves runs 0 p1 order []))"

lemmas pool_defs [pool_simps] = succeeded_def failed_def zeroEndpoint_def second_def

end
