(* ===== verification/Upstream_Props.thy ===== *)
theory Upstream_Props
  imports Upstream_Pool
begin

text \<open>
  Properties of the upstream pool: the order of endpoints against a reference definition, the
  half-open probe lease, the backoff schedule, and the accounting of the connections of a race.
\<close>

section \<open>Stable sorting\<close>

lemma insertStable_insort:
  assumes "\<And>y. y \<in> set ys \<Longrightarrow> lt y x \<longleftrightarrow> k y < (k x :: 'b :: linorder)"
  shows "insertStable lt x ys = insort_key k x ys"
  using assms by (induction ys) (auto simp: not_less)

lemma set_insertStable [simp]: "set (insertStable lt x ys) = insert x (set ys)"
  by (induction ys) auto

lemma set_sliceStable [simp]: "set (sliceStable lt xs) = set xs"
  by (induction xs) (auto simp: sliceStable_def)

lemma sliceStable_sort_key:
  assumes "\<And>x y. x \<in> set xs \<Longrightarrow> y \<in> set xs \<Longrightarrow> lt x y \<longleftrightarrow> k x < (k y :: 'b :: linorder)"
  shows "sliceStable lt xs = sort_key k xs"
  using assms
proof (induction xs)
  case (Cons x xs)
  then have "sliceStable lt xs = sort_key k xs" by simp
  moreover have "insertStable lt x (sort_key k xs) = insort_key k x (sort_key k xs)"
    using Cons.prems by (intro insertStable_insort) simp
  ultimately show ?case by (simp add: sliceStable_def)
qed (simp add: sliceStable_def)

section \<open>Endpoint order\<close>

text \<open>An endpoint may be tried: it has no recorded failure, or its cooldown and lease are over.\<close>

definition may_try :: "gotime \<Rightarrow> (string, endpointState) gomap \<Rightarrow> string \<Rightarrow> bool" where
  "may_try now health a =
     (case map_of health a of
        None \<Rightarrow> True
      | Some s \<Rightarrow> es_retryAt s \<le> now \<and> es_probeLeaseUntil s \<le> now)"

definition retry_of :: "(string, endpointState) gomap \<Rightarrow> string \<Rightarrow> gotime" where
  "retry_of health a = es_retryAt (mget zeroEndpoint health a)"

definition leased :: "gotime \<Rightarrow> endpointState \<Rightarrow> endpointState" where
  "leased now s = s\<lparr>es_probeLeaseUntil := now + 5 * second\<rparr>"

text \<open>The operations with their results projected, for rewriting.\<close>

lemma eligible_loop_Cons:
  "eligible_loop now h (a # as) =
     (case map_of h a of
        None \<Rightarrow> (fst (eligible_loop now h as), a # snd (eligible_loop now h as))
      | Some s \<Rightarrow>
          if es_retryAt s > now \<or> es_probeLeaseUntil s > now then eligible_loop now h as
          else (fst (eligible_loop now (mset_key a (leased now s) h) as),
                a # snd (eligible_loop now (mset_key a (leased now s) h) as)))"
  by (simp add: leased_def split: option.split prod.split)

lemma ordered_proj:
  fixes p :: upstreamPool
  assumes "as \<noteq> []"
  defines "rot \<equiv> drop (unat (up_cursor p) mod length as) as @ take (unat (up_cursor p) mod length as) as"
  shows "up_health (fst (ordered p as now)) = fst (eligible_loop now (up_health p) rot)"
    and "set (snd (ordered p as now)) = set (snd (eligible_loop now (up_health p) rot))"
  using assms by (simp_all add: ordered_def Let_def split: prod.split)

lemma eligible_loop_spec:
  assumes "distinct as"
  shows "snd (eligible_loop now h as) = filter (may_try now h) as
     \<and> map_of (fst (eligible_loop now h as)) =
         (\<lambda>a. if a \<in> set as \<and> may_try now h a then map_option (leased now) (map_of h a) else map_of h a)"
  using assms
proof (induction as arbitrary: h)
  case (Cons a as)
  have other: "may_try now (mset_key a s h) b = may_try now h b" if "b \<noteq> a" for b s
    using that by (simp add: may_try_def)
  show ?case
  proof (cases "map_of h a")
    case None
    then show ?thesis
      using Cons.IH [of h] Cons.prems
      by (auto simp: may_try_def split: prod.split intro!: ext)
  next
    case (Some s)
    show ?thesis
    proof (cases "may_try now h a")
      case False
      then have "eligible_loop now h (a # as) = eligible_loop now h as"
        using Some by (auto simp: may_try_def)
      then show ?thesis using Cons.IH [of h] Cons.prems False by (auto intro!: ext)
    next
      case True
      let ?h = "mset_key a (leased now s) h"
      have step: "snd (eligible_loop now h (a # as)) = a # snd (eligible_loop now ?h as)"
        "fst (eligible_loop now h (a # as)) = fst (eligible_loop now ?h as)"
        using Some True by (auto simp: may_try_def leased_def split: prod.split)
      have f: "filter (may_try now ?h) as = filter (may_try now h) as"
      proof (intro filter_cong refl other)
        fix x assume "x \<in> set as"
        then show "x \<noteq> a" using Cons.prems by auto
      qed
      have m: "map_of ?h b = (if b = a then Some (leased now s) else map_of h b)" for b
        by simp
      show ?thesis
        using Cons.IH [of ?h] Cons.prems True Some other unfolding step f
        by (auto simp del: map_of_update simp: m intro!: ext)
    qed
  qed
qed simp

lemma retry_of_eligible:
  assumes "distinct as"
  shows "retry_of (fst (eligible_loop now h as)) a = retry_of h a"
  using eligible_loop_spec [OF assms, of now h]
  by (auto simp: retry_of_def mget_def leased_def split: option.splits)

lemma may_try_ready: "may_try now h a \<Longrightarrow> 0 \<le> now \<Longrightarrow> retry_of h a \<le> now"
  by (auto simp: may_try_def retry_of_def mget_def zeroEndpoint_def split: option.splits)

text \<open>
  Claim C32. The order of endpoints: for a route whose addresses are distinct, \<open>ordered\<close> returns the
  addresses rotated by the cursor, without those in cooldown or under a probe lease, stably sorted
  by the end of their cooldown (so endpoints with no failure come first), and it leases exactly the
  failed endpoints it hands out for five seconds.
\<close>

theorem ordered_spec:
  assumes "distinct addresses" and "0 \<le> now" and "ordered p addresses now = (p', order)"
  shows "order = sort_key (retry_of (up_health p))
            (filter (may_try now (up_health p)) (rotate (unat (up_cursor p)) addresses))
       \<and> map_of (up_health p') =
           (\<lambda>a. if a \<in> set order then map_option (leased now) (map_of (up_health p) a)
                else map_of (up_health p) a)
       \<and> up_cursor p' = (if addresses = [] then up_cursor p else up_cursor p + 1)"
proof (cases "addresses = []")
  case True
  then show ?thesis using assms(3) by (auto simp: ordered_def)
next
  case False
  let ?h = "up_health p"
  define rot where "rot = rotate (unat (up_cursor p)) addresses"
  have rot: "drop (unat (up_cursor p) mod length addresses) addresses
      @ take (unat (up_cursor p) mod length addresses) addresses = rot"
    by (simp add: rot_def rotate_drop_take)
  have d: "distinct rot" using assms(1) by (simp add: rot_def)
  obtain h el where loop: "eligible_loop now ?h rot = (h, el)" by fastforce
  then have el: "el = filter (may_try now ?h) rot" and h: "map_of h =
      (\<lambda>a. if a \<in> set rot \<and> may_try now ?h a then map_option (leased now) (map_of ?h a) else map_of ?h a)"
    using eligible_loop_spec [OF d, of now ?h] by simp_all
  have r: "retry_of h a = retry_of ?h a" for a
    using retry_of_eligible [OF d, of now ?h a] loop by simp
  have "sliceStable (retry_less h now) el = sort_key (retry_of ?h) el"
  proof (rule sliceStable_sort_key)
    fix x y assume "x \<in> set el" "y \<in> set el"
    then have "retry_of h x \<le> now" "retry_of h y \<le> now"
      using may_try_ready [OF _ assms(2)] r by (simp_all add: el)
    then show "retry_less h now x y \<longleftrightarrow> retry_of ?h x < retry_of ?h y"
      by (simp add: retry_less_def r [symmetric]) (auto simp: retry_of_def Let_def)
  qed
  moreover have "p' = \<lparr>up_health = h, up_cursor = up_cursor p + 1\<rparr>"
      "order = sliceStable (retry_less h now) el"
    using assms(3) False loop by (simp_all add: ordered_def Let_def rot)
  ultimately show ?thesis
    using False h by (auto simp: el rot_def intro!: ext)
qed

lemma ordered_spec_witness:
  "snd (ordered \<lparr>up_health = [(''b'', \<lparr>es_failures = 1, es_retryAt = 3, es_probeLeaseUntil = 0\<rparr>),
                            (''c'', \<lparr>es_failures = 2, es_retryAt = 90, es_probeLeaseUntil = 0\<rparr>)],
                 up_cursor = 1\<rparr> [''a'', ''b'', ''c'', ''d''] 10) = [''d'', ''a'', ''b'']"
proof -
  let ?p = "\<lparr>up_health = [(''b'', \<lparr>es_failures = 1, es_retryAt = 3, es_probeLeaseUntil = 0\<rparr>),
      (''c'', \<lparr>es_failures = 2, es_retryAt = 90, es_probeLeaseUntil = 0\<rparr>)], up_cursor = 1\<rparr>"
  let ?as = "[''a'', ''b'', ''c'', ''d'']"
  have "snd (ordered ?p ?as 10) = sort_key (retry_of (up_health ?p))
      (filter (may_try 10 (up_health ?p)) (rotate (unat (up_cursor ?p)) ?as))"
    by (rule ordered_spec [THEN conjunct1, of ?as 10 ?p "fst (ordered ?p ?as 10)"]) simp_all
  also have "\<dots> = [''d'', ''a'', ''b'']"
    by (simp add: may_try_def retry_of_def mget_def zeroEndpoint_def)
  finally show ?thesis .
qed

section \<open>The half-open probe\<close>

datatype poolOp = DoOrdered "string list" gotime | DoSucceeded string | DoFailed string gotime

fun pool_op :: "upstreamPool \<Rightarrow> poolOp \<Rightarrow> upstreamPool" where
  "pool_op p (DoOrdered as now) = fst (ordered p as now)"
| "pool_op p (DoSucceeded a) = succeeded p a"
| "pool_op p (DoFailed a now) = failed p a now"

definition pool_run :: "upstreamPool \<Rightarrow> poolOp list \<Rightarrow> upstreamPool" where
  "pool_run = foldl pool_op"

text \<open>An operation that does not report an outcome for the endpoint and runs before \<open>t\<close>.\<close>

fun quiet_for :: "string \<Rightarrow> gotime \<Rightarrow> poolOp \<Rightarrow> bool" where
  "quiet_for a t (DoOrdered as now) \<longleftrightarrow> now < t"
| "quiet_for a t (DoSucceeded b) \<longleftrightarrow> b \<noteq> a"
| "quiet_for a t (DoFailed b now) \<longleftrightarrow> b \<noteq> a"

definition lease_held :: "upstreamPool \<Rightarrow> string \<Rightarrow> gotime \<Rightarrow> bool" where
  "lease_held p a t \<longleftrightarrow> (\<exists>s. map_of (up_health p) a = Some s \<and> t \<le> es_probeLeaseUntil s)"

lemma eligible_loop_held:
  assumes "map_of h a = Some s" and "now < es_probeLeaseUntil s"
  shows "map_of (fst (eligible_loop now h as)) a = Some s \<and> a \<notin> set (snd (eligible_loop now h as))"
  using assms
proof (induction as arbitrary: h)
  case (Cons b bs)
  show ?case
  proof (cases "b = a")
    case True
    then show ?thesis using Cons by simp
  next
    case False
    then have "map_of (mset_key b s' h) a = Some s" for s'
      using Cons.prems by simp
    then show ?thesis
      using Cons.IH [of h] Cons.IH [of "mset_key b _ h"] Cons.prems False
      by (auto simp del: map_of_update eligible_loop.simps simp: eligible_loop_Cons split: option.split)
  qed
qed simp

lemma ordered_held:
  assumes "lease_held p a t" and "now < t"
  shows "lease_held (fst (ordered p as now)) a t \<and> a \<notin> set (snd (ordered p as now))"
proof -
  obtain s where s: "map_of (up_health p) a = Some s" "t \<le> es_probeLeaseUntil s"
    using assms(1) by (auto simp: lease_held_def)
  have "now < es_probeLeaseUntil s" using s(2) assms(2) by simp
  from eligible_loop_held [OF s(1) this] s show ?thesis
    by (cases "as = []") (auto simp: ordered_proj lease_held_def, simp_all add: ordered_def)
qed

lemma pool_run_held: "lease_held p a t \<Longrightarrow> list_all (quiet_for a t) ops \<Longrightarrow> lease_held (pool_run p ops) a t"
proof (induction ops arbitrary: p)
  case (Cons op ops)
  have "lease_held (pool_op p op) a t"
    using Cons.prems ordered_held by (cases op) (auto simp: lease_held_def pool_simps Let_def)
  then show ?case using Cons by (simp add: pool_run_def)
qed (simp add: pool_run_def)

lemma ordered_leases:
  assumes "distinct as" and "0 \<le> now" and "a \<in> set (snd (ordered p as now))"
    and "mhas (up_health p) a"
  shows "lease_held (fst (ordered p as now)) a (now + 5 * second)"
proof -
  have "map_of (up_health (fst (ordered p as now))) a = map_option (leased now) (map_of (up_health p) a)"
    using ordered_spec [OF assms(1,2), of p "fst (ordered p as now)" "snd (ordered p as now)"] assms(3)
    by simp
  then show ?thesis
    using assms(4) by (auto simp: lease_held_def mhas_iff_map_of leased_def)
qed

text \<open>
  Claim C31. One probe at a time: once \<open>ordered\<close> has handed out an endpoint that failed before, no
  later call hands it out again within five seconds, whatever pool operations run in between, unless
  the outcome of the probe is reported first.
\<close>

theorem probe_exclusive:
  assumes "distinct addresses" and "0 \<le> now" and "mhas (up_health p) a"
    and "a \<in> set (snd (ordered p addresses now))"
    and "list_all (quiet_for a (now + 5 * second)) ops" and "later < now + 5 * second"
  shows "a \<notin> set (snd (ordered (pool_run (fst (ordered p addresses now)) ops) addresses' later))"
  using ordered_held [OF pool_run_held [OF ordered_leases [OF assms(1,2,4,3)] assms(5)] assms(6)]
  by blast

lemma probe_exclusive_witness:
  "''a'' \<notin> set (snd (ordered (pool_run (fst (ordered
       \<lparr>up_health = [(''a'', \<lparr>es_failures = 1, es_retryAt = 3, es_probeLeaseUntil = 0\<rparr>)], up_cursor = 0\<rparr>
       [''a'', ''b''] 10)) [DoOrdered [''b'', ''a''] 11, DoFailed ''b'' 12]) [''a''] 13))"
  by (rule probe_exclusive)
    (simp_all add: mhas_def second_def ordered_def sliceStable_def retry_less_def mget_def
      zeroEndpoint_def)

section \<open>Backoff\<close>

text \<open>
  Backoff schedule: after a success (or for a fresh endpoint) followed by any run of
  consecutive failures, the endpoint's next attempt is delayed by 1, 2, 4, 8, 16 and then always 32
  seconds after the last failure, and a lease it held is dropped.
\<close>

theorem failed_backoff:
  assumes "moments \<noteq> []"
  shows "map_of (up_health (foldl (\<lambda>p t. failed p a t) (succeeded p a) moments)) a =
     Some \<lparr>es_failures = int (min 6 (length moments)),
           es_retryAt = last moments + second * 2 ^ (min 6 (length moments) - 1),
           es_probeLeaseUntil = 0\<rparr>"
  using assms
proof (induction moments rule: rev_induct)
  case (snoc t ts)
  show ?case
  proof (cases "ts = []")
    case True
    then show ?thesis by (simp add: failed_def succeeded_def zeroEndpoint_def mget_def)
  next
    case False
    then have "1 \<le> length ts" by (cases ts) auto
    then have "min 6 (length ts) = 6 \<and> 6 \<le> length ts \<or> min 6 (length ts) = length ts \<and> length ts \<le> 5"
      by linarith
    then show ?thesis
      using snoc.IH [OF False] \<open>1 \<le> length ts\<close>
      by (elim disjE) (auto simp: failed_def mget_def Let_def min_def nat_diff_distrib)
  qed
qed simp

lemma failed_backoff_witness:
  "map_of (up_health (foldl (\<lambda>p t. failed p ''a'' t) (succeeded newUpstreamPool ''a'') [100, 200, 300])) ''a''
   = Some \<lparr>es_failures = 3, es_retryAt = 300 + 4 * second, es_probeLeaseUntil = 0\<rparr>"
  using failed_backoff [of "[100, 200, 300]" "''a''" newUpstreamPool] by simp

text \<open>The health map of every reachable pool; the shift of \<open>failed\<close> never sees a negative count.\<close>

definition pool_inv :: "upstreamPool \<Rightarrow> bool" where
  "pool_inv p \<longleftrightarrow> gomap_ok (up_health p)
     \<and> (\<forall>a s. map_of (up_health p) a = Some s \<longrightarrow> es_failures s \<in> {1..6})"

definition pool_init :: "upstreamPool \<Rightarrow> bool" where
  "pool_init p \<longleftrightarrow> p = newUpstreamPool"

inductive pool_step :: "upstreamPool \<Rightarrow> upstreamPool \<Rightarrow> bool" where
  "pool_step p (pool_op p op)"

inductive_cases pool_stepE: "pool_step p q"

lemma eligible_loop_inv:
  "gomap_ok h \<and> (\<forall>a s. map_of h a = Some s \<longrightarrow> es_failures s \<in> {1..6}) \<Longrightarrow>
   gomap_ok (fst (eligible_loop now h as))
   \<and> (\<forall>a s. map_of (fst (eligible_loop now h as)) a = Some s \<longrightarrow> es_failures s \<in> {1..6})"
proof (induction as arbitrary: h)
  case (Cons b bs)
  show ?case
  proof (cases "map_of h b")
    case None
    then show ?thesis using Cons.IH [OF Cons.prems] by (simp add: eligible_loop_Cons del: eligible_loop.simps)
  next
    case (Some s)
    have "gomap_ok (mset_key b (s\<lparr>es_probeLeaseUntil := t\<rparr>) h)
        \<and> (\<forall>a s'. map_of (mset_key b (s\<lparr>es_probeLeaseUntil := t\<rparr>) h) a = Some s' \<longrightarrow> es_failures s' \<in> {1..6})" for t
      using Cons.prems Some by auto
    from Cons.IH [OF this] Cons.IH [OF Cons.prems] Some show ?thesis
      by (simp add: eligible_loop_Cons leased_def del: eligible_loop.simps)
  qed
qed simp

lemma pool_inv_op: "pool_inv p \<Longrightarrow> pool_inv (pool_op p op)"
proof (cases op)
  case (DoOrdered as now)
  assume "pool_inv p"
  then show ?thesis
    using DoOrdered eligible_loop_inv [of "up_health p" now]
    by (cases "as = []") (auto simp: pool_inv_def ordered_proj, simp_all add: ordered_def)
next
  case (DoFailed a now)
  assume i: "pool_inv p"
  have "0 \<le> es_failures (mget zeroEndpoint (up_health p) a)"
    using i by (force simp: pool_inv_def mget_def zeroEndpoint_def split: option.split)
  then show ?thesis using i DoFailed by (auto simp: pool_inv_def failed_def Let_def)
qed (auto simp: pool_inv_def succeeded_def split: if_splits)

lemma pool_inv_init: "pool_init p \<Longrightarrow> pool_inv p"
  by (simp add: pool_init_def pool_inv_def newUpstreamPool_def)

interpretation pool: invariant_system pool_init pool_step pool_inv
  by unfold_locales (auto elim!: pool_stepE intro: pool_inv_op pool_inv_init)

section \<open>Connections of a race\<close>

text \<open>The connections the dialer produced, and its contract: an error comes without a connection.\<close>

fun opened_by :: "raceOutcome \<Rightarrow> conn list" where
  "opened_by (EndedWaiting e) = []"
| "opened_by (Dialled connection err ctxErr) = (case connection of None \<Rightarrow> [] | Some c \<Rightarrow> [c])"

fun dial_contract :: "raceOutcome \<Rightarrow> bool" where
  "dial_contract (EndedWaiting e) = True"
| "dial_contract (Dialled connection err ctxErr) = (err \<noteq> None \<longrightarrow> connection = None)"

definition wave_opened :: "waveRun \<Rightarrow> conn list" where
  "wave_opened run = concat (map (\<lambda>(now, target, out). opened_by out) (wr_arrivals run))"

definition run_ok :: "string list \<Rightarrow> waveRun \<Rightarrow> bool" where
  "run_ok addresses run \<longleftrightarrow> wave_valid addresses run
     \<and> (\<forall>(now, target, out) \<in> set (wr_arrivals run). dial_contract out)"

definition returned :: "(conn \<times> string) option \<Rightarrow> conn multiset" where
  "returned res = (case res of None \<Rightarrow> {#} | Some (c, a) \<Rightarrow> {#c#})"

lemma returned_simps [simp]: "returned None = {#}" "returned (Some (c, a)) = {#c#}"
  by (simp_all add: returned_def)

lemma late_connections_simps [simp]:
  "late_connections [] = []"
  "late_connections (r # rs) = (case dr_connection r of None \<Rightarrow> [] | Some c \<Rightarrow> [c]) @ late_connections rs"
  by (simp_all add: late_connections_def)

lemma race_accounts:
  assumes "dial_contract out"
  shows "opened_by out = snd (race_goroutine t out) @ late_connections [fst (race_goroutine t out)]"
proof (cases out)
  case (Dialled connection err ctxErr)
  then show ?thesis using assms by (cases connection; cases err; cases ctxErr) simp_all
qed simp

lemma race_no_stray:
  assumes "dial_contract out" and "dr_err (fst (race_goroutine t out)) \<noteq> None"
  shows "dr_connection (fst (race_goroutine t out)) = None"
proof (cases out)
  case (Dialled connection err ctxErr)
  then show ?thesis using assms by (cases connection; cases err; cases ctxErr) simp_all
qed simp

lemma race_address: "dr_address (fst (race_goroutine t out)) = t"
  by (cases out) simp_all

text \<open>One receive, by what it meets.\<close>

lemma wave_loop_parent:
  "received < n \<Longrightarrow> wave_loop p n received (Some received) e arrivals fs =
     (p, None, fs @ [([], Some e)], closeLateEndpointConnections (map snd arrivals) (n - received))"
  by (subst wave_loop.simps) simp

lemma wave_loop_success:
  "received < n \<Longrightarrow> parentAt \<noteq> Some received \<Longrightarrow> dr_err r = None \<Longrightarrow> dr_connection r = Some c \<Longrightarrow>
   wave_loop p n received parentAt e ((now, r) # xs) fs =
     (succeeded p (dr_address r), Some (c, dr_address r), fs,
      closeLateEndpointConnections (map snd xs) (n - received - 1))"
  by (subst wave_loop.simps) simp

lemma wave_loop_other:
  assumes "received < n" and "parentAt \<noteq> Some received" and "dr_err r \<noteq> None \<or> dr_connection r = None"
  shows "wave_loop p n received parentAt e ((now, r) # xs) fs =
      wave_loop (if dr_err r \<noteq> Some Canceled then failed p (dr_address r) now else p)
        n (Suc received) parentAt e xs
        (if dr_err r \<noteq> Some Canceled then fs @ [(dr_address r, dr_err r)] else fs)"
  using assms
  by (subst wave_loop.simps, cases "dr_err r"; cases "dr_connection r") simp_all

lemma wave_loop_accounts:
  assumes "n = received + length arrivals"
    and "\<forall>(now, r) \<in> set arrivals. dr_err r \<noteq> None \<longrightarrow> dr_connection r = None"
    and "wave_loop p n received parentAt parentErr arrivals failures = (p', res, fs, late)"
  shows "mset (late_connections (map snd arrivals)) = mset late + returned res
     \<and> (\<forall>c a. res = Some (c, a) \<longrightarrow>
          (\<exists>now r. (now, r) \<in> set arrivals \<and> dr_connection r = Some c \<and> dr_address r = a \<and> dr_err r = None)
          \<and> \<not> mhas (up_health p') a)"
  using assms
proof (induction arrivals arbitrary: p received failures)
  case Nil
  then show ?case by (simp add: wave_loop.simps)
next
  case (Cons x xs)
  obtain now r where x: "x = (now, r)" by fastforce
  have n: "received < n" "n - received = Suc (length xs)" using Cons.prems(1) by simp_all
  consider (parent) "parentAt = Some received"
    | (won) c where "parentAt \<noteq> Some received" "dr_err r = None" "dr_connection r = Some c"
    | (other) "parentAt \<noteq> Some received" "dr_err r \<noteq> None \<or> dr_connection r = None"
    by (cases "dr_connection r") auto
  then show ?case
  proof cases
    case parent
    then have "res = None" "late = late_connections (map snd (x # xs))"
      using Cons.prems(3) wave_loop_parent [OF n(1)] n(2) by (auto simp: closeLateEndpointConnections_def)
    then show ?thesis by simp
  next
    case won
    then have "res = Some (c, dr_address r)" "late = late_connections (map snd xs)"
      "p' = succeeded p (dr_address r)"
      using Cons.prems(3) wave_loop_success [OF n(1) won] n(2) x
      by (auto simp: closeLateEndpointConnections_def)
    then show ?thesis using won x by (auto simp: succeeded_def)
  next
    case other
    obtain q fs' where "wave_loop q n (Suc received) parentAt parentErr xs fs' = (p', res, fs, late)"
      using Cons.prems(3) unfolding x wave_loop_other [OF n(1) other] by blast
    from Cons.IH [OF _ _ this] Cons.prems(1,2) have
      "mset (late_connections (map snd xs)) = mset late + returned res
        \<and> (\<forall>c a. res = Some (c, a) \<longrightarrow> (\<exists>now r. (now, r) \<in> set xs \<and> dr_connection r = Some c
              \<and> dr_address r = a \<and> dr_err r = None) \<and> \<not> mhas (up_health p') a)"
      by simp
    moreover have "dr_connection r = None" using other Cons.prems(2) x by auto
    ultimately show ?thesis using x by fastforce
  qed
qed

lemma arrivals_account:
  "\<forall>(now, t, out) \<in> set xs. dial_contract out \<Longrightarrow>
   mset (concat (map (\<lambda>(now, t, out). opened_by out) xs)) =
     mset (concat (map (\<lambda>(now, t, out). snd (race_goroutine t out)) xs))
     + mset (late_connections (map (\<lambda>(now, t, out). fst (race_goroutine t out)) xs))"
proof (induction xs)
  case (Cons x xs)
  obtain now t out where x: "x = (now, t, out)" by (cases x)
  have "dial_contract out" using Cons.prems x by simp
  from race_accounts [OF this, of t] Cons x show ?case by simp
qed simp

lemma wave_opened_accounts:
  assumes "run_ok addresses run"
  shows "mset (wave_opened run) =
    mset (wave_self_closed run) + mset (late_connections (map snd (wave_results run)))"
proof -
  have "map snd (wave_results run) =
      map (\<lambda>(now, t, out). fst (race_goroutine t out)) (wr_arrivals run)"
    by (auto simp: wave_results_def)
  then show ?thesis
    using arrivals_account [of "wr_arrivals run"] assms
    by (simp add: wave_opened_def wave_self_closed_def run_ok_def)
qed

lemma wave_accounts:
  assumes "run_ok addresses run" and "dialEndpointWave p addresses run = (p', res, fs, closed)"
  shows "mset (wave_opened run) = mset closed + returned res"
    and "res = Some (c, a) \<Longrightarrow> a \<in> set addresses \<and> \<not> mhas (up_health p') a"
proof -
  have len: "mset (map (\<lambda>(now, t, out). t) (wr_arrivals run)) = mset addresses"
    using assms(1) by (simp add: run_ok_def wave_valid_def)
  have n: "length addresses = 0 + length (wave_results run)"
    using mset_eq_length [OF len] by (simp add: wave_results_def)
  have ok: "\<forall>(now, r) \<in> set (wave_results run). dr_err r \<noteq> None \<longrightarrow> dr_connection r = None"
    using assms(1) race_no_stray by (fastforce simp: run_ok_def wave_results_def)
  obtain late where w: "addresses \<noteq> [] \<Longrightarrow> wave_loop p (length addresses) 0 (wr_parentAt run)
      (wr_parentErr run) (wave_results run) [] = (p', res, fs, late)"
    and closed: "addresses \<noteq> [] \<Longrightarrow> closed = wave_self_closed run @ late"
    using assms(2) by (cases "addresses = []") (auto simp: dialEndpointWave_def split: prod.splits)
  show "mset (wave_opened run) = mset closed + returned res"
  proof (cases "addresses = []")
    case True
    then have "wr_arrivals run = []" using len by simp
    then show ?thesis using True assms(2) by (simp add: dialEndpointWave_def wave_opened_def)
  next
    case False
    show ?thesis
      using wave_loop_accounts [OF n ok w [OF False]] wave_opened_accounts [OF assms(1)] closed [OF False]
      by simp
  qed
  show "a \<in> set addresses \<and> \<not> mhas (up_health p') a" if r: "res = Some (c, a)"
  proof -
    have ne: "addresses \<noteq> []" using r assms(2) by (auto simp: dialEndpointWave_def)
    obtain now r' where "(now, r') \<in> set (wave_results run)" "dr_address r' = a"
      using wave_loop_accounts [OF n ok w [OF ne]] r by blast
    then have "a \<in> set (map (\<lambda>(now, t, out). t) (wr_arrivals run))"
      by (force simp: wave_results_def race_address)
    then have "a \<in> set addresses" using len by (metis set_mset_mset)
    then show ?thesis using wave_loop_accounts [OF n ok w [OF ne]] r by blast
  qed
qed

text \<open>The waves a route may run: wave \<open>k\<close> races the \<open>k\<close>-th group of three.\<close>

definition route_runs_ok :: "string list \<Rightarrow> nat \<Rightarrow> (nat \<Rightarrow> waveRun) \<Rightarrow> bool" where
  "route_runs_ok order k runs \<longleftrightarrow>
     (\<forall>i. run_ok (take endpointRaceWidth (drop (i * endpointRaceWidth) order)) (runs (k + i)))"

lemma route_runs_ok_head: "route_runs_ok order k runs \<Longrightarrow> run_ok (take endpointRaceWidth order) (runs k)"
  unfolding route_runs_ok_def by (drule spec [of _ 0]) simp

lemma route_runs_ok_tail:
  "route_runs_ok order k runs \<Longrightarrow> route_runs_ok (drop endpointRaceWidth order) (Suc k) runs"
  unfolding route_runs_ok_def by (intro allI, drule_tac x = "Suc i" in spec) (simp add: add.commute)

text \<open>
  The number of waves a dial ran, read off its answer: all groups of the order when every wave failed; up
  to the first wave after which the context had ended; or up to the wave the answer comes from. No wave
  before the last one ended the context, and a dial refused at once ran none.
\<close>

definition wave_count :: "string list \<Rightarrow> nat" where
  "wave_count order = (length order + endpointRaceWidth - 1) div endpointRaceWidth"

definition waves_ran ::
  "string list \<Rightarrow> (nat \<Rightarrow> waveRun) \<Rightarrow> routeError + conn \<times> string \<Rightarrow> nat \<Rightarrow> bool" where
  "waves_ran order runs r m \<longleftrightarrow>
     (\<forall>i. Suc i < m \<longrightarrow> wr_ctxErr (runs i) = None)
     \<and> (case r of
          Inl (RouteText e) \<Rightarrow> m = 0
        | Inl (Joined failures) \<Rightarrow> m = wave_count order
        | Inl (ContextError e) \<Rightarrow> 0 < m \<and> wr_ctxErr (runs (m - 1)) = Some e
        | Inr (c, a) \<Rightarrow> 0 < m \<and> c \<in> set (wave_opened (runs (m - 1)))
            \<and> a \<in> set (take endpointRaceWidth (drop ((m - 1) * endpointRaceWidth) order)))"

lemma wave_count_simps [simp]:
  "wave_count [] = 0"
  "order \<noteq> [] \<Longrightarrow> wave_count order = Suc (wave_count (drop endpointRaceWidth order))"
proof -
  show "wave_count [] = 0" by (simp add: wave_count_def endpointRaceWidth_def)
  assume "order \<noteq> []"
  then have "0 < length order" by simp
  then have "(length order + 2) div 3 = Suc ((length order - 3 + 2) div 3)" by presburger
  then show "wave_count order = Suc (wave_count (drop endpointRaceWidth order))"
    by (simp add: wave_count_def endpointRaceWidth_def)
qed

lemma waves_ran_Suc:
  assumes "waves_ran (drop endpointRaceWidth order) (runs \<circ> Suc) r m" and "order \<noteq> []"
    and "wr_ctxErr (runs 0) = None" and "\<And>e. r \<noteq> Inl (RouteText e)"
  shows "waves_ran order runs r (Suc m)"
proof -
  have "wr_ctxErr (runs i) = None" if "i < m" for i
    using assms(1,3) that by (cases i) (auto simp: waves_ran_def)
  moreover have "take w (drop (m * w) order) = take w (drop ((m - 1) * w) (drop w order))" if "0 < m" for w
    using that by (cases m) (simp_all add: add.commute)
  ultimately show ?thesis
    using assms by (cases m) (auto simp: waves_ran_def split: sum.splits routeError.splits prod.splits)
qed

lemma dial_waves_accounts:
  assumes "route_runs_ok order k runs" and "dial_waves runs k p order failures = (p', r, closed)"
  shows "\<exists>m. waves_ran order (\<lambda>i. runs (k + i)) r m
      \<and> mset (concat (map (\<lambda>i. wave_opened (runs (k + i))) [0..<m])) =
           mset closed + (case r of Inl e \<Rightarrow> {#} | Inr (c, a) \<Rightarrow> {#c#})" (is "\<exists>m. ?ran m")
    and "r = Inr (c, a) \<Longrightarrow> a \<in> set order \<and> \<not> mhas (up_health p') a"
proof -
  have "(\<exists>m. waves_ran order (\<lambda>i. runs (k + i)) r m
      \<and> mset (concat (map (\<lambda>i. wave_opened (runs (k + i))) [0..<m])) =
           mset closed + (case r of Inl e \<Rightarrow> {#} | Inr (c, a) \<Rightarrow> {#c#}))
      \<and> (\<forall>c a. r = Inr (c, a) \<longrightarrow> a \<in> set order \<and> \<not> mhas (up_health p') a) \<and> (\<forall>e. r \<noteq> Inl (RouteText e))"
    using assms
  proof (induction runs k p order failures arbitrary: closed rule: dial_waves.induct)
    case (1 runs k p order failures)
    show ?case
    proof (cases "order = []")
      case True
      then show ?thesis using 1(3) by (auto simp: dial_waves.simps waves_ran_def intro!: exI [of _ 0])
    next
      case False
      obtain p1 res wf cl where w: "dialEndpointWave p (take endpointRaceWidth order) (runs k) = (p1, res, wf, cl)"
        by (cases "dialEndpointWave p (take endpointRaceWidth order) (runs k)") blast
      note acc = wave_accounts [OF route_runs_ok_head [OF 1(2)] w]
      show ?thesis
      proof (cases res)
        case (Some found)
        obtain c a where found: "found = (c, a)" by fastforce
        have r: "closed = cl" "r = Inr (c, a)" "p' = p1"
          using 1(3) False w Some found by (simp_all add: dial_waves.simps [of runs k p order])
        have A: "mset (wave_opened (runs k)) = mset closed + {#c#}"
          using acc(1) Some found r(1) by simp
        then have c: "c \<in> set (wave_opened (runs k))" by (metis set_mset_mset union_single_eq_member add_mset_add_single)
        have B: "a \<in> set (take endpointRaceWidth order) \<and> \<not> mhas (up_health p') a"
          using acc(2) [of c a] Some found r(3) by simp
        then have "waves_ran order (\<lambda>i. runs (k + i)) r (Suc 0)" using c by (simp add: waves_ran_def r(2))
        then show ?thesis
          using A B by (auto simp: r(2) dest: in_set_takeD intro!: exI [of _ "Suc 0"])
      next
        case None
        show ?thesis
        proof (cases "wr_ctxErr (runs k)")
          case (Some e)
          then have "closed = cl" "r = Inl (ContextError e)"
            using 1(3) False w None by (simp_all add: dial_waves.simps [of runs k p order])
          then show ?thesis
            using acc(1) None Some by (auto simp: waves_ran_def intro!: exI [of _ "Suc 0"])
        next
          case none: None
          obtain cl' where rec: "dial_waves runs (Suc k) p1 (drop endpointRaceWidth order) (failures @ wf)
              = (p', r, cl')" and cl: "closed = cl @ cl'"
            using 1(3) False w None none
            by (auto simp: dial_waves.simps [of runs k p order] split: prod.splits)
          from 1(1) [OF False w [symmetric] refl refl refl None none route_runs_ok_tail [OF 1(2)] rec]
          obtain m where m: "waves_ran (drop endpointRaceWidth order) (\<lambda>i. runs (Suc k + i)) r m"
              "mset (concat (map (\<lambda>i. wave_opened (runs (Suc k + i))) [0..<m])) =
               mset cl' + (case r of Inl e \<Rightarrow> {#} | Inr (c, a) \<Rightarrow> {#c#})"
            and a: "\<forall>c a. r = Inr (c, a) \<longrightarrow> a \<in> set (drop endpointRaceWidth order) \<and> \<not> mhas (up_health p') a"
              "\<forall>e. r \<noteq> Inl (RouteText e)"
            by blast
          have "waves_ran order (\<lambda>i. runs (k + i)) r (Suc m)"
            using m(1) none a(2) by (intro waves_ran_Suc False) (simp_all add: comp_def)
          moreover have "map (\<lambda>i. wave_opened (runs (k + i))) [0..<Suc m]
              = wave_opened (runs k) # map (\<lambda>i. wave_opened (runs (Suc k + i))) [0..<m]"
            by (simp add: map_upt_Suc del: upt_Suc)
          then have "mset (concat (map (\<lambda>i. wave_opened (runs (k + i))) [0..<Suc m])) =
              mset closed + (case r of Inl e \<Rightarrow> {#} | Inr (c, a) \<Rightarrow> {#c#})"
            using m(2) acc(1) None cl by simp
          ultimately show ?thesis using a by (auto dest: in_set_dropD simp del: upt_Suc)
        qed
      qed
    qed
  qed
  then show "\<exists>m. ?ran m" and "r = Inr (c, a) \<Longrightarrow> a \<in> set order \<and> \<not> mhas (up_health p') a" by blast+
qed

lemma eligible_loop_subset: "set (snd (eligible_loop now h as)) \<subseteq> set as"
proof (induction as arbitrary: h)
  case (Cons b bs)
  show ?case
    using Cons.IH [of h] Cons.IH [of "mset_key b _ h"]
    by (auto simp: eligible_loop_Cons simp del: eligible_loop.simps split: option.split)
qed simp

lemma ordered_subset: "set (snd (ordered p as now)) \<subseteq> set as"
proof (cases "as = []")
  case False
  have "set (drop n as @ take n as) \<subseteq> set as" for n
    by (auto dest: in_set_dropD in_set_takeD)
  then show ?thesis unfolding ordered_proj [OF False] using eligible_loop_subset by (rule order_trans [rotated])
qed (simp add: ordered_def)

text \<open>
  Claim C15. No connection leaks and none is invented: whatever the order of arrivals, the outcomes of
  the dials and the moment the client goes away, every connection opened in the waves that ran (all waves
  up to the first that found a connection or after which the client was gone) is closed exactly once,
  except the one returned, which was opened in the last of them; the address returned with it is one of
  the route's addresses and its failure record is cleared.
\<close>

theorem route_dial_accounts:
  assumes "route_runs_ok (snd (ordered p addresses now)) 0 runs"
    and "dialTelegramRoute runs p addresses now = (p', r, closed)"
  shows "(\<exists>m. waves_ran (snd (ordered p addresses now)) runs r m
         \<and> mset (concat (map (\<lambda>i. wave_opened (runs i)) [0..<m])) =
             mset closed + (case r of Inl e \<Rightarrow> {#} | Inr (c, a) \<Rightarrow> {#c#}))
       \<and> (\<forall>c a. r = Inr (c, a) \<longrightarrow> a \<in> set addresses \<and> \<not> mhas (up_health p') a)"
proof (cases "addresses = [] \<or> snd (ordered p addresses now) = []")
  case True
  then have "closed = []" "\<exists>e. r = Inl (RouteText e)"
    using assms(2) by (auto simp: dialTelegramRoute_def split: prod.splits if_splits)
  then show ?thesis by (auto simp: waves_ran_def intro!: exI [of _ 0])
next
  case False
  then have d: "dial_waves runs 0 (fst (ordered p addresses now)) (snd (ordered p addresses now)) []
      = (p', r, closed)"
    using assms(2) by (auto simp: dialTelegramRoute_def split: prod.splits)
  show ?thesis
    using dial_waves_accounts(1) [OF assms(1) d] dial_waves_accounts(2) [OF assms(1) d]
      ordered_subset [of p addresses now] by auto
qed

definition sample_run :: waveRun where
  "sample_run = \<lparr>wr_arrivals = [(6, ''b'', Dialled (Some 8) None None), (9, ''a'', Dialled (Some 7) None None)],
     wr_parentAt = None, wr_parentErr = Canceled, wr_ctxErr = None\<rparr>"

definition sample_runs :: "nat \<Rightarrow> waveRun" where
  "sample_runs k = (if k = 0 then sample_run else sample_run\<lparr>wr_arrivals := []\<rparr>)"

lemma sample_order: "ordered newUpstreamPool [''a'', ''b''] 5 = (\<lparr>up_health = [], up_cursor = 1\<rparr>, [''a'', ''b''])"
  by (simp add: ordered_def newUpstreamPool_def sliceStable_def retry_less_def zeroEndpoint_def)

lemma sample_runs_ok: "route_runs_ok [''a'', ''b''] 0 sample_runs"
proof -
  have "take endpointRaceWidth (drop (i * endpointRaceWidth) [''a'', ''b'']) = []" if "0 < i" for i
    using that by (simp add: endpointRaceWidth_def)
  then show ?thesis
    by (auto simp: route_runs_ok_def run_ok_def wave_valid_def sample_runs_def sample_run_def
        endpointRaceWidth_def)
qed

lemma sample_dial: "dialTelegramRoute sample_runs newUpstreamPool [''a'', ''b''] 5 =
   (\<lparr>up_health = [], up_cursor = 1\<rparr>, Inr (8, ''b''), [7])"
  by (simp add: dialTelegramRoute_def sample_order dial_waves.simps dialEndpointWave_def
      wave_loop.simps sample_runs_def sample_run_def wave_results_def wave_self_closed_def
      endpointRaceWidth_def succeeded_def closeLateEndpointConnections_def)

lemma route_dial_accounts_witness:
  "\<exists>m. waves_ran [''a'', ''b''] sample_runs (Inr (8, ''b'')) m
     \<and> mset (concat (map (\<lambda>i. wave_opened (sample_runs i)) [0..<m])) = mset [7, 8]"
proof -
  have "route_runs_ok (snd (ordered newUpstreamPool [''a'', ''b''] 5)) 0 sample_runs"
    using sample_runs_ok by (simp add: sample_order)
  from route_dial_accounts [OF this sample_dial] show ?thesis by (simp add: add_mset_commute sample_order)
qed

text \<open>
  A client that goes away does not poison the pool: a wave in which every attempt ended with
  the cancellation leaves the recorded health of all endpoints untouched and returns no connection.
\<close>

theorem cancelled_wave_neutral:
  assumes "\<forall>(now, target, out) \<in> set (wr_arrivals run). dr_err (fst (race_goroutine target out)) = Some Canceled"
    and "dialEndpointWave p addresses run = (p', res, failures, closed)"
  shows "p' = p \<and> res = None \<and> set failures \<subseteq> {([], Some (wr_parentErr run))}"
proof -
  have *: "p' = p \<and> res = None \<and> set fs' \<subseteq> set fs \<union> {([], Some e)}"
    if "\<forall>(now, r) \<in> set xs. dr_err r = Some Canceled"
      and "wave_loop p n received parentAt e xs fs = (p', res, fs', late)"
    for xs n received fs fs' late parentAt e
    using that
  proof (induction xs arbitrary: received fs)
    case Nil
    then show ?case by (auto simp: wave_loop.simps split: if_splits)
  next
    case (Cons x xs)
    obtain now r where x: "x = (now, r)" by fastforce
    consider "n \<le> received" | "received < n" "parentAt = Some received"
      | "received < n" "parentAt \<noteq> Some received" by linarith
    then show ?case
    proof cases
      case 1
      then show ?thesis using Cons.prems(2) by (auto simp: wave_loop.simps)
    next
      case 2
      then show ?thesis using Cons.prems(2) by (auto simp: wave_loop_parent)
    next
      case 3
      have c: "dr_err r = Some Canceled" using Cons.prems(1) x by simp
      have "wave_loop p n (Suc received) parentAt e xs fs = (p', res, fs', late)"
        using Cons.prems(2) wave_loop_other [OF 3, of r] c x by simp
      then show ?thesis using Cons.IH Cons.prems(1) by simp
    qed
  qed
  have all: "\<forall>(now, r) \<in> set (wave_results run). dr_err r = Some Canceled"
    using assms(1) by (auto simp: wave_results_def)
  show ?thesis
    using assms(2) * [OF all, of "length addresses" 0 "wr_parentAt run" "wr_parentErr run" "[]"]
    by (auto simp: dialEndpointWave_def split: if_splits prod.splits)
qed

lemma cancelled_wave_neutral_witness:
  "fst (dialEndpointWave newUpstreamPool [''a''] \<lparr>wr_arrivals = [(3, ''a'', EndedWaiting Canceled)],
     wr_parentAt = Some 1, wr_parentErr = Canceled, wr_ctxErr = Some Canceled\<rparr>) = newUpstreamPool"
proof -
  let ?run = "\<lparr>wr_arrivals = [(3, ''a'', EndedWaiting Canceled)],
     wr_parentAt = Some 1, wr_parentErr = Canceled, wr_ctxErr = Some Canceled\<rparr>"
  obtain p' res fs cl where w: "dialEndpointWave newUpstreamPool [''a''] ?run = (p', res, fs, cl)"
    by (cases "dialEndpointWave newUpstreamPool [''a''] ?run") blast
  have "p' = newUpstreamPool"
    by (rule cancelled_wave_neutral [THEN conjunct1, OF _ w]) simp
  then show ?thesis using w by simp
qed

end
