(* ===== verification/WebSocket_Frames.thy ===== *)
theory WebSocket_Frames
  imports Go_Base64
begin

unbundle bit_operations_syntax

text \<open>
  The frame layer of \<open>internal/relay/websocket.go\<close>: reading and unmasking client frames, reassembling
  fragmented messages, writing server frames and close frames, and the close codes. A connection
  that is read is the list of bytes it still delivers before it ends or fails; \<open>io.ReadFull\<close> takes
  the requested number of them or fails. Why it fails is never looked at (\<open>ReadIO\<close>).
\<close>

type_synonym byte = "8 word"

definition opContinuation :: byte where "opContinuation = 0x0"
definition opText :: byte where "opText = 0x1"
definition opBinary :: byte where "opBinary = 0x2"
definition opClose :: byte where "opClose = 0x8"
definition opPing :: byte where "opPing = 0x9"
definition opPong :: byte where "opPong = 0xA"

lemmas op_defs [frame_simps] =
  opContinuation_def opText_def opBinary_def opClose_def opPing_def opPong_def

record websocketFrame =
  wf_fin :: bool
  wf_opcode :: byte
  wf_payload :: "byte list"

section \<open>Errors\<close>

datatype readError = ReadIO | WsError "16 word" string

definition protocolError :: "string \<Rightarrow> readError" where
  "protocolError reason = WsError 1002 reason"

definition messageTooBig :: "string \<Rightarrow> readError" where
  "messageTooBig reason = WsError 1009 reason"

definition invalidPayload :: "string \<Rightarrow> readError" where
  "invalidPayload reason = WsError 1007 reason"

fun closeForReadError :: "readError \<Rightarrow> 16 word \<times> string" where
  "closeForReadError (WsError status reason) = (status, reason)"
| "closeForReadError ReadIO = (1002, ''protocol error'')"

lemmas error_defs [frame_simps] = protocolError_def messageTooBig_def invalidPayload_def

section \<open>Reading a client frame\<close>

definition readFull :: "byte list \<Rightarrow> nat \<Rightarrow> (byte list \<times> byte list) option" where
  "readFull s n = (if n \<le> length s then Some (take n s, drop n s) else None)"

text \<open>The extended length, as the code shifts it into a \<open>uint64\<close> that starts as 127.\<close>

definition shift_in :: "64 word \<Rightarrow> byte list \<Rightarrow> 64 word" where
  "shift_in n0 ext = foldl (\<lambda>n b. push_bit 8 n OR ucast b) n0 ext"

definition frame_length :: "byte \<Rightarrow> byte list \<Rightarrow> readError + 64 word \<times> byte list" where
  "frame_length h1 s =
     (let len = ucast (h1 AND 0x7f) :: 64 word
      in if len = 126 then
           (case readFull s 2 of
              None \<Rightarrow> Inl ReadIO
            | Some (ext, s) \<Rightarrow>
                (let len = push_bit 8 (ucast (ext ! 0)) OR ucast (ext ! 1)
                 in if len < 126 then Inl (protocolError ''non-minimal payload length'')
                    else Inr (len, s)))
         else if len = 127 then
           (case readFull s 8 of
              None \<Rightarrow> Inl ReadIO
            | Some (ext, s) \<Rightarrow>
                if (ext ! 0) AND 0x80 \<noteq> 0 then Inl (protocolError ''invalid 64-bit payload length'')
                else
                  (let len = shift_in len ext
                   in if len \<le> 0xffff then Inl (protocolError ''non-minimal payload length'')
                      else Inr (len, s)))
         else Inr (len, s))"

definition unmask :: "byte list \<Rightarrow> byte list \<Rightarrow> byte list" where
  "unmask key payload = map (\<lambda>i. payload ! i XOR key ! (i mod 4)) [0..<length payload]"

definition readClientFrame :: "byte list \<Rightarrow> int \<Rightarrow> readError + websocketFrame \<times> byte list" where
  "readClientFrame s maxMessageBytes =
     (case readFull s 2 of
        None \<Rightarrow> Inl ReadIO
      | Some (header, s) \<Rightarrow>
          let fin = (header ! 0 AND 0x80 \<noteq> 0);
              opcode = header ! 0 AND 0x0f
          in if header ! 0 AND 0x70 \<noteq> 0 then Inl (protocolError ''RSV bits are not supported'')
             else if (0x3 \<le> opcode \<and> opcode \<le> 0x7) \<or> 0xB \<le> opcode
             then Inl (protocolError ''reserved opcode'')
             else if header ! 1 AND 0x80 = 0 then Inl (protocolError ''client frame is not masked'')
             else
               (case frame_length (header ! 1) s of
                  Inl e \<Rightarrow> Inl e
                | Inr (len, s) \<Rightarrow>
                    if opClose \<le> opcode \<and> (\<not> fin \<or> len > 125)
                    then Inl (protocolError ''invalid control frame'')
                    else if maxMessageBytes \<le> 0 \<or> int (unat len) > maxMessageBytes
                    then Inl (messageTooBig ''message too large'')
                    else
                      (case readFull s 4 of
                         None \<Rightarrow> Inl ReadIO
                       | Some (key, s) \<Rightarrow>
                           (case readFull s (unat len) of
                              None \<Rightarrow> Inl ReadIO
                            | Some (payload, s) \<Rightarrow>
                                Inr (\<lparr>wf_fin = fin, wf_opcode = opcode, wf_payload = unmask key payload\<rparr>,
                                     s)))))"

section \<open>Reassembly\<close>

record clientFrameReader =
  fr_reader :: "byte list"
  fr_maxMessageBytes :: int
  fr_fragmentedOpcode :: byte
  fr_fragmented :: "byte list"

lemma readFull_length: "readFull s n = Some (a, b) \<Longrightarrow> length s = n + length b \<and> length a = n"
  by (auto simp: readFull_def split: if_splits)

lemma frame_length_length: "frame_length h s = Inr (n, s') \<Longrightarrow> length s' \<le> length s"
  by (auto simp: frame_length_def Let_def split: if_splits option.splits dest!: readFull_length)

lemma readClientFrame_length: "readClientFrame s m = Inr (f, s') \<Longrightarrow> length s' < length s"
  by (auto simp: readClientFrame_def Let_def
      split: if_splits option.splits sum.splits prod.splits
      dest!: readFull_length frame_length_length)

text \<open>The loop of \<open>nextEvent\<close>; each turn consumes at least a frame header.\<close>

function nextEvent :: "clientFrameReader \<Rightarrow> clientFrameReader \<times> (readError + byte \<times> byte list)" where
  "nextEvent r =
     (case readClientFrame (fr_reader r) (fr_maxMessageBytes r) of
        Inl e \<Rightarrow> (r, Inl e)
      | Inr (frame, s) \<Rightarrow>
          let r = r\<lparr>fr_reader := s\<rparr>; opcode = wf_opcode frame; payload = wf_payload frame
          in if opcode = opClose \<or> opcode = opPing \<or> opcode = opPong then (r, Inr (opcode, payload))
             else if opcode = opText then (r, Inl (protocolError ''text frames are not supported''))
             else if opcode = opBinary then
               (if fr_fragmentedOpcode r \<noteq> 0
                then (r, Inl (protocolError ''new data frame before fragmented message completed''))
                else if wf_fin frame then (r, Inr (opBinary, payload))
                else nextEvent (r\<lparr>fr_fragmentedOpcode := opBinary, fr_fragmented := payload\<rparr>))
             else if opcode = opContinuation then
               (if fr_fragmentedOpcode r = 0
                then (r, Inl (protocolError ''unexpected continuation frame''))
                else if int (length (fr_fragmented r)) > fr_maxMessageBytes r - int (length payload)
                then (r, Inl (messageTooBig ''message too large''))
                else
                  (let message = fr_fragmented r @ payload
                   in if wf_fin frame
                      then (r\<lparr>fr_fragmented := [], fr_fragmentedOpcode := 0\<rparr>, Inr (opBinary, message))
                      else nextEvent (r\<lparr>fr_fragmented := message\<rparr>)))
             else (r, Inl (protocolError (''unsupported opcode '' @ decimal (unat opcode)))))"
  by pat_completeness auto
termination
  by (relation "measure (\<lambda>r. length (fr_reader r))") (auto dest!: readClientFrame_length)

declare nextEvent.simps [simp del]

section \<open>Close frames\<close>

definition validCloseCode :: "16 word \<Rightarrow> bool" where
  "validCloseCode status =
     (if 3000 \<le> status \<and> status \<le> 4999 then True
      else if status < 1000 \<or> 1016 \<le> status then False
      else \<not> (status = 1004 \<or> status = 1005 \<or> status = 1006 \<or> status = 1015))"

definition be_uint16 :: "byte list \<Rightarrow> 16 word" where
  "be_uint16 b = push_bit 8 (ucast (b ! 0)) OR ucast (b ! 1)"

definition put_uint16 :: "16 word \<Rightarrow> byte list" where
  "put_uint16 v = [ucast (drop_bit 8 v), ucast v]"

definition validateClosePayload :: "byte list \<Rightarrow> readError option" where
  "validateClosePayload payload =
     (if payload = [] then None
      else if length payload = 1 then Some (protocolError ''invalid close payload'')
      else if \<not> validCloseCode (be_uint16 (take 2 payload))
      then Some (protocolError ''invalid close code'')
      else if \<not> utf8_valid (map unat (drop 2 payload))
      then Some (invalidPayload ''invalid close reason'')
      else None)"

section \<open>Writing\<close>

text \<open>
  A writer is asked to write a slice and answers how many bytes it took and whether it failed; the
  answers are the argument \<open>answer\<close> (by the number of the call and the bytes offered). The result
  is the bytes that reached the peer and the outcome; \<open>WritePanic\<close> is a slice index out of range.
\<close>

datatype writeResult = WriteOk | WriteError | ShortWrite | WritePanic

function writeAll ::
  "(nat \<Rightarrow> byte list \<Rightarrow> int \<times> bool) \<Rightarrow> nat \<Rightarrow> byte list \<Rightarrow> byte list \<Rightarrow> byte list \<times> nat \<times> writeResult" where
  "writeAll answer k sent payload =
     (if payload = [] then (sent, k, WriteOk)
      else
        (let (written, failure) = answer k payload; sent' = sent @ take (nat written) payload
         in if failure then (sent', Suc k, WriteError)
            else if written \<le> 0 then (sent', Suc k, ShortWrite)
            else if written > int (length payload) then (sent', Suc k, WritePanic)
            else writeAll answer (Suc k) sent' (drop (nat written) payload)))"
  by pat_completeness auto
termination
  by (relation "measure (\<lambda>(answer, k, sent, payload). length payload)") auto

declare writeAll.simps [simp del]

definition frame_header :: "byte \<Rightarrow> nat \<Rightarrow> byte list" where
  "frame_header opcode len =
     (let n = of_nat len :: 64 word
      in [0x80 OR opcode]
         @ (if len < 126 then [ucast n]
            else if len \<le> 0xffff then [126, ucast (drop_bit 8 n), ucast n]
            else [127, ucast (drop_bit 56 n), ucast (drop_bit 48 n), ucast (drop_bit 40 n),
                  ucast (drop_bit 32 n), ucast (drop_bit 24 n), ucast (drop_bit 16 n),
                  ucast (drop_bit 8 n), ucast n]))"

definition writeFrame ::
  "(nat \<Rightarrow> byte list \<Rightarrow> int \<times> bool) \<Rightarrow> nat \<Rightarrow> byte list \<Rightarrow> byte \<Rightarrow> byte list
   \<Rightarrow> byte list \<times> nat \<times> writeResult" where
  "writeFrame answer k sent opcode payload =
     (case writeAll answer k sent (frame_header opcode (length payload)) of
        (sent', k', WriteOk) \<Rightarrow> writeAll answer k' sent' payload
      | (sent', k', e) \<Rightarrow> (sent', k', e))"

definition close_payload :: "16 word \<Rightarrow> string \<Rightarrow> byte list" where
  "close_payload status reason =
     (let payload = put_uint16 status @ map (\<lambda>c. of_nat (code c)) reason
      in if length payload > 125 then take 125 payload else payload)"

definition writeClose ::
  "(nat \<Rightarrow> byte list \<Rightarrow> int \<times> bool) \<Rightarrow> nat \<Rightarrow> byte list \<Rightarrow> 16 word \<Rightarrow> string
   \<Rightarrow> byte list \<times> nat \<times> writeResult" where
  "writeClose answer k sent status reason =
     writeFrame answer k sent opClose (close_payload status reason)"

end
