(* ===== verification/Frames_Props.thy ===== *)
theory Frames_Props
  imports WebSocket_Frames Relay_Prelude
begin

text \<open>
  Properties of the frame layer: the reader against a reference encoder of RFC 6455 frames, the
  reassembly of fragmented messages and its size bound, the close codes, and the bytes a server
  frame puts on the wire whatever short writes the connection makes.
\<close>

section \<open>Bytes and shifts\<close>

lemma byte_less: "unat (h::byte) < 256"
  using unsigned_less [of h] by simp

lemma bit_byte: "bit (h::byte) n \<longleftrightarrow> odd (unat h div 2 ^ n)"
  by (simp only: bit_iff_odd [symmetric] bit_unsigned_iff) (auto dest: bit_imp_le_length)

lemma div_128: "n < 256 \<Longrightarrow> (n :: nat) div 128 = (if n < 128 then 0 else 1)"
  by (cases "n < 128") (auto intro!: div_nat_eqI)

lemma and_0x80: "(h::byte) AND 0x80 = 0 \<longleftrightarrow> unat h < 128"
proof -
  have "h AND 0x80 = 0 \<longleftrightarrow> \<not> bit h 7"
    using and_exp_eq_0_iff_not_bit [of h 7] by simp
  also have "\<dots> \<longleftrightarrow> even (unat h div 128)" by (simp add: bit_byte)
  finally show ?thesis unfolding div_128 [OF byte_less] by simp
qed

lemma and_0x70: "(h::byte) AND 0x70 = 0 \<longleftrightarrow> unat h mod 128 < 16"
proof -
  have m: "(0x70 :: byte) = push_bit 4 (mask 3)" by (simp add: mask_eq_exp_minus_1)
  have e: "h AND 0x70 = push_bit 4 (take_bit 3 (drop_bit 4 h))"
    unfolding m by (rule bit_word_eqI) (auto simp: bit_simps)
  have d: "take_bit 3 (drop_bit 4 h) = drop_bit 4 (h AND 0x70)"
    unfolding m by (rule bit_word_eqI) (auto simp: bit_simps)
  have "h AND 0x70 = 0 \<longleftrightarrow> unat (take_bit 3 (drop_bit 4 h)) = 0"
    using d e by (metis drop_bit_of_0 push_bit_of_0 unat_eq_zero)
  also have "unat (take_bit 3 (drop_bit 4 h)) = (unat h div 16) mod 8"
    unfolding unsigned_take_bit_eq drop_bit_eq_div unat_div by (simp add: take_bit_eq_mod)
  also have "\<dots> = (unat h mod 128) div 16"
    using mod_mult2_eq [of "unat h" 16 8] by simp
  finally show ?thesis by (simp add: div_eq_0_iff)
qed

lemma push_byte:
  "push_bit 8 (of_nat n :: 64 word) OR ucast (b::byte) = of_nat (256 * n + unat b)"
proof -
  have "push_bit 8 (of_nat n :: 64 word) OR ucast b = push_bit 8 (of_nat n) + ucast b"
    by (rule disjunctive_add [symmetric]) (auto simp: bit_simps dest: bit_imp_le_length)
  also have "\<dots> = of_nat (256 * n + unat b)"
    by (simp add: push_bit_eq_mult)
  finally show ?thesis .
qed

lemma and_0x0f: "unat ((h::byte) AND 0x0f) = unat h mod 16"
proof -
  have "h AND 0x0f = take_bit 4 h" by (simp only: take_bit_eq_mask mask_eq_exp_minus_1) simp
  also have "unat \<dots> = take_bit 4 (unat h)" by (simp only: unsigned_take_bit_eq)
  finally show ?thesis by (simp only: take_bit_eq_mod) simp
qed

lemma and_0x7f: "unat ((h::byte) AND 0x7f) = unat h mod 128"
proof -
  have "h AND 0x7f = take_bit 7 h" by (simp only: take_bit_eq_mask mask_eq_exp_minus_1) simp
  also have "unat \<dots> = take_bit 7 (unat h)" by (simp only: unsigned_take_bit_eq)
  finally show ?thesis by (simp only: take_bit_eq_mod) simp
qed

lemma unat64: "n < 2 ^ 64 \<Longrightarrow> unat (of_nat n :: 64 word) = n"
  by (simp add: unat_of_nat)

lemma unat8: "n < 256 \<Longrightarrow> unat (of_nat n :: byte) = n"
  by (simp add: unat_of_nat)

section \<open>Big-endian numbers\<close>

fun be_bytes :: "nat \<Rightarrow> nat \<Rightarrow> byte list" where
  "be_bytes 0 n = []"
| "be_bytes (Suc k) n = of_nat (n div 256 ^ k) # be_bytes k n"

fun be_value :: "byte list \<Rightarrow> nat" where
  "be_value [] = 0"
| "be_value (b # bs) = unat b * 256 ^ length bs + be_value bs"

lemma length_be_bytes [simp]: "length (be_bytes k n) = k"
  by (induction k) auto

lemma be_value_less: "be_value bs < 256 ^ length bs"
proof (induction bs)
  case (Cons b bs)
  define X :: nat where "X = 256 ^ length bs"
  have "Suc (unat b) * X \<le> 256 * X"
    by (rule mult_le_mono1) (use byte_less [of b] in simp)
  moreover have "be_value bs < X" using Cons by (simp add: X_def)
  ultimately have "unat b * X + be_value bs < 256 * X" unfolding mult_Suc by linarith
  then show ?case by (simp add: X_def)
qed simp

lemma be_value_be_bytes: "be_value (be_bytes k n) = n mod 256 ^ k"
proof (induction k)
  case (Suc k)
  have "n mod 256 ^ Suc k = 256 ^ k * (n div 256 ^ k mod 256) + n mod 256 ^ k"
    using mod_mult2_eq [of n "256 ^ k" 256] by (simp add: mult.commute)
  then show ?case using Suc by (simp add: unat_of_nat mult.commute)
qed simp

lemma be_bytes_cong: "n mod 256 ^ k = m mod 256 ^ k \<Longrightarrow> be_bytes k n = be_bytes k m"
proof (induction k)
  case (Suc k)
  have e: "x div 256 ^ k mod 256 = (x mod 256 ^ Suc k) div 256 ^ k" for x :: nat
    using mod_mult2_eq [of x "256 ^ k" 256] by (simp add: mult.commute)
  have "n mod 256 ^ k = m mod 256 ^ k"
    using Suc.prems by (metis mod_mod_cancel dvd_triv_right power_Suc)
  moreover have "(of_nat (n div 256 ^ k) :: byte) = of_nat (m div 256 ^ k)"
    by (simp add: word_of_nat_eq_iff take_bit_eq_mod e Suc.prems del: power_Suc)
  ultimately show ?case using Suc.IH by simp
qed simp

lemma be_bytes_be_value: "be_bytes (length bs) (be_value bs) = bs"
proof (induction bs)
  case (Cons b bs)
  have "(unat b * 256 ^ length bs + be_value bs) div 256 ^ length bs = unat b"
    using be_value_less [of bs] by simp
  moreover have "be_bytes (length bs) (unat b * 256 ^ length bs + be_value bs)
      = be_bytes (length bs) (be_value bs)"
    by (rule be_bytes_cong) simp
  ultimately show ?case using Cons by simp
qed simp

lemma shift_in_value: "shift_in (of_nat n) ext = of_nat (n * 256 ^ length ext + be_value ext)"
proof (induction ext arbitrary: n)
  case (Cons b bs)
  have "shift_in (of_nat n) (b # bs) = shift_in (of_nat (256 * n + unat b)) bs"
    unfolding shift_in_def foldl.simps push_byte ..
  then show ?case unfolding Cons.IH by (simp add: algebra_simps)
qed (simp add: shift_in_def)

text \<open>The seven bits the code leaves in \<open>length\<close> are shifted out by the eight bytes.\<close>

lemma shift_in_127:
  assumes "length ext = 8"
  shows "unat (shift_in 127 ext) = be_value ext"
proof -
  have "shift_in 127 ext = of_nat (127 * 256 ^ 8 + be_value ext)"
    using shift_in_value [of 127 ext] assms by simp
  then have "unat (shift_in 127 ext) = (127 * 256 ^ 8 + be_value ext) mod 2 ^ 64"
    by (simp only: unat_of_nat) simp
  also have "(127 * 256 ^ 8 :: nat) = 127 * 2 ^ 64" by simp
  also have "(127 * 2 ^ 64 + be_value ext) mod 2 ^ 64 = be_value ext mod 2 ^ 64"
    by (rule mod_mult_self3)
  finally show ?thesis using be_value_less [of ext] assms by simp
qed

section \<open>The reference encoding\<close>

text \<open>
  An RFC 6455 frame: the first byte, the mask bit with the shortest length encoding, and for a
  client frame the key and the masked payload.
\<close>

definition length_bytes :: "nat \<Rightarrow> nat \<Rightarrow> byte list" where
  "length_bytes maskBit n =
     (if n < 126 then [of_nat (maskBit + n)]
      else if n < 65536 then of_nat (maskBit + 126) # be_bytes 2 n
      else of_nat (maskBit + 127) # be_bytes 8 n)"

definition rfc_header :: "bool \<Rightarrow> byte \<Rightarrow> nat \<Rightarrow> nat \<Rightarrow> byte list" where
  "rfc_header fin opcode maskBit n =
     of_nat ((if fin then 128 else 0) + unat opcode) # length_bytes maskBit n"

definition client_frame :: "byte list \<Rightarrow> websocketFrame \<Rightarrow> byte list" where
  "client_frame key f =
     rfc_header (wf_fin f) (wf_opcode f) 128 (length (wf_payload f)) @ key @ unmask key (wf_payload f)"

text \<open>The frames a reader with a given limit takes; the last bound is that of a 63-bit length.\<close>

definition valid_frame :: "int \<Rightarrow> websocketFrame \<Rightarrow> bool" where
  "valid_frame m f \<longleftrightarrow>
     unat (wf_opcode f) \<in> {0, 1, 2, 8, 9, 10}
     \<and> (8 \<le> unat (wf_opcode f) \<longrightarrow> wf_fin f \<and> length (wf_payload f) \<le> 125)
     \<and> 0 < m \<and> int (length (wf_payload f)) \<le> m \<and> length (wf_payload f) < 2 ^ 63"

lemma length_unmask [simp]: "length (unmask key p) = length p"
  by (simp add: unmask_def)

lemma unmask_unmask [simp]: "unmask key (unmask key p) = p"
  by (rule nth_equalityI) (simp_all add: unmask_def xor.assoc)

lemma two_bytes: "length ext = 2 \<Longrightarrow>
  unat (push_bit 8 (ucast (ext ! 0)) OR ucast (ext ! 1) :: 64 word) = be_value ext"
proof -
  assume "length ext = 2"
  then obtain a b where e: "ext = [a, b]"
    by (cases ext; cases "tl ext") auto
  have "(push_bit 8 (ucast a) OR ucast b :: 64 word) = of_nat (256 * unat a + unat b)"
    using push_byte [of "unat a" b] by simp
  moreover have "256 * unat a + unat b < 2 ^ 64" using byte_less [of a] byte_less [of b] by simp
  ultimately show ?thesis unfolding e by (simp add: unat64 del: of_nat_add of_nat_mult)
qed

lemma ucast_and_0x7f: "unat (ucast ((h::byte) AND 0x7f) :: 64 word) = unat h mod 128"
proof -
  have "unat (ucast (h AND 0x7f) :: 64 word) = (unat h mod 128) mod 2 ^ 64"
    by (simp only: unsigned_ucast_eq and_0x7f take_bit_eq_mod) simp
  then show ?thesis by simp
qed

lemma length_head:
  "ucast ((h::byte) AND 0x7f) = (126 :: 64 word) \<longleftrightarrow> unat h mod 128 = 126"
  "ucast ((h::byte) AND 0x7f) = (127 :: 64 word) \<longleftrightarrow> unat h mod 128 = 127"
  using ucast_and_0x7f [of h] by (auto simp: word_unat_eq_iff)

lemma readFull_Some: "readFull s n = Some (a, b) \<longleftrightarrow> s = a @ b \<and> length a = n"
  by (auto simp: readFull_def append_eq_conv_conj)

text \<open>What the length decoder accepts: the shortest encoding of a 63-bit number.\<close>

definition length_code :: "byte \<Rightarrow> nat \<Rightarrow> byte list \<Rightarrow> byte list \<Rightarrow> bool" where
  "length_code h n s s' \<longleftrightarrow>
     (n < 126 \<and> unat h mod 128 = n \<and> s = s')
     \<or> (126 \<le> n \<and> n < 65536 \<and> unat h mod 128 = 126 \<and> s = be_bytes 2 n @ s')
     \<or> (65536 \<le> n \<and> n < 2 ^ 63 \<and> unat h mod 128 = 127 \<and> s = be_bytes 8 n @ s')"

lemma be_ext: "length ext = k \<Longrightarrow> be_value ext = n \<Longrightarrow> ext = be_bytes k n"
  using be_bytes_be_value [of ext] by simp

lemma be_top: "length ext = 8 \<Longrightarrow> (ext ! 0) AND 0x80 = 0 \<longleftrightarrow> be_value ext < 2 ^ 63"
proof -
  assume l: "length ext = 8"
  then obtain a r where e: "ext = a # r" "length r = 7" by (cases ext) auto
  have "be_value r < 256 ^ 7" using be_value_less [of r] e(2) by simp
  then show ?thesis unfolding e(1) and_0x80 nth_Cons_0 and_0x80 be_value.simps e(2) by auto
qed

lemma frame_length_iff:
  "frame_length h s = Inr (w, s') \<longleftrightarrow> length_code h (unat w) s s'"
proof -
  have m: "unat h mod 128 < 128" by simp
  then consider (short) "unat h mod 128 < 126" | (two) "unat h mod 128 = 126"
    | (eight) "unat h mod 128 = 127" by linarith
  then show ?thesis
  proof cases
    case short
    then have "frame_length h s = Inr (ucast (h AND 0x7f), s)"
      by (simp add: frame_length_def length_head del: ucast_and_0x7f)
    then have "frame_length h s = Inr (w, s') \<longleftrightarrow> unat w = unat h mod 128 \<and> s = s'"
      using ucast_and_0x7f [of h] by (auto simp: word_unat_eq_iff)
    then show ?thesis using short by (auto simp: length_code_def)
  next
    case two
    then have e: "ucast (h AND 0x7f) = (126 :: 64 word)" by (simp only: length_head)
    have "frame_length h s = Inr (w, s') \<longleftrightarrow>
        (\<exists>ext. readFull s 2 = Some (ext, s') \<and> unat w = be_value ext \<and> 126 \<le> unat w)"
    proof (cases "readFull s 2")
      case None
      then show ?thesis unfolding frame_length_def e Let_def by simp
    next
      case (Some x)
      obtain ext r where x: "x = (ext, r)" by fastforce
      define v :: "64 word" where "v = push_bit 8 (ucast (ext ! 0)) OR ucast (ext ! 1)"
      have n: "unat v = be_value ext"
        unfolding v_def using Some x by (intro two_bytes) (auto dest: readFull_length)
      have "frame_length h s =
          (if v < 126 then Inl (protocolError ''non-minimal payload length'') else Inr (v, r))"
        unfolding frame_length_def e Let_def v_def using Some x by simp
      moreover have "v < 126 \<longleftrightarrow> be_value ext < 126" unfolding word_less_nat_alt n by simp
      ultimately show ?thesis using Some x n by (auto simp: word_unat_eq_iff [of v w])
    qed
    also have "\<dots> \<longleftrightarrow> (126 \<le> unat w \<and> unat w < 65536 \<and> s = be_bytes 2 (unat w) @ s')"
    proof -
      have "unat w < 65536" if "length ext = 2" "unat w = be_value ext" for ext
        using be_value_less [of ext] that by simp
      moreover have "be_value (be_bytes 2 (unat w)) = unat w" if "unat w < 65536"
        using that by (simp add: be_value_be_bytes)
      ultimately show ?thesis by (auto simp: readFull_Some dest: be_ext)
    qed
    finally show ?thesis using two by (auto simp: length_code_def)
  next
    case eight
    then have e: "ucast (h AND 0x7f) = (127 :: 64 word)" by (simp only: length_head)
    have "frame_length h s = Inr (w, s') \<longleftrightarrow>
        (\<exists>ext. readFull s 8 = Some (ext, s') \<and> unat w = be_value ext \<and> be_value ext < 2 ^ 63
           \<and> 65536 \<le> unat w)"
    proof (cases "readFull s 8")
      case None
      then show ?thesis unfolding frame_length_def e Let_def by simp
    next
      case (Some x)
      obtain ext r where x: "x = (ext, r)" by fastforce
      have l: "length ext = 8" using Some x by (auto dest: readFull_length)
      note n = shift_in_127 [OF l]
      have "frame_length h s =
          (if ext ! 0 AND 0x80 \<noteq> 0 then Inl (protocolError ''invalid 64-bit payload length'')
           else if shift_in 127 ext \<le> 0xffff then Inl (protocolError ''non-minimal payload length'')
           else Inr (shift_in 127 ext, r))"
        unfolding frame_length_def e Let_def using Some x by simp
      moreover have "shift_in 127 ext \<le> 0xffff \<longleftrightarrow> be_value ext \<le> 65535"
        unfolding word_le_nat_alt n by simp
      ultimately show ?thesis
        using Some x n be_top [OF l] by (auto simp: word_unat_eq_iff [of "shift_in 127 ext" w])
    qed
    also have "\<dots> \<longleftrightarrow> (65536 \<le> unat w \<and> unat w < 2 ^ 63 \<and> s = be_bytes 8 (unat w) @ s')"
    proof -
      have "be_value (be_bytes 8 (unat w)) = unat w" if "unat w < 2 ^ 63"
        using that by (simp add: be_value_be_bytes)
      then show ?thesis by (auto simp: readFull_Some dest: be_ext)
    qed
    finally show ?thesis using eight by (auto simp: length_code_def)
  qed
qed

lemma byte_of_nat: "m < 256 \<Longrightarrow> (h :: byte) = of_nat m \<longleftrightarrow> unat h = m"
  by (auto simp: word_unat_eq_iff unat8)

lemma high_byte: "n < 256 \<Longrightarrow> 128 \<le> n \<Longrightarrow> (n :: nat) mod 128 = n - 128"
  by (subst mod_if) simp

lemma header_byte:
  fixes h op :: byte
  assumes "unat op < 16"
  shows "h = of_nat ((if fin then 128 else 0) + unat op) \<longleftrightarrow>
    h AND 0x70 = 0 \<and> (h AND 0x80 \<noteq> 0 \<longleftrightarrow> fin) \<and> h AND 0x0f = op"
proof -
  define n where "n = unat h"
  have n: "n < 256" using byte_less [of h] by (simp add: n_def)
  have "(h AND 0x0f = op) = (n mod 16 = unat op)"
    unfolding word_unat_eq_iff and_0x0f n_def ..
  moreover have "(if fin then 128 else 0) + unat op < 256" using assms by simp
  moreover have "n = (if fin then 128 else 0) + unat op \<longleftrightarrow>
      n mod 128 < 16 \<and> (\<not> n < 128 \<longleftrightarrow> fin) \<and> n mod 16 = unat op"
  proof (cases "n < 128")
    case True
    then show ?thesis using assms by auto
  next
    case False
    then obtain k where k: "n = 128 + k" "k < 128" using n by (metis le_add_diff_inverse not_less less_diff_conv2 add.commute numeral_Bit0)
    then have "n mod 128 = k" "n mod 16 = k mod 16" by (auto simp: mod_add_eq [symmetric])
    then show ?thesis using assms k by auto
  qed
  ultimately show ?thesis
    unfolding and_0x70 and_0x80 using byte_of_nat [of "(if fin then 128 else 0) + unat op" h]
    unfolding n_def by blast
qed

lemma length_byte:
  fixes h :: byte
  assumes "n < 128"
  shows "h = of_nat (128 + n) \<longleftrightarrow> h AND 0x80 \<noteq> 0 \<and> unat h mod 128 = n"
proof -
  have "h = of_nat (128 + n) \<longleftrightarrow> unat h = 128 + n" using assms by (intro byte_of_nat) simp
  also have "\<dots> \<longleftrightarrow> \<not> unat h < 128 \<and> unat h mod 128 = n"
    using byte_less [of h] high_byte [of "unat h"] assms by (cases "unat h < 128") auto
  finally show ?thesis unfolding and_0x80 .
qed

lemma masked_length:
  "(h AND 0x80 \<noteq> 0 \<and> length_code h n s s') \<longleftrightarrow> (h # s = length_bytes 128 n @ s' \<and> n < 2 ^ 63)"
proof -
  consider "n < 126" | "126 \<le> n" "n < 65536" | "65536 \<le> n" by linarith
  then show ?thesis
  proof cases
    case 1
    then show ?thesis
      using length_byte [of n h] by (auto simp: length_code_def length_bytes_def simp del: of_nat_add)
  next
    case 2
    then show ?thesis
      using length_byte [of 126 h] by (auto simp: length_code_def length_bytes_def simp del: be_bytes.simps)
  next
    case 3
    then show ?thesis
      using length_byte [of 127 h] by (auto simp: length_code_def length_bytes_def simp del: be_bytes.simps)
  qed
qed

lemma frame_opcode:
  "\<not> ((0x3 \<le> op \<and> op \<le> 0x7) \<or> 0xB \<le> op) \<and> unat (op :: byte) < 16 \<longleftrightarrow> unat op \<in> {0, 1, 2, 8, 9, 10}"
  unfolding word_le_nat_alt by auto

text \<open>\<open>readClientFrame\<close> as a sequence of accepted pieces.\<close>

lemma readClientFrame_pieces:
  "readClientFrame s m = Inr (f, rest) \<longleftrightarrow>
     (\<exists>h0 h1 s1 w s2 key s3 masked.
        s = h0 # h1 # s1 \<and> h0 AND 0x70 = 0
        \<and> \<not> ((0x3 \<le> h0 AND 0x0f \<and> h0 AND 0x0f \<le> 0x7) \<or> 0xB \<le> h0 AND 0x0f)
        \<and> h1 AND 0x80 \<noteq> 0 \<and> frame_length h1 s1 = Inr (w, s2)
        \<and> \<not> (opClose \<le> h0 AND 0x0f \<and> (\<not> h0 AND 0x80 \<noteq> 0 \<or> w > 125))
        \<and> \<not> (m \<le> 0 \<or> int (unat w) > m)
        \<and> readFull s2 4 = Some (key, s3) \<and> readFull s3 (unat w) = Some (masked, rest)
        \<and> f = \<lparr>wf_fin = (h0 AND 0x80 \<noteq> 0), wf_opcode = h0 AND 0x0f, wf_payload = unmask key masked\<rparr>)"
proof (cases "readFull s 2")
  case None
  then have "\<not> (\<exists>h0 h1 s1. s = h0 # h1 # s1)" by (auto simp: readFull_def)
  then show ?thesis using None by (auto simp: readClientFrame_def)
next
  case (Some x)
  then obtain h0 h1 s1 where s: "s = h0 # h1 # s1"
    by (cases s; cases "tl s") (auto simp: readFull_def split: if_splits)
  have two: "readFull (h0 # h1 # s1) 2 = Some ([h0, h1], s1)" by (simp add: readFull_def)
  show ?thesis
  proof (cases "frame_length h1 s1")
    case (Inl e)
    then show ?thesis by (simp add: readClientFrame_def s two Let_def)
  next
    case (Inr y)
    obtain w s2 where y: "y = (w, s2)" by fastforce
    have ex: "(\<exists>a b c. h0 = a \<and> h1 = b \<and> s1 = c \<and> P a b c) = P h0 h1 s1" for P by blast
    show ?thesis
      unfolding readClientFrame_def s two Inr y option.case prod.case Let_def nth_Cons_0
      using Inr y by (cases "readFull s2 4") (auto split: option.splits)
  qed
qed

lemma readClientFrame_accepts:
  "readClientFrame s m = Inr (f, rest) \<longleftrightarrow>
     valid_frame m f \<and> (\<exists>key. length key = 4 \<and> s = client_frame key f @ rest)"
proof
  assume "readClientFrame s m = Inr (f, rest)"
  then obtain h0 h1 s1 w s2 key s3 masked where p: "s = h0 # h1 # s1" "h0 AND 0x70 = 0"
    "\<not> ((0x3 \<le> h0 AND 0x0f \<and> h0 AND 0x0f \<le> 0x7) \<or> 0xB \<le> h0 AND 0x0f)"
    "h1 AND 0x80 \<noteq> 0" "frame_length h1 s1 = Inr (w, s2)"
    "\<not> (opClose \<le> h0 AND 0x0f \<and> (\<not> h0 AND 0x80 \<noteq> 0 \<or> w > 125))"
    "\<not> (m \<le> 0 \<or> int (unat w) > m)" "readFull s2 4 = Some (key, s3)"
    "readFull s3 (unat w) = Some (masked, rest)"
    "f = \<lparr>wf_fin = (h0 AND 0x80 \<noteq> 0), wf_opcode = h0 AND 0x0f, wf_payload = unmask key masked\<rparr>"
    unfolding readClientFrame_pieces by blast
  have op: "unat (h0 AND 0x0f) < 16" unfolding and_0x0f by simp
  have len: "h1 # s1 = length_bytes 128 (unat w) @ s2" "unat w < 2 ^ 63"
    using masked_length [of h1 "unat w" s1 s2] p(4,5) unfolding frame_length_iff by blast+
  have s2: "s2 = key @ masked @ rest" "length key = 4" "length masked = unat w"
    using p(8,9) by (simp_all add: readFull_Some)
  have "valid_frame m f"
    using p(3,6,7,10) op len(2) s2(3) frame_opcode [of "h0 AND 0x0f"]
    by (auto simp: valid_frame_def opClose_def word_le_nat_alt word_less_nat_alt)
  moreover have "s = client_frame key f @ rest"
    using header_byte [OF op, of h0 "h0 AND 0x80 \<noteq> 0"] p(1,2,10) len(1) s2
    by (simp add: client_frame_def rfc_header_def del: of_nat_add)
  ultimately show "valid_frame m f \<and> (\<exists>key. length key = 4 \<and> s = client_frame key f @ rest)"
    using s2(2) by blast
next
  assume "valid_frame m f \<and> (\<exists>key. length key = 4 \<and> s = client_frame key f @ rest)"
  then obtain key where v: "valid_frame m f" and key: "length key = 4"
    and s: "s = client_frame key f @ rest" by blast
  let ?n = "length (wf_payload f)" and ?op = "wf_opcode f"
  let ?h0 = "of_nat ((if wf_fin f then 128 else 0) + unat ?op) :: byte"
  have op: "unat ?op < 16" and n: "?n < 2 ^ 63" using v by (auto simp: valid_frame_def)
  note h0 = header_byte [OF op, of ?h0 "wf_fin f", THEN iffD1, OF refl]
  obtain h1 s1 where h1: "length_bytes 128 ?n @ key @ unmask key (wf_payload f) @ rest = h1 # s1"
    by (cases "length_bytes 128 ?n") (auto simp: length_bytes_def split: if_splits)
  have m: "h1 AND 0x80 \<noteq> 0" "length_code h1 ?n s1 (key @ unmask key (wf_payload f) @ rest)"
    using masked_length [of h1 ?n s1 "key @ unmask key (wf_payload f) @ rest"] h1 n by simp_all
  define w :: "64 word" where "w = of_nat ?n"
  have w: "unat w = ?n" unfolding w_def using n by (intro unat64) simp
  have fl: "frame_length h1 s1 = Inr (w, key @ unmask key (wf_payload f) @ rest)"
    unfolding frame_length_iff w by (rule m(2))
  have "s = ?h0 # h1 # s1" using s h1 by (simp add: client_frame_def rfc_header_def del: of_nat_add)
  moreover have "f = \<lparr>wf_fin = (?h0 AND 0x80 \<noteq> 0), wf_opcode = ?h0 AND 0x0f,
      wf_payload = unmask key (unmask key (wf_payload f))\<rparr>"
    using h0 by simp
  moreover have "\<not> ((0x3 \<le> ?op \<and> ?op \<le> 0x7) \<or> 0xB \<le> ?op)"
    using v frame_opcode [of ?op] by (simp add: valid_frame_def)
  moreover have "\<not> (opClose \<le> ?op \<and> (\<not> wf_fin f \<or> w > 125))"
    using v w by (auto simp: valid_frame_def opClose_def word_le_nat_alt word_less_nat_alt)
  moreover have "\<not> (m \<le> 0 \<or> int (unat w) > m)" using v w by (auto simp: valid_frame_def)
  ultimately show "readClientFrame s m = Inr (f, rest)"
    unfolding readClientFrame_pieces using h0 m(1) fl key w
    by (intro exI [of _ ?h0] exI [of _ h1] exI [of _ s1] exI [of _ w]
        exI [of _ "key @ unmask key (wf_payload f) @ rest"] exI [of _ key]
        exI [of _ "unmask key (wf_payload f) @ rest"] exI [of _ "unmask key (wf_payload f)"])
      (simp only: readFull_Some length_unmask append_assoc simp_thms)
qed

text \<open>
  Claim C14. The frame reader accepts exactly the RFC 6455 encodings: it answers a frame and the rest of
  the stream if and only if the stream starts with a masked frame of that content, encoded with
  the shortest length form, whose opcode is known, which is final and short if it is a control
  frame, and whose payload is within the limit.
\<close>

theorem readClientFrame_iff:
  "readClientFrame s m = Inr (f, rest) \<longleftrightarrow>
     valid_frame m f \<and> (\<exists>key. length key = 4 \<and> s = client_frame key f @ rest)"
  by (rule readClientFrame_accepts)

section \<open>Streams of encoded items\<close>

text \<open>
  The contract between an encoding and its reader: the reader answers an item and the rest exactly
  when the stream starts with an encoding of the item, and no encoding is empty. It makes the
  encoding prefix-free and lets a reader of one item be iterated over a stream.
\<close>

locale stream_codec =
  fixes decode :: "'s list \<Rightarrow> ('a \<times> 's list) option"
    and encodes :: "'a \<Rightarrow> 's list \<Rightarrow> bool"
  assumes decode_iff: "decode s = Some (x, r) \<longleftrightarrow> (\<exists>e. encodes x e \<and> s = e @ r)"
    and encodes_nonempty: "encodes x e \<Longrightarrow> e \<noteq> []"
begin

lemma decode_encoded: "encodes x e \<Longrightarrow> decode (e @ r) = Some (x, r)"
  unfolding decode_iff by blast

lemma prefix_free:
  assumes "encodes x e" and "encodes y e'" and "e @ r = e' @ r'"
  shows "x = y \<and> e = e' \<and> r = r'"
proof -
  have "Some (x, r) = Some (y, r')"
    using decode_encoded [OF assms(1), of r] decode_encoded [OF assms(2), of r'] assms(3) by simp
  then show ?thesis using assms(3) by simp
qed

lemma decode_shorter: "decode s = Some (x, r) \<Longrightarrow> length r < length s"
  using encodes_nonempty by (auto simp: decode_iff)

lemma encoding_unique_parse:
  "list_all2 encodes xs es \<Longrightarrow> list_all2 encodes ys es' \<Longrightarrow> concat es = concat es' \<Longrightarrow> xs = ys"
proof (induction xs es arbitrary: ys es' rule: list_all2_induct)
  case Nil
  then show ?case
    using encodes_nonempty by (cases es') (auto simp: list_all2_Cons2)
next
  case (Cons x xs e es)
  then obtain y ys2 e2 es2 where y: "ys = y # ys2" "es' = e2 # es2" "encodes y e2" "list_all2 encodes ys2 es2"
    using encodes_nonempty by (cases es') (auto simp: list_all2_Cons2)
  have "x = y \<and> e = e2 \<and> concat es = concat es2"
    using prefix_free [OF Cons.hyps(1) y(3), of "concat es" "concat es2"] Cons.prems y by simp
  then show ?case using Cons.IH y by simp
qed

end

definition decode_frame :: "int \<Rightarrow> byte list \<Rightarrow> (websocketFrame \<times> byte list) option" where
  "decode_frame m s = (case readClientFrame s m of Inl e \<Rightarrow> None | Inr y \<Rightarrow> Some y)"

definition encodes_frame :: "int \<Rightarrow> websocketFrame \<Rightarrow> byte list \<Rightarrow> bool" where
  "encodes_frame m f e \<longleftrightarrow> valid_frame m f \<and> (\<exists>key. length key = 4 \<and> e = client_frame key f)"

lemma decode_frame_iff: "decode_frame m s = Some y \<longleftrightarrow> readClientFrame s m = Inr y"
  by (auto simp: decode_frame_def split: sum.splits)

interpretation frames: stream_codec "decode_frame m" "encodes_frame m" for m
proof
  show "decode_frame m s = Some (x, r) \<longleftrightarrow> (\<exists>e. encodes_frame m x e \<and> s = e @ r)" for s x r
    by (auto simp: decode_frame_iff readClientFrame_accepts encodes_frame_def)
  show "encodes_frame m x e \<Longrightarrow> e \<noteq> []" for x e
    by (auto simp: encodes_frame_def client_frame_def rfc_header_def)
qed

section \<open>Reassembly\<close>

lemma valid_opcodes:
  assumes "valid_frame m f"
  shows "wf_opcode f \<in> {opContinuation, opText, opBinary, opClose, opPing, opPong}"
  using assms unfolding valid_frame_def op_defs insert_iff word_unat_eq_iff by auto

lemma opcodes_distinct [simp]:
  "opContinuation \<noteq> opBinary" "opContinuation \<noteq> opText" "opContinuation \<noteq> opClose"
  "opContinuation \<noteq> opPing" "opContinuation \<noteq> opPong" "opText \<noteq> opBinary" "opText \<noteq> opClose"
  "opText \<noteq> opPing" "opText \<noteq> opPong" "opBinary \<noteq> opClose" "opBinary \<noteq> opPing" "opBinary \<noteq> opPong"
  "opBinary \<noteq> opContinuation" "opBinary \<noteq> opText" "opBinary \<noteq> 0" "opText \<noteq> 0"
  "opClose \<noteq> 0" "opPing \<noteq> 0" "opPong \<noteq> 0" "opContinuation = 0"
  by (simp_all add: op_defs)

definition is_control :: "websocketFrame \<Rightarrow> bool" where
  "is_control f \<longleftrightarrow> wf_opcode f \<in> {opClose, opPing, opPong}"

text \<open>The reader between two calls: nothing or a binary message within the limit is pending.\<close>

definition reader_inv :: "clientFrameReader \<Rightarrow> bool" where
  "reader_inv r \<longleftrightarrow> fr_fragmentedOpcode r \<in> {0, opBinary}
     \<and> (fr_fragmentedOpcode r \<noteq> 0 \<longrightarrow> int (length (fr_fragmented r)) \<le> fr_maxMessageBytes r)"

lemma nextEvent_control:
  assumes "readClientFrame (fr_reader r) (fr_maxMessageBytes r) = Inr (f, s)" and "is_control f"
  shows "nextEvent r = (r\<lparr>fr_reader := s\<rparr>, Inr (wf_opcode f, wf_payload f))"
  using assms by (subst nextEvent.simps) (auto simp: is_control_def Let_def)

lemma nextEvent_first:
  assumes "readClientFrame (fr_reader r) (fr_maxMessageBytes r) = Inr (f, s)"
    and "wf_opcode f = opBinary" and "fr_fragmentedOpcode r = 0"
  shows "nextEvent r =
    (if wf_fin f then (r\<lparr>fr_reader := s\<rparr>, Inr (opBinary, wf_payload f))
     else nextEvent (r\<lparr>fr_reader := s, fr_fragmentedOpcode := opBinary, fr_fragmented := wf_payload f\<rparr>))"
  using assms by (subst nextEvent.simps) (simp add: Let_def)

lemma nextEvent_continuation:
  assumes "readClientFrame (fr_reader r) (fr_maxMessageBytes r) = Inr (f, s)"
    and "wf_opcode f = opContinuation" and "fr_fragmentedOpcode r = opBinary"
    and "int (length (fr_fragmented r) + length (wf_payload f)) \<le> fr_maxMessageBytes r"
  shows "nextEvent r =
    (if wf_fin f
     then (r\<lparr>fr_reader := s, fr_fragmented := [], fr_fragmentedOpcode := 0\<rparr>,
           Inr (opBinary, fr_fragmented r @ wf_payload f))
     else nextEvent (r\<lparr>fr_reader := s, fr_fragmented := fr_fragmented r @ wf_payload f\<rparr>))"
  using assms by (subst nextEvent.simps) (simp add: Let_def)

lemma frame_length_error: "frame_length h s = Inl e \<Longrightarrow> fst (closeForReadError e) \<in> {1002, 1009}"
  by (auto simp: frame_length_def Let_def frame_simps split: if_splits option.splits)

lemma readClientFrame_error:
  assumes "readClientFrame s m = Inl e"
  shows "fst (closeForReadError e) \<in> {1002, 1009}"
proof (cases "readFull s 2")
  case None
  then show ?thesis using assms by (auto simp: readClientFrame_def)
next
  case (Some x)
  obtain header s1 where x: "x = (header, s1)" by fastforce
  show ?thesis
  proof (cases "frame_length (header ! 1) s1")
    case (Inl e')
    then show ?thesis
      using assms frame_length_error [OF Inl] unfolding readClientFrame_def Some x Let_def option.case prod.case
      by (auto simp: error_defs split: if_splits)
  next
    case (Inr y)
    then show ?thesis
      using assms unfolding readClientFrame_def Some x Let_def option.case prod.case
      by (cases y) (auto simp: error_defs split: if_splits option.splits)
  qed
qed

text \<open>The four ways a turn of the loop ends, for an accepted frame.\<close>

lemma nextEvent_frame_cases:
  assumes "readClientFrame (fr_reader r) (fr_maxMessageBytes r) = Inr (f, s)" and "reader_inv r"
  obtains (control) "is_control f" "nextEvent r = (r\<lparr>fr_reader := s\<rparr>, Inr (wf_opcode f, wf_payload f))"
    | (error) e where "nextEvent r = (r\<lparr>fr_reader := s\<rparr>, Inl e)" "fst (closeForReadError e) \<in> {1002, 1009}"
    | (message) payload where "int (length payload) \<le> fr_maxMessageBytes r" "wf_fin f"
        "nextEvent r = (r\<lparr>fr_reader := s, fr_fragmented := [], fr_fragmentedOpcode := 0\<rparr>, Inr (opBinary, payload))
         \<or> nextEvent r = (r\<lparr>fr_reader := s\<rparr>, Inr (opBinary, payload)) \<and> fr_fragmentedOpcode r = 0"
    | (more) acc where "int (length acc) \<le> fr_maxMessageBytes r" "\<not> wf_fin f"
        "nextEvent r = nextEvent (r\<lparr>fr_reader := s, fr_fragmentedOpcode := opBinary, fr_fragmented := acc\<rparr>)"
proof -
  have v: "valid_frame (fr_maxMessageBytes r) f"
    using assms(1) by (simp add: readClientFrame_accepts)
  then have len: "int (length (wf_payload f)) \<le> fr_maxMessageBytes r" by (simp add: valid_frame_def)
  consider (c) "is_control f" | (t) "wf_opcode f = opText" | (b) "wf_opcode f = opBinary"
    | (k) "wf_opcode f = opContinuation"
    using valid_opcodes [OF v] by (auto simp: is_control_def)
  then show ?thesis
  proof cases
    case c
    then show ?thesis using nextEvent_control [OF assms(1)] control by blast
  next
    case t
    then have "nextEvent r = (r\<lparr>fr_reader := s\<rparr>, Inl (protocolError ''text frames are not supported''))"
      using assms(1) by (subst nextEvent.simps) (simp add: Let_def)
    then show ?thesis by (rule error) (simp add: error_defs)
  next
    case b
    show ?thesis
    proof (cases "fr_fragmentedOpcode r = 0")
      case True
      show ?thesis
      proof (cases "wf_fin f")
        case fin: True
        show ?thesis
          by (rule message [OF len fin]) (use nextEvent_first [OF assms(1) b True] fin True in simp)
      next
        case nofin: False
        show ?thesis
          by (rule more [OF len nofin]) (use nextEvent_first [OF assms(1) b True] nofin in simp)
      qed
    next
      case False
      then have "nextEvent r =
          (r\<lparr>fr_reader := s\<rparr>, Inl (protocolError ''new data frame before fragmented message completed''))"
        using assms(1) b by (subst nextEvent.simps) (simp add: Let_def)
      then show ?thesis by (rule error) (simp add: error_defs)
    qed
  next
    case k
    consider (idle) "fr_fragmentedOpcode r = 0"
      | (big) "fr_fragmentedOpcode r \<noteq> 0"
          "int (length (fr_fragmented r)) > fr_maxMessageBytes r - int (length (wf_payload f))"
      | (fits) "fr_fragmentedOpcode r = opBinary"
          "int (length (fr_fragmented r) + length (wf_payload f)) \<le> fr_maxMessageBytes r"
      using assms(2) unfolding reader_inv_def by fastforce
    then show ?thesis
    proof cases
      case idle
      then have "nextEvent r = (r\<lparr>fr_reader := s\<rparr>, Inl (protocolError ''unexpected continuation frame''))"
        using assms(1) k by (subst nextEvent.simps) (simp add: Let_def)
      then show ?thesis by (rule error) (simp add: error_defs)
    next
      case big
      then have "nextEvent r = (r\<lparr>fr_reader := s\<rparr>, Inl (messageTooBig ''message too large''))"
        using assms(1) k by (subst nextEvent.simps) (simp add: Let_def)
      then show ?thesis by (rule error) (simp add: error_defs)
    next
      case fits
      have l: "int (length (fr_fragmented r @ wf_payload f)) \<le> fr_maxMessageBytes r" using fits(2) by simp
      show ?thesis
      proof (cases "wf_fin f")
        case fin: True
        show ?thesis
          by (rule message [OF l fin]) (use nextEvent_continuation [OF assms(1) k fits] fin in simp)
      next
        case nofin: False
        have "r\<lparr>fr_reader := s, fr_fragmented := a\<rparr> =
            r\<lparr>fr_reader := s, fr_fragmentedOpcode := opBinary, fr_fragmented := a\<rparr>" for a
          using fits(1) by simp
        then show ?thesis
          using more [OF l nofin] nextEvent_continuation [OF assms(1) k fits] nofin by metis
      qed
    qed
  qed
qed

lemma nextEvent_sound_lemma:
  assumes "reader_inv r" and "nextEvent r = (r', res)"
  shows "(\<forall>op payload. res = Inr (op, payload) \<longrightarrow>
            op \<in> {opBinary, opClose, opPing, opPong}
            \<and> int (length payload) \<le> fr_maxMessageBytes r \<and> reader_inv r'
            \<and> fr_maxMessageBytes r' = fr_maxMessageBytes r
            \<and> length (fr_reader r') < length (fr_reader r))
       \<and> (\<forall>e. res = Inl e \<longrightarrow> fst (closeForReadError e) \<in> {1002, 1009})"
  using assms
proof (induction "length (fr_reader r)" arbitrary: r rule: less_induct)
  case less
  show ?case
  proof (cases "readClientFrame (fr_reader r) (fr_maxMessageBytes r)")
    case (Inl e)
    then have "res = Inl e" using less.prems(2) by (simp add: nextEvent.simps [of r])
    then show ?thesis using readClientFrame_error [OF Inl] by simp
  next
    case (Inr y)
    then obtain f s where y: "readClientFrame (fr_reader r) (fr_maxMessageBytes r) = Inr (f, s)"
      by (cases y) auto
    note shorter = readClientFrame_length [OF y]
    have len: "int (length (wf_payload f)) \<le> fr_maxMessageBytes r"
      using y by (simp add: readClientFrame_accepts valid_frame_def)
    from y less.prems(1) show ?thesis
    proof (cases rule: nextEvent_frame_cases)
      case control
      then show ?thesis
        using less.prems shorter len by (auto simp: reader_inv_def is_control_def)
    next
      case (error e)
      then show ?thesis using less.prems(2) by auto
    next
      case (message payload)
      then show ?thesis using less.prems shorter by (auto simp: reader_inv_def)
    next
      case (more acc)
      let ?r = "r\<lparr>fr_reader := s, fr_fragmentedOpcode := opBinary, fr_fragmented := acc\<rparr>"
      have "reader_inv ?r" using more(1) by (simp add: reader_inv_def)
      moreover have "nextEvent ?r = (r', res)" using more(3) less.prems(2) by simp
      ultimately show ?thesis using less.hyps [of ?r] shorter by fastforce
    qed
  qed
qed

text \<open>
  What an event can be: whatever the client sends, an event of the reader is a binary
  message or a control frame whose payload is within the message limit, so the reader never hands
  out or keeps more than \<open>maxMessageBytes\<close>, and the \<open>default\<close> branch of the bridge is unreachable;
  an error carries one of the close codes 1002 and 1009.
\<close>

theorem nextEvent_sound:
  assumes "reader_inv r" and "nextEvent r = (r', res)"
  shows "(\<forall>op payload. res = Inr (op, payload) \<longrightarrow>
            op \<in> {opBinary, opClose, opPing, opPong}
            \<and> int (length payload) \<le> fr_maxMessageBytes r \<and> reader_inv r'
            \<and> fr_maxMessageBytes r' = fr_maxMessageBytes r
            \<and> length (fr_reader r') < length (fr_reader r))
       \<and> (\<forall>e. res = Inl e \<longrightarrow> fst (closeForReadError e) \<in> {1002, 1009})"

  using assms by (rule nextEvent_sound_lemma)

subsection \<open>A fragmented message\<close>

text \<open>The next \<open>n\<close> events of a reader, or fewer if one is an error.\<close>

fun events :: "nat \<Rightarrow> clientFrameReader \<Rightarrow> clientFrameReader \<times> (byte \<times> byte list) list" where
  "events 0 r = (r, [])"
| "events (Suc n) r =
     (case nextEvent r of
        (r', Inl e) \<Rightarrow> (r', [])
      | (r', Inr ev) \<Rightarrow> (fst (events n r'), ev # snd (events n r')))"

definition chunk :: "websocketFrame \<Rightarrow> byte list" where
  "chunk f = (if is_control f then [] else wf_payload f)"

definition control_events :: "websocketFrame list \<Rightarrow> (byte \<times> byte list) list" where
  "control_events fs = map (\<lambda>f. (wf_opcode f, wf_payload f)) (filter is_control fs)"

definition middle_frame :: "websocketFrame \<Rightarrow> bool" where
  "middle_frame f \<longleftrightarrow> is_control f \<or> wf_opcode f = opContinuation \<and> \<not> wf_fin f"

lemma control_not_continuation [simp]: "wf_opcode f = opContinuation \<Longrightarrow> \<not> is_control f"
  by (auto simp: is_control_def)

lemma encoded_frame_read:
  assumes "encodes_frame m f e"
  shows "readClientFrame (e @ t) m = Inr (f, t)"
  using frames.decode_encoded [OF assms, of t] by (simp add: decode_frame_iff)

lemma middle_events:
  assumes "list_all2 (encodes_frame (fr_maxMessageBytes r)) fs es" and "\<forall>f \<in> set fs. middle_frame f"
    and "fr_reader r = concat es @ t" and "fr_fragmentedOpcode r = opBinary"
    and "int (length (fr_fragmented r) + length (concat (map chunk fs))) \<le> fr_maxMessageBytes r"
  shows "events (Suc (length (control_events fs) + n)) r =
    (let r' = r\<lparr>fr_reader := t, fr_fragmented := fr_fragmented r @ concat (map chunk fs)\<rparr>
     in (fst (events (Suc n) r'), control_events fs @ snd (events (Suc n) r')))"
  using assms
proof (induction fs arbitrary: es r)
  case Nil
  then have "r\<lparr>fr_reader := t, fr_fragmented := fr_fragmented r @ []\<rparr> = r" by simp
  then show ?case by (simp add: control_events_def Let_def del: events.simps)
next
  case (Cons f fs)
  then obtain e es' where es: "es = e # es'" "encodes_frame (fr_maxMessageBytes r) f e"
    "list_all2 (encodes_frame (fr_maxMessageBytes r)) fs es'"
    by (auto simp: list_all2_Cons1)
  have rd: "readClientFrame (fr_reader r) (fr_maxMessageBytes r) = Inr (f, concat es' @ t)"
    using encoded_frame_read [OF es(2)] Cons.prems(3) es(1) by simp
  show ?case
  proof (cases "is_control f")
    case True
    then have c: "chunk f = []" by (simp add: chunk_def)
    let ?r = "r\<lparr>fr_reader := concat es' @ t\<rparr>"
    have "events (Suc (length (control_events fs) + n)) ?r =
      (let r' = ?r\<lparr>fr_reader := t, fr_fragmented := fr_fragmented ?r @ concat (map chunk fs)\<rparr>
       in (fst (events (Suc n) r'), control_events fs @ snd (events (Suc n) r')))"
      using Cons.prems es True by (intro Cons.IH [of ?r es']) (simp_all add: c)
    then show ?thesis
      using nextEvent_control [OF rd True] True
      by (simp add: control_events_def c Let_def)
  next
    case False
    then have k: "wf_opcode f = opContinuation" "\<not> wf_fin f"
      using Cons.prems(2) by (auto simp: middle_frame_def)
    have c: "chunk f = wf_payload f" using False by (simp add: chunk_def)
    let ?r = "r\<lparr>fr_reader := concat es' @ t, fr_fragmented := fr_fragmented r @ wf_payload f\<rparr>"
    have fit: "int (length (fr_fragmented r) + length (wf_payload f)) \<le> fr_maxMessageBytes r"
      using Cons.prems(5) by (simp add: c)
    have "nextEvent r = nextEvent ?r"
      using nextEvent_continuation [OF rd k(1) Cons.prems(4) fit] k(2) by simp
    then have "events (Suc j) r = events (Suc j) ?r" for j by simp
    moreover have "events (Suc (length (control_events fs) + n)) ?r =
      (let r' = ?r\<lparr>fr_reader := t, fr_fragmented := fr_fragmented ?r @ concat (map chunk fs)\<rparr>
       in (fst (events (Suc n) r'), control_events fs @ snd (events (Suc n) r')))"
      using Cons.prems es False by (intro Cons.IH [of ?r es']) (simp_all add: c)
    ultimately show ?thesis
      using False by (simp add: control_events_def c Let_def del: events.simps)
  qed
qed

text \<open>
  Claim C29. Reassembly: a binary message sent as a first fragment, any number of continuation
  fragments and a final one, with control frames injected anywhere in between, is delivered as
  those control events in order followed by one binary event with the concatenated payload, for
  any masking keys and any fragment sizes (empty ones included) within the message limit; the
  reader is then ready for the next message.
\<close>

theorem fragmented_message:
  assumes "list_all2 (encodes_frame (fr_maxMessageBytes r)) (first # middle @ [final]) es"
    and "fr_reader r = concat es @ rest" and "fr_fragmentedOpcode r = 0"
    and "wf_opcode first = opBinary" and "\<not> wf_fin first" and "\<forall>f \<in> set middle. middle_frame f"
    and "wf_opcode final = opContinuation" and "wf_fin final"
    and "int (length (concat (map chunk (first # middle @ [final])))) \<le> fr_maxMessageBytes r"
  shows "events (Suc (length (control_events middle))) r =
    (r\<lparr>fr_reader := rest, fr_fragmented := [], fr_fragmentedOpcode := 0\<rparr>,
     control_events middle @ [(opBinary, concat (map chunk (first # middle @ [final])))])"
proof -
  obtain e1 es2 e3 where es: "es = e1 # es2 @ [e3]" "encodes_frame (fr_maxMessageBytes r) first e1"
    "list_all2 (encodes_frame (fr_maxMessageBytes r)) middle es2"
    "encodes_frame (fr_maxMessageBytes r) final e3"
    using assms(1) by (auto simp: list_all2_Cons1 list_all2_append1)
  have b: "chunk first = wf_payload first" "chunk final = wf_payload final"
    using assms(4,7) by (auto simp: chunk_def is_control_def)
  let ?r = "r\<lparr>fr_reader := concat es2 @ e3 @ rest, fr_fragmentedOpcode := opBinary,
    fr_fragmented := wf_payload first\<rparr>"
  have rd: "readClientFrame (fr_reader r) (fr_maxMessageBytes r) = Inr (first, concat es2 @ e3 @ rest)"
    using encoded_frame_read [OF es(2)] assms(2) es(1) by simp
  have "nextEvent r = nextEvent ?r"
    using nextEvent_first [OF rd assms(4,3)] assms(5) by simp
  then have first: "events (Suc j) r = events (Suc j) ?r" for j by simp
  let ?r2 = "?r\<lparr>fr_reader := e3 @ rest, fr_fragmented := fr_fragmented ?r @ concat (map chunk middle)\<rparr>"
  have rd2: "readClientFrame (fr_reader ?r2) (fr_maxMessageBytes ?r2) = Inr (final, rest)"
    using encoded_frame_read [OF es(4)] by simp
  have "nextEvent ?r2 = (?r2\<lparr>fr_reader := rest, fr_fragmented := [], fr_fragmentedOpcode := 0\<rparr>,
      Inr (opBinary, fr_fragmented ?r2 @ wf_payload final))"
    using nextEvent_continuation [OF rd2 assms(7)] assms(8,9) b by simp
  then have "events (Suc 0) ?r2 = (r\<lparr>fr_reader := rest, fr_fragmented := [], fr_fragmentedOpcode := 0\<rparr>,
      [(opBinary, concat (map chunk (first # middle @ [final])))])"
    using b by simp
  moreover have "events (Suc (length (control_events middle) + 0)) ?r =
    (let r' = ?r\<lparr>fr_reader := e3 @ rest, fr_fragmented := fr_fragmented ?r @ concat (map chunk middle)\<rparr>
     in (fst (events (Suc 0) r'), control_events middle @ snd (events (Suc 0) r')))"
    using es assms(6,9) b by (intro middle_events) simp_all
  ultimately show ?thesis unfolding first by (simp add: Let_def del: events.simps)
qed

subsection \<open>Instances\<close>

definition sample_reader :: "byte list \<Rightarrow> clientFrameReader" where
  "sample_reader s = \<lparr>fr_reader = s, fr_maxMessageBytes = 65536, fr_fragmentedOpcode = 0, fr_fragmented = []\<rparr>"

definition sample_key :: "byte list" where "sample_key = [1, 2, 3, 4]"

definition sample_first :: websocketFrame where
  "sample_first = \<lparr>wf_fin = False, wf_opcode = opBinary, wf_payload = [7, 8]\<rparr>"

definition sample_ping :: websocketFrame where
  "sample_ping = \<lparr>wf_fin = True, wf_opcode = opPing, wf_payload = [5]\<rparr>"

definition sample_final :: websocketFrame where
  "sample_final = \<lparr>wf_fin = True, wf_opcode = opContinuation, wf_payload = [9]\<rparr>"

lemmas sample_frame_defs = sample_first_def sample_ping_def sample_final_def

lemma sample_frames_encoded:
  "list_all2 (encodes_frame 65536) ([sample_first, sample_ping, sample_final])
     [client_frame sample_key sample_first, client_frame sample_key sample_ping, client_frame sample_key sample_final]"
  by (auto simp: encodes_frame_def valid_frame_def sample_frame_defs op_defs sample_key_def
      intro!: exI [of _ "[1, 2, 3, 4]"])

theorem nextEvent_sound_witness:
  "fst (nextEvent (sample_reader (client_frame sample_key sample_ping)))
     = sample_reader [] \<and> reader_inv (fst (nextEvent (sample_reader (client_frame sample_key sample_ping))))"
proof -
  let ?r = "sample_reader (client_frame sample_key sample_ping)"
  have rd: "readClientFrame (fr_reader ?r) (fr_maxMessageBytes ?r) = Inr (sample_ping, [])"
    using sample_frames_encoded encoded_frame_read [of 65536 sample_ping _ "[]"]
    by (simp add: sample_reader_def)
  have ev: "nextEvent ?r = (sample_reader [], Inr (opPing, [5]))"
    using nextEvent_control [OF rd] by (simp add: is_control_def sample_ping_def sample_reader_def)
  have "reader_inv ?r" by (simp add: reader_inv_def sample_reader_def)
  from nextEvent_sound [OF this ev] ev show ?thesis by simp
qed

theorem fragmented_message_witness:
  "events 2 (sample_reader (client_frame sample_key sample_first @ client_frame sample_key sample_ping
       @ client_frame sample_key sample_final @ [42]))
   = (sample_reader [42], [(opPing, [5]), (opBinary, [7, 8, 9])])"
proof -
  let ?es = "[client_frame sample_key sample_first, client_frame sample_key sample_ping,
    client_frame sample_key sample_final]"
  let ?r = "sample_reader (concat ?es @ [42])"
  have c: "is_control sample_ping" by (simp add: is_control_def sample_ping_def)
  have n: "\<not> is_control sample_first" "\<not> is_control sample_final"
    by (simp_all add: is_control_def sample_frame_defs)
  have "events (Suc (length (control_events [sample_ping]))) ?r =
    (?r\<lparr>fr_reader := [42], fr_fragmented := [], fr_fragmentedOpcode := 0\<rparr>,
     control_events [sample_ping] @ [(opBinary, concat (map chunk (sample_first # [sample_ping] @ [sample_final])))])"
    by (rule fragmented_message [where es = ?es])
      (use sample_frames_encoded c n in
        \<open>simp_all add: sample_reader_def sample_first_def sample_final_def middle_frame_def chunk_def\<close>)
  then show ?thesis
    using c n
    by (simp add: sample_reader_def control_events_def chunk_def sample_frame_defs numeral_2_eq_2
        del: events.simps)
qed

section \<open>Close frames\<close>

lemma validCloseCode_iff:
  "validCloseCode status \<longleftrightarrow> unat status \<in> {1000..1003} \<union> {1007..1014} \<union> {3000..4999}"
  unfolding validCloseCode_def word_le_nat_alt word_less_nat_alt word_unat_eq_iff by auto

lemma be_put_uint16 [simp]: "be_uint16 (put_uint16 v @ r) = v"
proof -
  have "push_bit 8 (ucast (ucast (drop_bit 8 v) :: byte)) OR ucast (ucast v :: byte) = v"
    by (rule bit_word_eqI) (auto simp: bit_simps)
  then show ?thesis by (simp add: be_uint16_def put_uint16_def)
qed

lemma put_be_uint16: "length b = 2 \<Longrightarrow> put_uint16 (be_uint16 b) = b"
proof -
  assume "length b = 2"
  then obtain x y where b: "b = [x, y]" by (cases b; cases "tl b") auto
  have "ucast (drop_bit 8 (push_bit 8 (ucast x) OR ucast y :: 16 word)) = x"
    "ucast (push_bit 8 (ucast x) OR ucast y :: 16 word) = y"
    by (rule bit_word_eqI; auto simp: bit_simps dest: bit_imp_le_length)+
  then show ?thesis by (simp add: b be_uint16_def put_uint16_def)
qed

lemma length_put_uint16 [simp]: "length (put_uint16 v) = 2"
  by (simp add: put_uint16_def)

text \<open>
  Close payloads: a close frame is accepted if and only if its payload is empty or a
  big-endian status in one of the ranges RFC 6455 allows on the wire followed by valid UTF-8.
\<close>

theorem validateClosePayload_iff:
  "validateClosePayload payload = None \<longleftrightarrow>
     payload = [] \<or>
     (\<exists>status reason. payload = put_uint16 status @ reason \<and> utf8_valid (map unat reason)
        \<and> unat status \<in> {1000..1003} \<union> {1007..1014} \<union> {3000..4999})"
proof -
  let ?range = "{1000..1003} \<union> {1007..1014} \<union> {3000..4999}"
  have be: "be_uint16 (take 2 (put_uint16 st @ re)) = st" for st re
    using be_put_uint16 [of st "[]"] by simp
  consider (empty) "payload = []" | (one) "length payload = 1" | (more) "2 \<le> length payload"
    by (cases payload; cases "tl payload") auto
  then show ?thesis
  proof cases
    case empty
    then show ?thesis by (simp add: validateClosePayload_def)
  next
    case one
    have "payload \<noteq> put_uint16 st @ re" for st re
      using one length_put_uint16 [of st] by (metis add_leD1 length_append numeral_le_one_iff semiring_norm(69) le_refl)
    then show ?thesis using one by (auto simp: validateClosePayload_def)
  next
    case more
    have split: "payload = put_uint16 (be_uint16 (take 2 payload)) @ drop 2 payload"
      using put_be_uint16 [of "take 2 payload"] more by simp
    have "validateClosePayload payload = None \<longleftrightarrow>
        unat (be_uint16 (take 2 payload)) \<in> ?range \<and> utf8_valid (map unat (drop 2 payload))"
      unfolding validCloseCode_iff [symmetric] using more by (auto simp: validateClosePayload_def)
    also have "\<dots> \<longleftrightarrow> (\<exists>st re. payload = put_uint16 st @ re \<and> utf8_valid (map unat re) \<and> unat st \<in> ?range)"
    proof
      assume "unat (be_uint16 (take 2 payload)) \<in> ?range \<and> utf8_valid (map unat (drop 2 payload))"
      then show "\<exists>st re. payload = put_uint16 st @ re \<and> utf8_valid (map unat re) \<and> unat st \<in> ?range"
        using split by blast
    next
      assume "\<exists>st re. payload = put_uint16 st @ re \<and> utf8_valid (map unat re) \<and> unat st \<in> ?range"
      then obtain st re where p: "payload = put_uint16 st @ re" "utf8_valid (map unat re)" "unat st \<in> ?range"
        by blast
      have "drop 2 payload = re" unfolding p(1) by simp
      then show "unat (be_uint16 (take 2 payload)) \<in> ?range \<and> utf8_valid (map unat (drop 2 payload))"
        using p be by metis
    qed
    finally show ?thesis using more by auto
  qed
qed

section \<open>Server frames\<close>

text \<open>The contract of a Go \<open>io.Writer\<close>: the count is between 0 and the length offered.\<close>

definition writer_ok :: "(nat \<Rightarrow> byte list \<Rightarrow> int \<times> bool) \<Rightarrow> bool" where
  "writer_ok answer \<longleftrightarrow> (\<forall>k p. fst (answer k p) \<in> {0..int (length p)})"

lemma writeAll_sent:
  assumes "writer_ok answer" and "writeAll answer k sent payload = (sent', k', res)"
  shows "res \<noteq> WritePanic \<and> (\<exists>j \<le> length payload. sent' = sent @ take j payload
     \<and> (res = WriteOk \<longrightarrow> j = length payload))"
  using assms(2)
proof (induction "length payload" arbitrary: k sent payload rule: less_induct)
  case less
  show ?case
  proof (cases "payload = []")
    case True
    then show ?thesis using less.prems by (simp add: writeAll.simps)
  next
    case False
    obtain written err where a: "answer k payload = (written, err)" by fastforce
    have w: "0 \<le> written" "written \<le> int (length payload)"
      using assms(1) a by (auto simp: writer_ok_def dest: spec [of _ k] intro: order_trans) (metis atLeastAtMost_iff fst_conv)+
    show ?thesis
    proof (cases "err \<or> written \<le> 0")
      case True
      then have "sent' = sent @ take (nat written) payload" "res \<in> {WriteError, ShortWrite}"
        using less.prems False a by (auto simp: writeAll.simps [of answer k] split: if_splits)
      then show ?thesis using w by (auto intro!: exI [of _ "nat written"])
    next
      case go: False
      let ?n = "nat written"
      have "writeAll answer (Suc k) (sent @ take ?n payload) (drop ?n payload) = (sent', k', res)"
        using less.prems False a go w by (simp add: writeAll.simps [of answer k])
      moreover have "length (drop ?n payload) < length payload" using go w False by simp
      ultimately obtain j where j: "res \<noteq> WritePanic" "j \<le> length (drop ?n payload)"
        "sent' = (sent @ take ?n payload) @ take j (drop ?n payload)"
        "res = WriteOk \<longrightarrow> j = length (drop ?n payload)"
        using less.hyps by blast
      have "sent' = sent @ take (?n + j) payload" using j(3) by (simp add: take_add)
      then show ?thesis using j w by (auto intro!: exI [of _ "?n + j"])
    qed
  qed
qed

lemma final_byte:
  assumes "unat (op :: byte) < 16"
  shows "0x80 OR op = of_nat (128 + unat op)"
proof -
  have "0x80 OR op = 0x80 + op"
  proof (rule disjunctive_add [symmetric])
    fix n :: nat
    have "bit op n \<Longrightarrow> n < 4"
    proof (rule ccontr)
      assume b: "bit op n" "\<not> n < 4"
      then have "2 ^ 4 \<le> (2 :: nat) ^ n" by (intro power_increasing) auto
      then have "unat op div 2 ^ n = 0" using assms by (intro div_less) simp
      then show False using b(1) by (simp add: bit_byte)
    qed
    moreover have "bit (0x80 :: byte) n \<Longrightarrow> n = 7"
      using bit_exp_iff [of 7 n, where 'a = byte] by simp
    ultimately show "\<not> bit (0x80 :: byte) n \<or> \<not> bit op n" by fastforce
  qed
  then show ?thesis by simp
qed

lemma shifted_byte:
  assumes "n < 2 ^ 64"
  shows "(ucast (drop_bit (8 * k) (of_nat n :: 64 word)) :: byte) = of_nat (n div 256 ^ k)"
proof -
  have p: "(2 :: nat) ^ (8 * k) = 256 ^ k" by (simp add: power_mult)
  have "unat (drop_bit (8 * k) (of_nat n :: 64 word)) = drop_bit (8 * k) (take_bit 64 n)"
    unfolding unsigned_drop_bit_eq unat64 [OF assms] by simp
  also have "\<dots> = n div 256 ^ k"
    using assms by (simp add: take_bit_nat_eq_self drop_bit_eq_div p)
  finally have "unat (drop_bit (8 * k) (of_nat n :: 64 word)) = n div 256 ^ k" .
  moreover have "(ucast w :: byte) = of_nat m" if "unat w = m" for w :: "64 word" and m
    using that by auto
  ultimately show ?thesis by blast
qed

lemma be_bytes_map: "be_bytes k n = map (\<lambda>i. of_nat (n div 256 ^ i)) (rev [0..<k])"
  by (induction k) auto

lemma shifted_bytes:
  assumes "n < 2 ^ 64"
  shows "map (\<lambda>i. ucast (drop_bit (8 * i) (of_nat n :: 64 word))) (rev [0..<k]) = be_bytes k n"
  unfolding be_bytes_map shifted_byte [OF assms] ..

lemma frame_header_rfc:
  assumes "unat op < 16" and "n < 2 ^ 64"
  shows "frame_header op n = rfc_header True op 0 n"
proof -
  have r: "rev [0..<2] = [1, 0 :: nat]" "rev [0..<8] = [7, 6, 5, 4, 3, 2, 1, 0 :: nat]"
    by (simp_all add: upt_rec)
  have "be_bytes 2 n = [ucast (drop_bit 8 (of_nat n :: 64 word)), ucast (of_nat n :: 64 word)]"
    unfolding shifted_bytes [OF assms(2), symmetric] r by simp
  moreover have "be_bytes 8 n = map (\<lambda>i. ucast (drop_bit i (of_nat n :: 64 word))) [56, 48, 40, 32, 24, 16, 8, 0]"
    unfolding shifted_bytes [OF assms(2), symmetric] r by simp
  moreover have "(ucast (of_nat n :: 64 word) :: byte) = of_nat n"
    using shifted_byte [OF assms(2), of 0] by simp
  ultimately show ?thesis
    unfolding frame_header_def rfc_header_def length_bytes_def Let_def final_byte [OF assms(1)]
    by (auto simp del: be_bytes.simps)
qed

text \<open>
  Claim C30. What a server frame puts on the wire: for any sequence of short or failing writes the
  connection answers within the \<open>io.Writer\<close> contract, the bytes sent are a prefix of one unmasked,
  final RFC 6455 frame in its shortest form, all of it if the write succeeded, and the slice
  arithmetic of \<open>writeAll\<close> never goes out of range.
\<close>

theorem writeFrame_wire:
  assumes "writer_ok answer" and "unat op < 16" and "length payload < 2 ^ 64"
    and "writeFrame answer k sent op payload = (sent', k', res)"
  shows "res \<noteq> WritePanic
    \<and> (\<exists>j. sent' = sent @ take j (rfc_header True op 0 (length payload) @ payload)
          \<and> (res = WriteOk \<longrightarrow> sent' = sent @ rfc_header True op 0 (length payload) @ payload))"
proof -
  let ?h = "rfc_header True op 0 (length payload)"
  obtain s1 k1 r1 where h: "writeAll answer k sent ?h = (s1, k1, r1)"
    by (cases "writeAll answer k sent ?h") blast
  obtain j where j: "r1 \<noteq> WritePanic" "j \<le> length ?h" "s1 = sent @ take j ?h"
    "r1 = WriteOk \<longrightarrow> j = length ?h"
    using writeAll_sent [OF assms(1) h] by blast
  have w: "(case (s1, k1, r1) of (s, k, WriteOk) \<Rightarrow> writeAll answer k s payload | (s, k, e) \<Rightarrow> (s, k, e))
      = (sent', k', res)"
    using assms(4) h unfolding writeFrame_def frame_header_rfc [OF assms(2,3)] by simp
  show ?thesis
  proof (cases "r1 = WriteOk")
    case True
    then have "writeAll answer k1 s1 payload = (sent', k', res)" using w by simp
    from writeAll_sent [OF assms(1) this] obtain i where "res \<noteq> WritePanic" "i \<le> length payload"
      "sent' = s1 @ take i payload" "res = WriteOk \<longrightarrow> i = length payload" by blast
    then show ?thesis using j True by (auto intro!: exI [of _ "length ?h + i"])
  next
    case False
    then have "sent' = s1" "res = r1" using w by (cases r1; simp)+
    then show ?thesis using j False by (auto intro!: exI [of _ j])
  qed
qed

lemma writeFrame_wire_witness:
  "fst (writeFrame (\<lambda>k p. (int (length p), False)) 0 [] opPong [1, 2]) = [0x8a, 2, 1, 2]"
proof -
  let ?w = "writeFrame (\<lambda>k p. (int (length p), False)) 0 [] opPong [1, 2 :: byte]"
  have ok: "writer_ok (\<lambda>k p. (int (length p), False))" by (simp add: writer_ok_def)
  have r: "?w = (fst ?w, fst (snd ?w), WriteOk)"
    by (simp add: writeFrame_def writeAll.simps frame_header_def op_defs Let_def)
  have "fst ?w = [] @ rfc_header True opPong 0 (length [1, 2 :: byte]) @ [1, 2]"
    using writeFrame_wire [OF ok _ _ r] by (simp add: op_defs)
  then show ?thesis by (simp add: rfc_header_def length_bytes_def op_defs)
qed

section \<open>The relay's own close frames\<close>

text \<open>
  The close frames the relay sends are ones its own validator accepts: for any status in
  the permitted ranges and any ASCII reason, the payload (cut to 125 bytes where needed) fits a
  control frame and validates.
\<close>

theorem close_payload_valid:
  assumes "validCloseCode status" and "\<forall>c \<in> set reason. is_ascii c"
  shows "length (close_payload status reason) \<le> 125
    \<and> validateClosePayload (close_payload status reason) = None"
proof -
  define bytes :: "byte list" where "bytes = map (\<lambda>c. of_nat (code c)) reason"
  have p: "close_payload status reason = put_uint16 status @ take 123 bytes"
    by (auto simp: close_payload_def bytes_def Let_def)
  have "\<forall>b \<in> set (map unat (take 123 bytes)). b < 128"
    using assms(2) by (auto simp: bytes_def is_ascii_def unat8 dest!: in_set_takeD)
  then have "utf8_valid (map unat (take 123 bytes))" by (rule utf8_valid_ascii)
  moreover have "be_uint16 (take 2 (close_payload status reason)) = status"
    using be_put_uint16 [of status "[]"] by (simp add: p)
  ultimately show ?thesis
    using assms(1) by (auto simp: validateClosePayload_def p)
qed

lemma close_payload_valid_witness:
  "validateClosePayload (close_payload 1011 ''telegram read failed'') = None"
  by (rule close_payload_valid [THEN conjunct2]) (simp_all add: validCloseCode_iff is_ascii_def)

end
