(* ===== verification/Topology_Bundle.thy ===== *)
theory Topology_Bundle
  imports Config
begin

text \<open>
  \<open>internal/topology/bundle.go\<close>: signed topology bundles. The JSON codec and Ed25519 are library
  code and arrive in \<open>topoenv\<close>; a decoder answers the bundle and whether the input ended after it.
  Times are nanoseconds, read by \<open>ge_rfc3339\<close>.
\<close>

definition Schema :: int where "Schema = 1"

type_synonym routes = "(int, TelegramEndpoint list) gomap"

record Payload =
  pl_Schema :: int
  pl_Generation :: "64 word"
  pl_NotBefore :: string
  pl_ExpiresAt :: string
  pl_Production :: routes
  pl_Test :: routes

record Bundle =
  bu_Schema :: int
  bu_Generation :: "64 word"
  bu_NotBefore :: string
  bu_ExpiresAt :: string
  bu_Production :: routes
  bu_Test :: routes
  bu_Signature :: string

record Snapshot =
  sn_Generation :: "64 word"
  sn_NotBefore :: int
  sn_ExpiresAt :: int
  sn_Production :: routes
  sn_Test :: routes
  sn_Raw :: string

record topoenv =
  te_go :: goenv
  te_decode :: "string \<Rightarrow> (Bundle \<times> bool) option"
  te_marshal :: "Payload \<Rightarrow> string option"
  te_marshalIndent :: "Bundle \<Rightarrow> string option"
  te_verify :: "nat list \<Rightarrow> string \<Rightarrow> nat list \<Rightarrow> bool"
  te_sign :: "nat list \<Rightarrow> string \<Rightarrow> nat list"

definition nanosecond_second :: int where "nanosecond_second = 1000000000"

definition cloneRoutes :: "routes \<Rightarrow> routes" where
  "cloneRoutes source = map (\<lambda>(dc, endpoints). (dc, endpoints)) source"

definition decodeBase64 :: "string \<Rightarrow> nat list option" where
  "decodeBase64 value =
     (case b64Decode StdAlphabet False value of
        Some decoded \<Rightarrow> Some decoded
      | None \<Rightarrow> b64Decode StdAlphabet True value)"

definition validatePayload :: "topoenv \<Rightarrow> Payload \<Rightarrow> int \<Rightarrow> bool \<Rightarrow> string option" where
  "validatePayload T payload now allowExpired =
     (if pl_Schema payload \<noteq> Schema \<or> pl_Generation payload = 0
      then Some ''topology bundle schema or generation is invalid''
      else
        (case ge_rfc3339 (te_go T) (pl_NotBefore payload) of
           None \<Rightarrow> Some ''topology notBefore is invalid''
         | Some notBefore \<Rightarrow>
             (case ge_rfc3339 (te_go T) (pl_ExpiresAt payload) of
                None \<Rightarrow> Some ''topology expiresAt is invalid''
              | Some expiresAt \<Rightarrow>
                  first_error
                    [check (\<not> expiresAt > notBefore) ''topology expiresAt is invalid'',
                     check (notBefore > now + 5 * 60 * nanosecond_second)
                       ''topology bundle is not active yet'',
                     check (\<not> allowExpired \<and> \<not> expiresAt > now) ''topology bundle is expired'',
                     check (expiresAt - notBefore > 90 * 24 * 3600 * nanosecond_second)
                       ''topology validity interval is too long'',
                     check (pl_Production payload = []) ''topology production routes are empty'',
                     ValidateTelegramDCOptions (te_go T) (pl_Production payload),
                     ValidateTelegramDCOptions (te_go T) (pl_Test payload)])))"

definition bundle_payload :: "Bundle \<Rightarrow> Payload" where
  "bundle_payload bundle =
     \<lparr>pl_Schema = bu_Schema bundle, pl_Generation = bu_Generation bundle,
      pl_NotBefore = bu_NotBefore bundle, pl_ExpiresAt = bu_ExpiresAt bundle,
      pl_Production = bu_Production bundle, pl_Test = bu_Test bundle\<rparr>"

text \<open>A failed parse leaves the zero time, as \<open>notBefore, _ := ...\<close> does.\<close>

definition parsed_time :: "topoenv \<Rightarrow> string \<Rightarrow> int" where
  "parsed_time T value = (case ge_rfc3339 (te_go T) value of None \<Rightarrow> 0 | Some t \<Rightarrow> t)"

definition Verify :: "topoenv \<Rightarrow> string \<Rightarrow> nat list \<Rightarrow> int \<Rightarrow> bool \<Rightarrow> string + Snapshot" where
  "Verify T data publicKey now allowExpired =
     (if data = [] \<or> length data > 2 ^ 20 then Inl ''topology bundle size is invalid''
      else
        (case te_decode T data of
           None \<Rightarrow> Inl ''parse topology bundle''
         | Some (bundle, atEnd) \<Rightarrow>
             if \<not> atEnd then Inl ''topology bundle must contain exactly one object''
             else
               (let payload = bundle_payload bundle
                in case validatePayload T payload now allowExpired of
                     Some e \<Rightarrow> Inl e
                   | None \<Rightarrow>
                       (case te_marshal T payload of
                          None \<Rightarrow> Inl ''marshal''
                        | Some canonical \<Rightarrow>
                            (case decodeBase64 (bu_Signature bundle) of
                               None \<Rightarrow> Inl ''topology bundle signature is invalid''
                             | Some signature \<Rightarrow>
                                 if length signature \<noteq> 64 \<or> length publicKey \<noteq> 32
                                    \<or> \<not> te_verify T publicKey canonical signature
                                 then Inl ''topology bundle signature is invalid''
                                 else
                                   Inr \<lparr>sn_Generation = pl_Generation payload,
                                        sn_NotBefore = parsed_time T (pl_NotBefore payload),
                                        sn_ExpiresAt = parsed_time T (pl_ExpiresAt payload),
                                        sn_Production = cloneRoutes (pl_Production payload),
                                        sn_Test = cloneRoutes (pl_Test payload),
                                        sn_Raw = data\<rparr>)))))"

definition Sign :: "topoenv \<Rightarrow> Payload \<Rightarrow> nat list \<Rightarrow> int \<Rightarrow> string + string" where
  "Sign T payload privateKey now =
     (case validatePayload T payload now False of
        Some e \<Rightarrow> Inl e
      | None \<Rightarrow>
          if length privateKey \<noteq> 64 then Inl ''invalid Ed25519 private key''
          else
            (case te_marshal T payload of
               None \<Rightarrow> Inl ''marshal''
             | Some canonical \<Rightarrow>
                 (case te_marshalIndent T
                         \<lparr>bu_Schema = pl_Schema payload, bu_Generation = pl_Generation payload,
                          bu_NotBefore = pl_NotBefore payload, bu_ExpiresAt = pl_ExpiresAt payload,
                          bu_Production = pl_Production payload, bu_Test = pl_Test payload,
                          bu_Signature = b64Encode StdAlphabet False (te_sign T privateKey canonical)\<rparr> of
                    None \<Rightarrow> Inl ''marshal''
                  | Some data \<Rightarrow> Inr data)))"

end
