(* ===== verification/Topology_Manager.thy ===== *)
theory Topology_Manager
  imports Topology_Bundle Upstream_Pool
begin

text \<open>
  \<open>internal/relay/topology_manager.go\<close>: the owner's routes, the signed snapshot that replaces them,
  its refresh and its persistence. \<open>tm_client\<close> says whether the HTTP client exists. The state file
  is the content at \<open>StatePath\<close>, \<open>None\<close> when it does not exist. Each mutex-protected section is one
  function of the state it finds; what the network, the clock and the file system answer are
  arguments.
\<close>

record topologyManager =
  tm_lastOnDemand :: gotime
  tm_base :: TelegramConfig
  tm_remote :: TopologyConfig
  tm_publicKey :: "nat list"
  tm_current :: "Snapshot option"
  tm_client :: bool

definition decodeTopologyPublicKey :: "string \<Rightarrow> nat list option" where
  "decodeTopologyPublicKey value =
     (let decoded = (case b64Decode StdAlphabet False (trimSpace value) of
                       Some d \<Rightarrow> Some d
                     | None \<Rightarrow> b64Decode StdAlphabet True (trimSpace value))
      in case decoded of
           None \<Rightarrow> None
         | Some d \<Rightarrow> if length d \<noteq> 32 then None else Some d)"

text \<open>Reading the state file: its content, absent, or another error.\<close>

datatype readFile = FileData string | FileAbsent | FileError

definition newTopologyManager ::
  "topoenv \<Rightarrow> TelegramConfig \<Rightarrow> readFile \<Rightarrow> gotime \<Rightarrow> string + topologyManager" where
  "newTopologyManager T telegram stateFile now =
     (let manager = \<lparr>tm_lastOnDemand = 0, tm_base = telegram, tm_remote = tg_Topology telegram,
                     tm_publicKey = [], tm_current = None, tm_client = False\<rparr>
      in if trimSpace (tp_URL (tg_Topology telegram)) = [] then Inr manager
         else
           (case decodeTopologyPublicKey (tp_PublicKey (tg_Topology telegram)) of
              None \<Rightarrow> Inl ''invalid topology Ed25519 public key''
            | Some key \<Rightarrow>
                (let manager = manager\<lparr>tm_publicKey := key, tm_client := True\<rparr>
                 in case stateFile of
                      FileData data \<Rightarrow>
                        (case Verify T data key now True of
                           Inl e \<Rightarrow> Inl (''verify last-known-good topology: '' @ e)
                         | Inr snapshot \<Rightarrow> Inr (manager\<lparr>tm_current := Some snapshot\<rparr>))
                    | FileAbsent \<Rightarrow> Inr manager
                    | FileError \<Rightarrow> Inl ''load last-known-good topology'')))"

section \<open>Persistence\<close>

text \<open>Whether each system call succeeds; on Windows the old file may also be absent.\<close>

record persistIO =
  io_windows :: bool
  io_mkdir :: bool
  io_createTemp :: bool
  io_chmod :: bool
  io_write :: bool
  io_sync :: bool
  io_close :: bool
  io_remove :: "bool option" \<comment> \<open>\<open>None\<close>: another error than not existing\<close>
  io_rename :: bool
  io_openDir :: bool
  io_syncDir :: bool

text \<open>The state file afterwards and whether an error is returned; the temporary file is removed.\<close>

definition persistTopologySnapshot :: "persistIO \<Rightarrow> string option \<Rightarrow> string \<Rightarrow> string option \<times> bool" where
  "persistTopologySnapshot io file data =
     (if \<not> io_mkdir io then (file, True)
      else if \<not> io_createTemp io then (file, True)
      else if \<not> io_chmod io then (file, True)
      else if \<not> io_write io then (file, True)
      else if \<not> io_sync io then (file, True)
      else if \<not> io_close io then (file, True)
      else if io_windows io \<and> io_remove io = None then (file, True)
      else
        (let file = (if io_windows io then None else file)
         in if \<not> io_rename io then (file, True)
            else if \<not> io_windows io \<and> io_openDir io then (Some data, \<not> io_syncDir io)
            else (Some data, False)))"

section \<open>Refresh\<close>

text \<open>
  The HTTP exchange: no request or no response, a status other than 200, or the body as far as the
  limited reader takes it and whether reading it failed.
\<close>

datatype fetchResult = FetchFailed | FetchStatus int "string \<times> bool"

definition refresh ::
  "topoenv \<Rightarrow> topologyManager \<Rightarrow> string option \<Rightarrow> bool \<Rightarrow> fetchResult \<Rightarrow> gotime \<Rightarrow> persistIO
   \<Rightarrow> topologyManager \<times> string option \<times> bool" where
  "refresh T m file parentDone fetch now io =
     (if \<not> tm_client m \<or> trimSpace (tp_URL (tm_remote m)) = [] then (m, file, False)
      else if parentDone then (m, file, False)
      else
        (case fetch of
           FetchFailed \<Rightarrow> (m, file, False)
         | FetchStatus status (data, readFailed) \<Rightarrow>
             if status \<noteq> 200 then (m, file, False)
             else if readFailed \<or> length data > 2 ^ 20 then (m, file, False)
             else
               (case Verify T data (tm_publicKey m) now False of
                  Inl e \<Rightarrow> (m, file, False)
                | Inr snapshot \<Rightarrow>
                    if (case tm_current m of
                          None \<Rightarrow> False
                        | Some current \<Rightarrow> sn_Generation snapshot \<le> sn_Generation current)
                    then (m, file, True)
                    else
                      (case persistTopologySnapshot io file (sn_Raw snapshot) of
                         (file', True) \<Rightarrow> (m, file', False)
                       | (file', False) \<Rightarrow> (m\<lparr>tm_current := Some snapshot\<rparr>, file', True)))))"

section \<open>Routes\<close>

definition emptyTelegram :: TelegramConfig where
  "emptyTelegram = \<lparr>tg_ConnectTimeoutMs = 0, tg_IdleTimeoutSec = 0, tg_DCMap = None, tg_TestDCMap = None,
     tg_DCOptions = [], tg_TestDCOptions = [], tg_Topology = noTopology\<rparr>"

definition addresses :: "goenv \<Rightarrow> topologyManager \<Rightarrow> int \<Rightarrow> bool \<Rightarrow> bool \<Rightarrow> string list" where
  "addresses E m dc test media =
     (case tm_current m of
        Some snapshot \<Rightarrow>
          (let options = mget [] (if test then sn_Test snapshot else sn_Production snapshot) dc;
               isolated = (if test then emptyTelegram\<lparr>tg_TestDCOptions := [(dc, options)]\<rparr>
                           else emptyTelegram\<lparr>tg_DCOptions := [(dc, options)]\<rparr>)
           in AddressesForRoute E isolated dc test media)
      | None \<Rightarrow> AddressesForRoute E (tm_base m) dc test media)"

text \<open>
  \<open>ensureRoute\<close>. The first look needs no lock; the second part runs under the on-demand lock on the
  state it finds then. The last component says whether a refresh was started.
\<close>

definition ensureRoute_locked ::
  "topoenv \<Rightarrow> topologyManager \<Rightarrow> string option \<Rightarrow> int \<Rightarrow> bool \<Rightarrow> bool \<Rightarrow> gotime
   \<Rightarrow> bool \<Rightarrow> fetchResult \<Rightarrow> gotime \<Rightarrow> persistIO \<Rightarrow> topologyManager \<times> string option \<times> string list \<times> bool" where
  "ensureRoute_locked T m file dc test media now parentDone fetch fetched io =
     (let found = addresses (te_go T) m dc test media
      in if found \<noteq> [] then (m, file, found, False)
         else if tm_lastOnDemand m \<noteq> 0 \<and> now - tm_lastOnDemand m < 30 * second then (m, file, [], False)
         else
           (let (m', file', ok) =
              refresh T (m\<lparr>tm_lastOnDemand := now\<rparr>) file parentDone fetch fetched io
            in (m', file', addresses (te_go T) m' dc test media, True)))"

definition ensureRoute ::
  "topoenv \<Rightarrow> topologyManager \<Rightarrow> topologyManager \<Rightarrow> string option \<Rightarrow> int \<Rightarrow> bool \<Rightarrow> bool \<Rightarrow> gotime
   \<Rightarrow> bool \<Rightarrow> fetchResult \<Rightarrow> gotime \<Rightarrow> persistIO \<Rightarrow> topologyManager \<times> string option \<times> string list \<times> bool" where
  "ensureRoute T seen m file dc test media now parentDone fetch fetched io =
     (let found = addresses (te_go T) seen dc test media
      in if found \<noteq> [] then (m, file, found, False)
         else if trimSpace (tp_URL (tm_remote m)) = [] then (m, file, [], False)
         else ensureRoute_locked T m file dc test media now parentDone fetch fetched io)"

text \<open>The delay before the next refresh, without the random factor applied to it in floating point.\<close>

definition refreshBaseDelay :: "int \<Rightarrow> int \<Rightarrow> int" where
  "refreshBaseDelay base failures =
     (let base = (if base \<le> 0 then 15 * 60 * second else base)
      in if failures > 0
         then
           (let exponent = (if failures - 1 > 8 then 8 else failures - 1);
                delay = 30 * second * 2 ^ nat exponent
            in if delay > base then base else delay)
         else base)"

definition configuredDCs :: "topologyManager \<Rightarrow> bool \<Rightarrow> int list" where
  "configuredDCs m test =
     (let seen =
        (case tm_current m of
           Some snapshot \<Rightarrow>
             map fst (filter (\<lambda>(dc, endpoints). dc > 0 \<and> endpoints \<noteq> [])
                        (if test then sn_Test snapshot else sn_Production snapshot))
         | None \<Rightarrow>
             map fst (filter (\<lambda>(dc, address). dc > 0 \<and> trimSpace address \<noteq> [])
                        (nilmap (if test then tg_TestDCMap (tm_base m) else tg_DCMap (tm_base m))))
             @ map fst (filter (\<lambda>(dc, endpoints). dc > 0 \<and> endpoints \<noteq> [])
                          (if test then tg_TestDCOptions (tm_base m) else tg_DCOptions (tm_base m))))
      in sorted_list_of_set (set seen))"

definition topology_source :: "topologyManager \<Rightarrow> string" where
  "topology_source m =
     (case tm_current m of
        None \<Rightarrow> ''owner-config''
      | Some s \<Rightarrow> ''signed-bundle:'' @ decimal (unat (sn_Generation s)))"

definition topology_dynamic :: "topologyManager \<Rightarrow> bool" where
  "topology_dynamic m \<longleftrightarrow> trimSpace (tp_URL (tm_remote m)) \<noteq> []"

definition revision :: "topologyManager \<Rightarrow> 64 word" where
  "revision m = (case tm_current m of None \<Rightarrow> 0 | Some s \<Rightarrow> sn_Generation s)"

section \<open>Dialling the bundle source\<close>

text \<open>
  \<open>dialSafeTopologySource\<close>: the addresses are the literal or the resolver's answer; \<open>reach\<close> says
  whether a connection to an address succeeds. The result is the address connected to.
\<close>

definition dialSafeTopologySource ::
  "(string \<Rightarrow> ip list option) \<Rightarrow> (string \<Rightarrow> bool) \<Rightarrow> string \<Rightarrow> string + ip" where
  "dialSafeTopologySource lookup reach address =
     (case splitHostPort address of
        None \<Rightarrow> Inl ''invalid topology source address''
      | Some (host, port) \<Rightarrow>
          (case (case parseIP (trimChars brackets host) of
                   Some ip \<Rightarrow> Some [ip]
                 | None \<Rightarrow> lookup host) of
             None \<Rightarrow> Inl ''lookup''
           | Some candidates \<Rightarrow>
               if candidates = [] then Inl ''topology source resolved to no addresses''
               else if list_ex (\<lambda>ip. \<not> IsSafeTelegramIP (Some ip)) candidates
               then Inl ''topology source resolved to a non-public address''
               else
                 (case find (\<lambda>ip. reach (joinHostPort (ip_string ip) port)) candidates of
                    Some ip \<Rightarrow> Inr ip
                  | None \<Rightarrow> Inl ''dial'')))"

end
