(* ===== verification/Topology_Props.thy ===== *)
theory Topology_Props
  imports Topology_Manager Config_Props
begin

text \<open>
  Properties of the signed topology: what a verified bundle guarantees, the round trip of signing and
  verifying, the durability of the last-known-good snapshot across restarts, the rate limit of
  on-demand refreshes, and the routes the manager offers.
\<close>

section \<open>Verified bundles\<close>

lemma cloneRoutes_id [simp]: "cloneRoutes r = r"
  by (simp add: cloneRoutes_def)

lemma validatePayload_ok:
  "validatePayload T p now allow = None \<longleftrightarrow>
     pl_Schema p = Schema \<and> pl_Generation p \<noteq> 0
     \<and> (\<exists>nb ex. ge_rfc3339 (te_go T) (pl_NotBefore p) = Some nb
          \<and> ge_rfc3339 (te_go T) (pl_ExpiresAt p) = Some ex
          \<and> nb < ex \<and> nb \<le> now + 300 * nanosecond_second \<and> (allow \<or> now < ex)
          \<and> ex - nb \<le> 90 * 24 * 3600 * nanosecond_second)
     \<and> pl_Production p \<noteq> []
     \<and> ValidateTelegramDCOptions (te_go T) (pl_Production p) = None
     \<and> ValidateTelegramDCOptions (te_go T) (pl_Test p) = None"
  by (auto simp: validatePayload_def not_less split: option.splits if_splits)

text \<open>Everything a successful verification has checked.\<close>

definition verified :: "topoenv \<Rightarrow> string \<Rightarrow> nat list \<Rightarrow> int \<Rightarrow> bool \<Rightarrow> Snapshot \<Rightarrow> bool" where
  "verified T data key now allow s \<longleftrightarrow>
     (\<exists>b canonical signature.
        data \<noteq> [] \<and> length data \<le> 2 ^ 20 \<and> te_decode T data = Some (b, True)
        \<and> validatePayload T (bundle_payload b) now allow = None
        \<and> te_marshal T (bundle_payload b) = Some canonical
        \<and> decodeBase64 (bu_Signature b) = Some signature \<and> length signature = 64 \<and> length key = 32
        \<and> te_verify T key canonical signature
        \<and> s = \<lparr>sn_Generation = bu_Generation b, sn_NotBefore = parsed_time T (bu_NotBefore b),
               sn_ExpiresAt = parsed_time T (bu_ExpiresAt b), sn_Production = bu_Production b,
               sn_Test = bu_Test b, sn_Raw = data\<rparr>)"

lemma Verify_verified: "Verify T data key now allow = Inr s \<longleftrightarrow> verified T data key now allow s"
  by (auto simp: Verify_def verified_def Let_def bundle_payload_def
      split: if_splits option.splits prod.splits)

text \<open>A bundle that was accepted stays loadable: the load at startup tolerates expiry.\<close>

lemma Verify_later:
  "Verify T data key now allow = Inr s \<Longrightarrow> now \<le> later \<Longrightarrow> Verify T data key later True = Inr s"
  unfolding Verify_verified verified_def validatePayload_ok by (elim exE conjE) (intro exI conjI; simp)

lemma Verify_routes:
  assumes "Verify T data key now allow = Inr s"
  shows "ValidateTelegramDCOptions (te_go T) (sn_Production s) = None"
    and "ValidateTelegramDCOptions (te_go T) (sn_Test s) = None"
    and "sn_Raw s = data" and "sn_Generation s \<noteq> 0"
  using assms unfolding Verify_verified verified_def validatePayload_ok
  by (auto simp: bundle_payload_def)

text \<open>
  The laws of the JSON codec and of Ed25519 the round trip relies on. The encoder replaces invalid
  UTF-8 and writes the members of a map in key order, so a value comes back as it was when its texts
  are UTF-8 and its maps are listed by key, which is how a decoded map is listed.
\<close>

definition json_text :: "string \<Rightarrow> bool" where
  "json_text s \<longleftrightarrow> utf8_valid (codes s)"

definition json_routes :: "routes \<Rightarrow> bool" where
  "json_routes m \<longleftrightarrow> sorted_wrt (<) (map fst m)
     \<and> (\<forall>(dc, endpoints) \<in> set m. \<forall>e \<in> set endpoints.
          json_text (ep_Address e) \<and> json_text (ep_Role e) \<and> json_text (ep_Secret e))"

definition json_payload :: "Payload \<Rightarrow> bool" where
  "json_payload p \<longleftrightarrow> json_text (pl_NotBefore p) \<and> json_text (pl_ExpiresAt p)
     \<and> json_routes (pl_Production p) \<and> json_routes (pl_Test p)"

definition json_roundtrip :: "topoenv \<Rightarrow> bool" where
  "json_roundtrip T \<longleftrightarrow>
     (\<forall>b d. json_payload (bundle_payload b) \<longrightarrow> json_text (bu_Signature b) \<longrightarrow> te_marshalIndent T b = Some d
        \<longrightarrow> d \<noteq> [] \<and> te_decode T d = Some (b, True))"

lemma json_text_ascii: "\<forall>c \<in> set s. is_ascii c \<Longrightarrow> json_text s"
  unfolding json_text_def by (rule utf8_valid_ascii) (auto simp: codes_def is_ascii_def)

definition key_pair :: "topoenv \<Rightarrow> nat list \<Rightarrow> nat list \<Rightarrow> bool" where
  "key_pair T public private \<longleftrightarrow> length public = 32
     \<and> (\<forall>m. length (te_sign T private m) = 64 \<and> (\<forall>b \<in> set (te_sign T private m). b < 256)
          \<and> te_verify T public m (te_sign T private m))"

text \<open>
  A bundle the tool signed is accepted under the matching key, also with blanks after it that the decoder
  skips.
\<close>

lemma Sign_verified:
  assumes "Sign T payload private now = Inr data" and "json_roundtrip T" and "key_pair T public private"
    and "json_payload payload" and "length (data @ rest) \<le> 2 ^ 20" and "now \<le> later"
    and "allow \<or> later < parsed_time T (pl_ExpiresAt payload)"
    and "te_decode T (data @ rest) = te_decode T data"
  shows "Verify T (data @ rest) public later allow =
    Inr \<lparr>sn_Generation = pl_Generation payload, sn_NotBefore = parsed_time T (pl_NotBefore payload),
         sn_ExpiresAt = parsed_time T (pl_ExpiresAt payload), sn_Production = pl_Production payload,
         sn_Test = pl_Test payload, sn_Raw = data @ rest\<rparr>"
proof -
  obtain canonical where c: "validatePayload T payload now False = None"
    "te_marshal T payload = Some canonical"
    and m: "te_marshalIndent T
      \<lparr>bu_Schema = pl_Schema payload, bu_Generation = pl_Generation payload,
       bu_NotBefore = pl_NotBefore payload, bu_ExpiresAt = pl_ExpiresAt payload,
       bu_Production = pl_Production payload, bu_Test = pl_Test payload,
       bu_Signature = b64Encode StdAlphabet False (te_sign T private canonical)\<rparr> = Some data"
    (is "te_marshalIndent T ?b = _")
    using assms(1) by (auto simp: Sign_def split: option.splits if_splits)
  have p: "bundle_payload ?b = payload" by (simp add: bundle_payload_def)
  have "json_text (bu_Signature ?b)"
    using assms(3) by (auto simp: key_pair_def intro!: json_text_ascii plain_ascii b64Encode_plain)
  then have d: "data @ rest \<noteq> []" "te_decode T (data @ rest) = Some (?b, True)"
    using assms(2,4,8) m p unfolding json_roundtrip_def by (metis append_is_Nil_conv)+
  have sig: "decodeBase64 (bu_Signature ?b) = Some (te_sign T private canonical)"
    using assms(3) by (simp add: decodeBase64_def key_pair_def b64Decode_encode_raw)
  have "validatePayload T payload later allow = None"
    using c(1) assms(6,7) by (auto simp: validatePayload_ok parsed_time_def)
  then show ?thesis
    unfolding Verify_verified verified_def
    using d sig c(2) assms(3,5) p
    by (intro exI [of _ ?b] exI [of _ canonical] exI [of _ "te_sign T private canonical"])
      (auto simp: key_pair_def)
qed

text \<open>
  Signing and verifying are inverse: a bundle the signing tool produces from a payload is
  accepted under the matching public key at any later moment before it expires, and also after its
  expiry when it is loaded as the last-known-good state; the snapshot holds the payload's routes.
\<close>

theorem Sign_Verify:
  assumes "Sign T payload private now = Inr data" and "json_roundtrip T" and "key_pair T public private"
    and "json_payload payload" and "length data \<le> 2 ^ 20" and "now \<le> later"
    and "allow \<or> later < parsed_time T (pl_ExpiresAt payload)"
  shows "Verify T data public later allow =
    Inr \<lparr>sn_Generation = pl_Generation payload, sn_NotBefore = parsed_time T (pl_NotBefore payload),
         sn_ExpiresAt = parsed_time T (pl_ExpiresAt payload), sn_Production = pl_Production payload,
         sn_Test = pl_Test payload, sn_Raw = data\<rparr>"
  using Sign_verified [of T payload "private" now data "public" "[]", OF assms(1-4)] assms(5-7) by simp

section \<open>Refresh and restart\<close>

lemma persist_cases:
  assumes "persistTopologySnapshot io disk data = (disk', err)"
  shows "disk' = Some data \<or> (err \<and> (disk' = disk \<or> io_windows io \<and> disk' = None))"
  using assms by (auto simp: persistTopologySnapshot_def Let_def split: if_splits)

text \<open>What a refresh can do to the manager and its state file.\<close>

lemma refresh_cases:
  assumes "refresh T m disk parentDone fetch now io = (m', disk', ok)"
  obtains (unchanged) "m' = m" "disk' = disk"
    | (lost) "m' = m" "disk' = None" "io_windows io"
    | (stored) data s where "m' = m" "tm_client m" "Verify T data (tm_publicKey m) now False = Inr s" "disk' = Some data"
        "\<forall>c. tm_current m = Some c \<longrightarrow> sn_Generation c < sn_Generation s"
    | (applied) data s where "m' = m\<lparr>tm_current := Some s\<rparr>" "tm_client m" "ok"
        "Verify T data (tm_publicKey m) now False = Inr s" "disk' = Some data"
        "\<forall>c. tm_current m = Some c \<longrightarrow> sn_Generation c < sn_Generation s"
proof (cases "m' = m \<and> disk' = disk")
  case True
  then show ?thesis using unchanged by blast
next
  case False
  then obtain status data s where v: "fetch = FetchStatus status (data, False)" "tm_client m"
    "Verify T data (tm_publicKey m) now False = Inr s"
    "\<forall>c. tm_current m = Some c \<longrightarrow> sn_Generation c < sn_Generation s"
    using assms
    by (auto simp: refresh_def not_le split: if_splits fetchResult.splits prod.splits sum.splits option.splits)
  obtain f err where p: "persistTopologySnapshot io disk (sn_Raw s) = (f, err)" by fastforce
  have n: "\<not> (case tm_current m of None \<Rightarrow> False | Some c \<Rightarrow> sn_Generation s \<le> sn_Generation c)"
    using v(4) by (auto simp: not_le split: option.splits)
  have r: "(m', disk', ok) = (case persistTopologySnapshot io disk (sn_Raw s) of
      (f', True) \<Rightarrow> (m, f', False) | (f', False) \<Rightarrow> (m\<lparr>tm_current := Some s\<rparr>, f', True))"
    using assms False v n by (auto simp: refresh_def split: if_splits)
  have raw: "sn_Raw s = data" using Verify_routes(3) [OF v(3)] .
  show ?thesis
  proof (cases err)
    case True
    then have "m' = m" "disk' = f" using r p by simp_all
    then show ?thesis using stored [OF _ v(2,3) _ v(4)] lost persist_cases [OF p] raw False by auto
  next
    case no: False
    then have "m' = m\<lparr>tm_current := Some s\<rparr>" "disk' = f" "ok" using r p by simp_all
    then show ?thesis using applied [OF _ v(2) _ v(3) _ v(4)] persist_cases [OF p] raw no by auto
  qed
qed

text \<open>
  The manager with its state file and the clock, on a Windows system or another; a step is a refresh by
  either of its callers, at any clock reading. A run that starts here may have a bundle source or not.
\<close>

type_synonym topoState = "topologyManager \<times> string option \<times> gotime"

fun on_disk :: "string option \<Rightarrow> readFile" where
  "on_disk None = FileAbsent"
| "on_disk (Some d) = FileData d"

inductive topo_step :: "bool \<Rightarrow> topoenv \<Rightarrow> topoState \<Rightarrow> topoState \<Rightarrow> bool" for windows T where
  timer_refresh: "io_windows io = windows \<Longrightarrow>
    refresh T m disk parentDone fetch now' io = (m', disk', ok) \<Longrightarrow>
    topo_step windows T (m, disk, now) (m', disk', now')"
| demand_refresh: "io_windows io = windows \<Longrightarrow>
    ensureRoute_locked T m disk dc test media start parentDone fetch now' io = (m', disk', found, started) \<Longrightarrow>
    topo_step windows T (m, disk, now) (m', disk', now')"

inductive_cases topo_stepE: "topo_step windows T s t"

text \<open>The steps of a system whose clock does not go back.\<close>

definition forward_step :: "bool \<Rightarrow> topoenv \<Rightarrow> topoState \<Rightarrow> topoState \<Rightarrow> bool" where
  "forward_step windows T s t \<longleftrightarrow> topo_step windows T s t \<and> snd (snd s) \<le> snd (snd t)"

definition topo_init :: "topoenv \<Rightarrow> TelegramConfig \<Rightarrow> topoState \<Rightarrow> bool" where
  "topo_init T tg st \<longleftrightarrow> (case st of (m, disk, now) \<Rightarrow> newTopologyManager T tg (on_disk disk) now = Inr m)"

text \<open>What holds at any clock reading: the owner's configuration, and a snapshot that once verified.\<close>

definition topo_inv :: "topoenv \<Rightarrow> TelegramConfig \<Rightarrow> topoState \<Rightarrow> bool" where
  "topo_inv T tg st \<longleftrightarrow> (case st of (m, disk, now) \<Rightarrow>
     tm_base m = tg \<and> tm_remote m = tg_Topology tg
     \<and> (if trimSpace (tp_URL (tg_Topology tg)) = [] then \<not> tm_client m \<and> tm_current m = None
        else decodeTopologyPublicKey (tp_PublicKey (tg_Topology tg)) = Some (tm_publicKey m))
     \<and> (\<forall>c. tm_current m = Some c \<longrightarrow> (\<exists>d t. Verify T d (tm_publicKey m) t True = Inr c)))"

lemma topo_invD:
  assumes "topo_inv T tg (m, disk, now)"
  shows "tm_base m = tg" and "tm_remote m = tg_Topology tg"
    and "trimSpace (tp_URL (tg_Topology tg)) = [] \<Longrightarrow> \<not> tm_client m \<and> tm_current m = None"
    and "trimSpace (tp_URL (tg_Topology tg)) \<noteq> [] \<Longrightarrow>
      decodeTopologyPublicKey (tp_PublicKey (tg_Topology tg)) = Some (tm_publicKey m)"
    and "tm_current m = Some c \<Longrightarrow> \<exists>d t. Verify T d (tm_publicKey m) t True = Inr c"
  using assms unfolding topo_inv_def prod.case by (simp_all split: if_splits)

text \<open>What the state file holds when the clock only goes forward.\<close>

definition file_inv :: "bool \<Rightarrow> topoenv \<Rightarrow> topoState \<Rightarrow> bool" where
  "file_inv windows T st \<longleftrightarrow> (case st of (m, disk, now) \<Rightarrow>
     case disk of
       None \<Rightarrow> windows \<or> tm_current m = None
     | Some d \<Rightarrow> tm_publicKey m \<noteq> [] \<longrightarrow>
         (\<exists>s. Verify T d (tm_publicKey m) now True = Inr s
           \<and> (\<forall>c. tm_current m = Some c \<longrightarrow> sn_Generation c \<le> sn_Generation s)))"

lemma topo_inv_refresh:
  assumes "topo_inv T tg (m, disk, now)" and "refresh T m disk parentDone fetch now' io = (m', disk', ok)"
  shows "topo_inv T tg (m', disk', now')"
  using assms(2)
proof (cases rule: refresh_cases)
  case (applied data s)
  have "Verify T data (tm_publicKey m) now' True = Inr s" using applied(4) by (rule Verify_later) simp
  moreover have "trimSpace (tp_URL (tg_Topology tg)) \<noteq> []" using topo_invD(3) [OF assms(1)] applied(2) by blast
  ultimately show ?thesis using assms(1) by (auto simp: topo_inv_def applied(1))
next
  case unchanged
  then show ?thesis using assms(1) by (simp add: topo_inv_def)
next
  case lost
  then show ?thesis using assms(1) by (simp add: topo_inv_def)
next
  case (stored data s)
  then show ?thesis using assms(1) unfolding topo_inv_def prod.case by metis
qed

lemma file_inv_refresh:
  assumes "file_inv (io_windows io) T (m, disk, now)" and "now \<le> now'"
    and "refresh T m disk parentDone fetch now' io = (m', disk', ok)"
  shows "file_inv (io_windows io) T (m', disk', now')"
  using assms(3)
proof (cases rule: refresh_cases)
  case unchanged
  then show ?thesis using assms(1) Verify_later [OF _ assms(2)] by (fastforce simp: file_inv_def split: option.splits)
next
  case (stored data s)
  have "Verify T data (tm_publicKey m) now' True = Inr s" using stored(3) by (rule Verify_later) simp
  then show ?thesis using stored(5) by (auto simp: file_inv_def stored(1,4) less_imp_le)
next
  case (applied data s)
  have "Verify T data (tm_publicKey m) now' True = Inr s" using applied(4) by (rule Verify_later) simp
  then show ?thesis by (simp add: file_inv_def applied(1,5))
qed (simp add: file_inv_def)

text \<open>A request marks the moment it started a refresh.\<close>

lemma inv_mark:
  "topo_inv T tg (m\<lparr>tm_lastOnDemand := t\<rparr>, disk, now) = topo_inv T tg (m, disk, now)"
  "file_inv w T (m\<lparr>tm_lastOnDemand := t\<rparr>, disk, now) = file_inv w T (m, disk, now)"
  by (simp_all add: topo_inv_def file_inv_def split: option.split)

lemma ensureRoute_locked_cases:
  assumes "ensureRoute_locked T m disk dc test media start pd fetch fetched io = (m', disk', found, started)"
  obtains (still) "m' = m" "disk' = disk" "\<not> started"
    | (ran) ok where "started" "tm_lastOnDemand m = 0 \<or> 30 * second \<le> start - tm_lastOnDemand m"
        "refresh T (m\<lparr>tm_lastOnDemand := start\<rparr>) disk pd fetch fetched io = (m', disk', ok)"
  using assms by (auto simp: ensureRoute_locked_def Let_def split: if_splits prod.splits)

text \<open>A step runs a refresh, on the manager as it is or marked, or changes nothing but the clock.\<close>

lemma topo_step_refresh:
  assumes "topo_step w T (m, disk, now) (m', disk', now')"
  obtains (still) "m' = m" "disk' = disk"
    | (ran) io pd fetch ok m0 where "io_windows io = w" "refresh T m0 disk pd fetch now' io = (m', disk', ok)"
        "m0 = m \<or> (\<exists>t. m0 = m\<lparr>tm_lastOnDemand := t\<rparr>)"
  using assms
proof cases
  case (timer_refresh io pd fetch ok)
  then show thesis using ran by blast
next
  case (demand_refresh io dc test media start pd fetch found started)
  from demand_refresh(2) show thesis
    by (cases rule: ensureRoute_locked_cases) (use still ran demand_refresh(1) in blast)+
qed

lemma topo_inv_step: "topo_inv T tg st \<Longrightarrow> topo_step w T st st' \<Longrightarrow> topo_inv T tg st'"
proof -
  obtain m disk now m' disk' now' where st: "st = (m, disk, now)" "st' = (m', disk', now')" by (metis prod_cases3)
  assume inv: "topo_inv T tg st" and step: "topo_step w T st st'"
  from step [unfolded st] show ?thesis
  proof (cases rule: topo_step_refresh)
    case still
    then show ?thesis using inv by (simp add: st topo_inv_def)
  next
    case (ran io pd fetch ok m0)
    then have "topo_inv T tg (m0, disk, now)" using inv inv_mark(1) st by auto
    then show ?thesis using topo_inv_refresh ran(2) st by blast
  qed
qed

lemma file_inv_step: "file_inv w T st \<Longrightarrow> forward_step w T st st' \<Longrightarrow> file_inv w T st'"
proof -
  obtain m disk now m' disk' now' where st: "st = (m, disk, now)" "st' = (m', disk', now')" by (metis prod_cases3)
  assume inv: "file_inv w T st" and "forward_step w T st st'"
  then have step: "topo_step w T (m, disk, now) (m', disk', now')" and n: "now \<le> now'"
    by (simp_all add: forward_step_def st)
  from step show ?thesis
  proof (cases rule: topo_step_refresh)
    case still
    then show ?thesis
      using inv Verify_later [OF _ n] by (fastforce simp: st file_inv_def split: option.splits)
  next
    case (ran io pd fetch ok m0)
    then have "file_inv (io_windows io) T (m0, disk, now)" using inv inv_mark(2) st by auto
    then show ?thesis using file_inv_refresh [OF _ n ran(2)] ran(1) st by simp
  qed
qed

lemma newTopologyManager_ok:
  assumes "newTopologyManager T tg sf now = Inr m" and "trimSpace (tp_URL (tg_Topology tg)) \<noteq> []"
  shows "decodeTopologyPublicKey (tp_PublicKey (tg_Topology tg)) = Some (tm_publicKey m)"
    and "tm_base m = tg" and "tm_remote m = tg_Topology tg" and "tm_client m"
    and "\<forall>d. sf = FileData d \<longrightarrow> (\<exists>s. tm_current m = Some s \<and> Verify T d (tm_publicKey m) now True = Inr s)"
    and "sf = FileAbsent \<longrightarrow> tm_current m = None"
  using assms by (auto simp: newTopologyManager_def Let_def split: option.splits readFile.splits sum.splits)

lemma newTopologyManager_static:
  assumes "newTopologyManager T tg sf now = Inr m" and "trimSpace (tp_URL (tg_Topology tg)) = []"
  shows "tm_base m = tg" and "tm_remote m = tg_Topology tg" and "\<not> tm_client m" and "tm_current m = None"
    and "tm_publicKey m = []"
  using assms by (auto simp: newTopologyManager_def Let_def)

lemma topo_inv_init:
  assumes "topo_init T tg st"
  shows "topo_inv T tg st" and "file_inv w T st"
proof -
  obtain m disk now where st: "st = (m, disk, now)" by (cases st)
  have i: "newTopologyManager T tg (on_disk disk) now = Inr m" using assms by (simp add: st topo_init_def)
  have "topo_inv T tg st \<and> file_inv w T st"
  proof (cases "trimSpace (tp_URL (tg_Topology tg)) = []")
    case True
    then show ?thesis
      using newTopologyManager_static [OF i True] by (simp add: st topo_inv_def file_inv_def split: option.split)
  next
    case False
    note n = newTopologyManager_ok [OF i False]
    show ?thesis
    proof (cases disk)
      case None
      then show ?thesis using False n by (simp add: st topo_inv_def file_inv_def)
    next
      case (Some d)
      then obtain s where "tm_current m = Some s" "Verify T d (tm_publicKey m) now True = Inr s" using n(5) by auto
      then show ?thesis using False n(1-3) Some unfolding st topo_inv_def file_inv_def by auto
    qed
  qed
  then show "topo_inv T tg st" "file_inv w T st" by simp_all
qed

interpretation topology: invariant_system "topo_init T tg" "topo_step w T" "topo_inv T tg" for w T tg
  by unfold_locales (fact topo_inv_init(1), fact topo_inv_step)

interpretation topology_file: invariant_system "topo_init T tg" "forward_step w T"
  "\<lambda>st. topo_inv T tg st \<and> file_inv w T st" for w T tg
  by unfold_locales (auto simp: forward_step_def intro: topo_inv_init topo_inv_step file_inv_step)

text \<open>
  Claim C20. Restarts never roll the topology back. Take a relay with or without a bundle source, on any
  system, whose clock does not go back: after any sequence of timed and on-demand refreshes (failed,
  rejected and half-persisted ones included), a restart at any later moment loads its state file without
  error and starts with a generation at least as high as the one it was serving, even if the bundle has
  expired meanwhile; the one exception is a Windows system that lost the state file (it removes the file
  before the rename, which may fail).
\<close>

theorem restart_keeps_generation:
  assumes "reachable (topo_init T tg) (forward_step windows T) (m, disk, now)" and "now \<le> later"
  shows "\<exists>m'. newTopologyManager T tg (on_disk disk) later = Inr m'
    \<and> (revision m \<le> revision m' \<or> windows \<and> disk = None)"
proof -
  have inv: "topo_inv T tg (m, disk, now)" and kept: "file_inv windows T (m, disk, now)"
    using topology_file.inv_reachable [OF assms(1)] by simp_all
  show ?thesis
  proof (cases "trimSpace (tp_URL (tg_Topology tg)) = []")
    case True
    then show ?thesis using topo_invD(3) [OF inv] by (simp add: newTopologyManager_def revision_def)
  next
    case False
    have key: "decodeTopologyPublicKey (tp_PublicKey (tg_Topology tg)) = Some (tm_publicKey m)"
      using topo_invD(4) [OF inv False] .
    then have k: "tm_publicKey m \<noteq> []" by (auto simp: decodeTopologyPublicKey_def Let_def split: option.splits if_splits)
    show ?thesis
    proof (cases disk)
      case None
      then show ?thesis
        using kept False key by (auto simp: newTopologyManager_def file_inv_def revision_def Let_def)
    next
      case (Some d)
      then obtain s where s: "Verify T d (tm_publicKey m) now True = Inr s"
        and g: "\<forall>c. tm_current m = Some c \<longrightarrow> sn_Generation c \<le> sn_Generation s"
        using kept k by (auto simp: file_inv_def)
      have "Verify T d (tm_publicKey m) later True = Inr s" using s assms(2) by (rule Verify_later)
      then show ?thesis
        using False key Some g by (cases "tm_current m") (auto simp: newTopologyManager_def revision_def Let_def)
    qed
  qed
qed

text \<open>
  Claim C35. The generation served never decreases: no refresh, timed or on demand, on any response,
  at any clock reading and with any file system failure, lowers the revision; it changes only to
  a snapshot that verified with its validity period still running.
\<close>

lemma refresh_current:
  assumes "refresh T m disk pd fetch now io = (m', disk', ok)"
  shows "tm_current m' = tm_current m \<or>
    (\<exists>data s. tm_current m' = Some s \<and> Verify T data (tm_publicKey m) now False = Inr s
       \<and> (\<forall>c. tm_current m = Some c \<longrightarrow> sn_Generation c < sn_Generation s))"
  using assms
  by (auto simp: refresh_def not_le split: if_splits fetchResult.splits prod.splits sum.splits option.splits
      bool.splits)

theorem refresh_monotone:
  assumes "refresh T m disk parentDone fetch now io = (m', disk', ok)"
  shows "revision m \<le> revision m' \<and> (tm_current m' \<noteq> tm_current m \<longrightarrow>
    (\<exists>data s. tm_current m' = Some s \<and> Verify T data (tm_publicKey m) now False = Inr s))"
  using refresh_current [OF assms] by (auto simp: revision_def less_imp_le split: option.splits)

section \<open>The on-demand rate limit\<close>

text \<open>A sequence of locked on-demand requests, and when they started a refresh.\<close>

record demand =
  dm_dc :: int
  dm_test :: bool
  dm_media :: bool
  dm_now :: gotime
  dm_parentDone :: bool
  dm_fetch :: fetchResult
  dm_fetched :: gotime
  dm_io :: persistIO

fun demand_starts :: "topoenv \<Rightarrow> topologyManager \<Rightarrow> string option \<Rightarrow> demand list \<Rightarrow> gotime list" where
  "demand_starts T m disk [] = []"
| "demand_starts T m disk (d # ds) =
     (case ensureRoute_locked T m disk (dm_dc d) (dm_test d) (dm_media d) (dm_now d) (dm_parentDone d)
             (dm_fetch d) (dm_fetched d) (dm_io d) of
        (m', disk', found, started) \<Rightarrow>
          (if started then [dm_now d] else []) @ demand_starts T m' disk' ds)"

lemma refresh_lastOnDemand:
  "refresh T m disk pd fetch now io = (m', disk', ok) \<Longrightarrow> tm_lastOnDemand m' = tm_lastOnDemand m"
  by (auto simp: refresh_def split: if_splits fetchResult.splits prod.splits sum.splits option.splits bool.splits)

lemma demand_starts_spaced:
  "\<forall>d \<in> set ds. 0 < dm_now d \<Longrightarrow>
     successively (\<lambda>a b. 30 * second \<le> b - a) (demand_starts T m disk ds)
     \<and> (tm_lastOnDemand m \<noteq> 0 \<longrightarrow> demand_starts T m disk ds \<noteq> [] \<longrightarrow>
          30 * second \<le> hd (demand_starts T m disk ds) - tm_lastOnDemand m)"
proof (induction ds arbitrary: m disk)
  case (Cons d ds)
  obtain m' disk' found started where e: "ensureRoute_locked T m disk (dm_dc d) (dm_test d) (dm_media d)
      (dm_now d) (dm_parentDone d) (dm_fetch d) (dm_fetched d) (dm_io d) = (m', disk', found, started)"
    by (metis prod_cases4)
  have IH: "successively (\<lambda>a b. 30 * second \<le> b - a) (demand_starts T m' disk' ds)"
    "tm_lastOnDemand m' \<noteq> 0 \<Longrightarrow> demand_starts T m' disk' ds \<noteq> [] \<Longrightarrow>
       30 * second \<le> hd (demand_starts T m' disk' ds) - tm_lastOnDemand m'"
    using Cons.IH [of m' disk'] Cons.prems by simp_all
  from e show ?case
  proof (cases rule: ensureRoute_locked_cases)
    case still
    then show ?thesis using IH e by simp
  next
    case (ran ok)
    then have "tm_lastOnDemand m' = dm_now d" using refresh_lastOnDemand by fastforce
    then show ?thesis
      using IH e ran Cons.prems by (cases "demand_starts T m' disk' ds") auto
  qed
qed simp

text \<open>
  Rate limit: whatever routes clients ask for, any two consecutive refreshes started on
  demand are at least thirty seconds apart, so unknown DC numbers cannot flood the bundle source.
\<close>

theorem on_demand_rate_limited:
  assumes "\<forall>d \<in> set ds. 0 < dm_now d"
  shows "successively (\<lambda>a b. 30 * second \<le> b - a) (demand_starts T m disk ds)"
  using demand_starts_spaced [OF assms] by blast

section \<open>The routes offered\<close>

lemma empty_dcmaps: "validateDCMap (nilmap None) = None" "validateDCMap [] = None"
  "ValidateTelegramDCOptions E [] = None"
  by (simp_all add: validateDCMap_def nilmap_def ValidateTelegramDCOptions_def maxTelegramDCs_def
      maxTelegramEndpoints_def maxEndpointsPerDC_def)

lemma mget_single [simp]: "mget z [(k, v)] k = v"
  by (simp add: mget_def)

text \<open>An address of a route is public when the validated options it comes from are.\<close>

lemma role_addresses_public:
  assumes "ValidateTelegramDCOptions E routes = None" and "a \<in> set (role_addresses E (mget [] routes dc) role)"
  shows "validateTelegramAddress a = None"
proof -
  obtain e where "e \<in> set (mget [] routes dc)" "a = normalizeTelegramAddress (ep_Address e)"
    using role_addresses_mem [OF assms(2)] by blast
  then show ?thesis using options_address [OF assms(1)] by simp
qed

lemma addresses_snapshot:
  assumes "tm_current m = Some s"
  shows "addresses E m dc test media =
    route_spec E (mget [] (if test then sn_Test s else sn_Production s) dc) [] media"
  using assms by (simp add: addresses_def Let_def AddressesForRoute_eq emptyTelegram_def nilmap_def)

lemma route_spec_mem:
  assumes "a \<in> set (route_spec E opts legacy media)"
  shows "(\<exists>role. a \<in> set (role_addresses E opts role)) \<or> a = normalizeTelegramAddress legacy"
  using assms by (auto simp: route_spec_def Let_def split: if_splits)

lemma offered_public:
  assumes "Validate (te_go T) c = (c', None)"
    and "reachable (topo_init T (cf_Telegram c')) (topo_step windows T) (m, disk, now)"
    and "address \<in> set (addresses (te_go T) m dc test media)"
  shows "validateTelegramAddress address = None"
proof -
  have inv: "topo_inv T (cf_Telegram c') (m, disk, now)" using assms(2) by (rule topology.inv_reachable)
  show ?thesis
  proof (cases "tm_current m")
    case None
    then have "address \<in> set (AddressesForRoute (te_go T) (cf_Telegram c') dc test media)"
      using assms(3) topo_invD(1) [OF inv] by (simp add: addresses_def)
    then show ?thesis using validated_routes_public [OF Validate_routes(1-4) [OF assms(1)]] by blast
  next
    case (Some s)
    obtain d t where v: "Verify T d (tm_publicKey m) t True = Inr s"
      using topo_invD(5) [OF inv Some] by blast
    let ?routes = "if test then sn_Test s else sn_Production s"
    have r: "ValidateTelegramDCOptions (te_go T) ?routes = None"
      using Verify_routes(1,2) [OF v] by simp
    have a: "address \<in> set (route_spec (te_go T) (mget [] ?routes dc) [] media)"
      using assms(3) addresses_snapshot [OF Some] by simp
    then have "address \<noteq> []" by (auto simp: route_spec_def Let_def split: if_splits)
    then obtain role where "address \<in> set (role_addresses (te_go T) (mget [] ?routes dc) role)"
      using route_spec_mem [OF a] by auto
    then show ?thesis by (rule role_addresses_public [OF r])
  qed
qed

text \<open>
  Claim C13. No route ever leads inside: in every state the topology manager can reach from a validated
  configuration, with or without a bundle source, on any system, at any clock readings and through any
  signed bundle it accepts, each address it offers for any DC is a public IP literal with a valid port.
\<close>

theorem manager_routes_public:
  assumes "Validate (te_go T) c = (c', None)"
    and "reachable (topo_init T (cf_Telegram c')) (topo_step windows T) (m, disk, now)"
    and "address \<in> set (addresses (te_go T) m dc test media)"
  shows "validateTelegramAddress address = None"
  using assms by (rule offered_public)

lemma endpoint_roles:
  "validateEndpoints E eps seen = None \<Longrightarrow> e \<in> set eps \<Longrightarrow> effective_role E e \<in> {''regular'', ''media'', ''cdn''}"
  by (induction eps arbitrary: seen) (auto simp: Let_def effective_role_def)

lemma valid_address_nonempty: "validateTelegramAddress a = None \<Longrightarrow> a \<noteq> []"
  by (auto simp: validateTelegramAddress_def splitHostPort_def last_index_of_def index_of_def)

lemma options_nonempty_route:
  assumes "ValidateTelegramDCOptions E routes = None" and "mget [] routes dc \<noteq> []"
  shows "route_spec E (mget [] routes dc) legacy True \<noteq> []"
proof -
  obtain e where e: "e \<in> set (mget [] routes dc)" using assms(2) by (cases "mget [] routes dc") auto
  have "validateEndpoints E (mget [] routes dc) [] = None"
    using assms(1) mget_member [of "[]" routes dc] assms(2) by (fastforce simp: ValidateTelegramDCOptions_def)
  then have role: "effective_role E e \<in> {''regular'', ''media'', ''cdn''}" using e by (rule endpoint_roles)
  have "normalizeTelegramAddress (ep_Address e) \<noteq> []"
    using options_address [OF assms(1) e] by (rule valid_address_nonempty)
  moreover have "normalizeTelegramAddress (ep_Address e) \<in>
      set (role_addresses E (mget [] routes dc) (effective_role E e))"
    using e by (auto simp: role_addresses_def)
  ultimately have "normalizeTelegramAddress (ep_Address e) \<in> set (keep_first (filter (\<lambda>a. a \<noteq> [])
      (concat (map (role_addresses E (mget [] routes dc)) [''media'', ''cdn'', ''regular'']))))"
    using role by auto
  then show ?thesis by (auto simp: route_spec_def Let_def simp del: set_keep_first)
qed

text \<open>The decoder yields maps, so every DC is bound once.\<close>

definition decoded_maps :: "topoenv \<Rightarrow> bool" where
  "decoded_maps T \<longleftrightarrow> (\<forall>d b e. te_decode T d = Some (b, e) \<longrightarrow> gomap_ok (bu_Production b) \<and> gomap_ok (bu_Test b))"

definition config_maps :: "TelegramConfig \<Rightarrow> bool" where
  "config_maps t \<longleftrightarrow> gomap_ok (nilmap (tg_DCMap t)) \<and> gomap_ok (nilmap (tg_TestDCMap t))
     \<and> gomap_ok (tg_DCOptions t) \<and> gomap_ok (tg_TestDCOptions t)"

lemma gomap_mget: "gomap_ok m \<Longrightarrow> (k, v) \<in> set m \<Longrightarrow> mget z m k = v"
  by (simp add: mget_def gomap_ok_map_of)

lemma mget_nonzero: "mget z m k \<noteq> z \<Longrightarrow> (k, mget z m k) \<in> set m"
  by (rule mget_member)

lemma Verify_maps:
  assumes "decoded_maps T" and "Verify T data key now allow = Inr s"
  shows "gomap_ok (sn_Production s)" and "gomap_ok (sn_Test s)"
  using assms unfolding Verify_verified verified_def decoded_maps_def by fastforce+

lemma in_keys: "gomap_ok m \<Longrightarrow> k \<in> set (map fst (filter (\<lambda>(k, v). P k v) m)) \<longleftrightarrow>
    (\<exists>v. (k, v) \<in> set m \<and> P k v)"
  by force

lemma in_keys_mget:
  assumes "gomap_ok m" and "\<not> P k z"
  shows "k \<in> set (map fst (filter (\<lambda>(k, v). P k v) m)) \<longleftrightarrow> P k (mget z m k)"
proof -
  have "(\<exists>v. (k, v) \<in> set m \<and> P k v) \<longleftrightarrow> P k (mget z m k)"
  proof
    assume "\<exists>v. (k, v) \<in> set m \<and> P k v"
    then obtain v where "(k, v) \<in> set m" "P k v" by blast
    then show "P k (mget z m k)" using gomap_mget [OF assms(1), of k v z] by simp
  next
    assume p: "P k (mget z m k)"
    then have "mget z m k \<noteq> z" using assms(2) by metis
    then show "\<exists>v. (k, v) \<in> set m \<and> P k v" using mget_nonzero p by metis
  qed
  then show ?thesis unfolding in_keys [OF assms(1)] .
qed

lemma role_addresses_Nil [simp]: "role_addresses E [] role = []"
  by (simp add: role_addresses_def)

lemma route_spec_options: "route_spec E [] legacy media = filter (\<lambda>a. a \<noteq> []) [normalizeTelegramAddress legacy]"
  by (simp add: route_spec_def keep_first_def)

lemma normalize_blank: "trimSpace a = [] \<Longrightarrow> normalizeTelegramAddress a = []"
  by (simp add: normalizeTelegramAddress_def)

lemma options_keys:
  assumes "gomap_ok routes"
  shows "dc \<in> set (map fst (filter (\<lambda>(dc, eps). 0 < dc \<and> eps \<noteq> []) routes)) \<longleftrightarrow> 0 < dc \<and> mget [] routes dc \<noteq> []"
  by (rule in_keys_mget [OF assms]) simp

lemma dcmap_keys:
  assumes "gomap_ok m" and "validateDCMap m = None"
  shows "dc \<in> set (map fst (filter (\<lambda>(dc, a). 0 < dc \<and> trimSpace a \<noteq> []) m))
    \<longleftrightarrow> 0 < dc \<and> normalizeTelegramAddress (mget [] m dc) \<noteq> []"
proof -
  let ?a = "mget [] m dc"
  have "trimSpace ?a \<noteq> [] \<longleftrightarrow> normalizeTelegramAddress ?a \<noteq> []"
  proof
    assume "trimSpace ?a \<noteq> []"
    then have "?a \<noteq> []" by auto
    then have "(dc, ?a) \<in> set m" by (rule mget_nonzero)
    then show "normalizeTelegramAddress ?a \<noteq> []"
      using dcmap_address [OF assms(2)] valid_address_nonempty by blast
  qed (use normalize_blank in blast)
  then show ?thesis using in_keys_mget [OF assms(1), of "\<lambda>dc a. 0 < dc \<and> trimSpace a \<noteq> []" dc "[]"] by simp
qed

lemma config_route_nonempty:
  assumes "ValidateTelegramDCOptions E routes = None"
  shows "route_spec E (mget [] routes dc) legacy True \<noteq> [] \<longleftrightarrow>
    mget [] routes dc \<noteq> [] \<or> normalizeTelegramAddress legacy \<noteq> []"
  using options_nonempty_route [OF assms, of dc legacy]
  by (cases "mget [] routes dc = []") (auto simp: route_spec_options)

text \<open>
  The DCs the relay advertises are exactly those it can route: in every reachable state a
  positive DC is listed by \<open>configuredDCs\<close> if and only if the manager offers an address for its
  media route, and the list is sorted without repetition.
\<close>

theorem configuredDCs_routable:
  assumes "Validate (te_go T) c = (c', None)" and "config_maps (cf_Telegram c')" and "decoded_maps T"
    and "reachable (topo_init T (cf_Telegram c')) (topo_step windows T) (m, disk, now)"
  shows "(dc \<in> set (configuredDCs m test) \<longleftrightarrow> 0 < dc \<and> addresses (te_go T) m dc test True \<noteq> [])
    \<and> sorted (configuredDCs m test) \<and> distinct (configuredDCs m test)"
proof -
  have inv: "topo_inv T (cf_Telegram c') (m, disk, now)" using assms(4) by (rule topology.inv_reachable)
  have "dc \<in> set (configuredDCs m test) \<longleftrightarrow> 0 < dc \<and> addresses (te_go T) m dc test True \<noteq> []"
  proof (cases "tm_current m")
    case None
    let ?t = "cf_Telegram c'"
    have b: "tm_base m = ?t" using topo_invD(1) [OF inv] .
    have m: "gomap_ok (nilmap (if test then tg_TestDCMap ?t else tg_DCMap ?t))"
      "gomap_ok (if test then tg_TestDCOptions ?t else tg_DCOptions ?t)"
      "validateDCMap (nilmap (if test then tg_TestDCMap ?t else tg_DCMap ?t)) = None"
      "ValidateTelegramDCOptions (te_go T) (if test then tg_TestDCOptions ?t else tg_DCOptions ?t) = None"
      using assms(2) Validate_routes(1-4) [OF assms(1)] by (simp_all add: config_maps_def)
    have "dc \<in> set (configuredDCs m test) \<longleftrightarrow>
        0 < dc \<and> normalizeTelegramAddress (mget [] (nilmap (if test then tg_TestDCMap ?t else tg_DCMap ?t)) dc) \<noteq> []
        \<or> 0 < dc \<and> mget [] (if test then tg_TestDCOptions ?t else tg_DCOptions ?t) dc \<noteq> []"
      unfolding options_keys [OF m(2), symmetric] dcmap_keys [OF m(1,3), symmetric]
      using None b by (simp add: configuredDCs_def Let_def)
    then show ?thesis
      using None b config_route_nonempty [OF m(4)] by (auto simp: addresses_def AddressesForRoute_eq)
  next
    case (Some s)
    obtain d t where v: "Verify T d (tm_publicKey m) t True = Inr s"
      using topo_invD(5) [OF inv Some] by blast
    let ?routes = "if test then sn_Test s else sn_Production s"
    have r: "gomap_ok ?routes" "ValidateTelegramDCOptions (te_go T) ?routes = None"
      using Verify_maps [OF assms(3) v] Verify_routes(1,2) [OF v] by simp_all
    have "dc \<in> set (configuredDCs m test) \<longleftrightarrow> 0 < dc \<and> mget [] ?routes dc \<noteq> []"
      unfolding options_keys [OF r(1), symmetric] using Some by (simp add: configuredDCs_def Let_def)
    then show ?thesis
      using config_route_nonempty [OF r(2)] unfolding addresses_snapshot [OF Some] by auto
  qed
  then show ?thesis by (simp add: configuredDCs_def Let_def)
qed

end
