(* ===== verification/Sample_Topology.thy ===== *)
theory Sample_Topology
  imports Topology_Props
begin

text \<open>
  A concrete topology environment (one bundle, one key pair, a codec that knows that bundle) and the
  instances of the topology properties at it.
\<close>

definition sample_endpoint :: TelegramEndpoint where
  "sample_endpoint = \<lparr>ep_Address = ''149.154.167.51'', ep_Role = [], ep_Static = False,
     ep_ThisPortOnly = False, ep_TCPOOnly = False, ep_Secret = []\<rparr>"

definition sample_payload :: Payload where
  "sample_payload = \<lparr>pl_Schema = 1, pl_Generation = 7, pl_NotBefore = ''a'', pl_ExpiresAt = ''bbb'',
     pl_Production = [(2, [sample_endpoint])], pl_Test = []\<rparr>"

definition sample_public :: "nat list" where "sample_public = replicate 32 0"
definition sample_private :: "nat list" where "sample_private = replicate 64 1"

definition sample_bundle :: Bundle where
  "sample_bundle = \<lparr>bu_Schema = 1, bu_Generation = 7, bu_NotBefore = ''a'', bu_ExpiresAt = ''bbb'',
     bu_Production = [(2, [sample_endpoint])], bu_Test = [],
     bu_Signature = b64Encode StdAlphabet False (replicate 64 9)\<rparr>"

definition sample_topoenv :: topoenv where
  "sample_topoenv = \<lparr>te_go = sample_env,
     te_decode = (\<lambda>d. if d = ''bundle'' then Some (sample_bundle, True) else None),
     te_marshal = (\<lambda>p. Some ''payload''),
     te_marshalIndent = (\<lambda>b. if b = sample_bundle then Some ''bundle'' else None),
     te_verify = (\<lambda>key m sig. key = sample_public \<and> sig = replicate 64 9),
     te_sign = (\<lambda>key m. replicate 64 9)\<rparr>"

lemma sample_routes: "ValidateTelegramDCOptions sample_env [(2, [sample_endpoint])] = None"
  by (simp add: ValidateTelegramDCOptions_def sample_endpoint_def lower_role_def effective_role_def
      toLower_def sample_normalize sample_valid_address maxTelegramDCs_def maxEndpointsPerDC_def
      maxTelegramEndpoints_def)

lemma sample_te_go [simp]: "te_go sample_topoenv = sample_env"
  by (simp add: sample_topoenv_def)

lemma sample_rfc3339: "ge_rfc3339 sample_env ''a'' = Some 1" "ge_rfc3339 sample_env ''bbb'' = Some 3"
  by (simp_all add: sample_env_def)

lemma sample_payload_valid: "now \<in> {0..2} \<Longrightarrow> validatePayload sample_topoenv sample_payload now False = None"
  unfolding validatePayload_ok
  by (simp add: sample_payload_def Schema_def sample_routes empty_dcmaps sample_rfc3339
      nanosecond_second_def)

lemma sample_Sign: "Sign sample_topoenv sample_payload sample_private 0 = Inr ''bundle''"
proof -
  have "validatePayload sample_topoenv sample_payload 0 False = None" by (rule sample_payload_valid) simp
  then show ?thesis
    by (simp add: Sign_def) (simp add: sample_topoenv_def sample_private_def sample_payload_def sample_bundle_def)
qed

lemma sample_json: "json_payload sample_payload"
  by (simp add: json_payload_def sample_payload_def sample_endpoint_def json_routes_def json_text_def codes_def
      utf8_valid_def runeError_def)

lemma sample_laws: "json_roundtrip sample_topoenv" "key_pair sample_topoenv sample_public sample_private"
  "decoded_maps sample_topoenv"
  by (auto simp: json_roundtrip_def key_pair_def decoded_maps_def sample_topoenv_def sample_public_def
      sample_bundle_def gomap_ok_def)

definition sample_snapshot :: Snapshot where
  "sample_snapshot = \<lparr>sn_Generation = 7, sn_NotBefore = 1, sn_ExpiresAt = 3,
     sn_Production = [(2, [sample_endpoint])], sn_Test = [], sn_Raw = ''bundle''\<rparr>"

lemma sample_times: "parsed_time sample_topoenv ''a'' = 1" "parsed_time sample_topoenv ''bbb'' = 3"
  by (simp_all add: parsed_time_def sample_topoenv_def sample_env_def)

theorem Sign_Verify_witness:
  "Verify sample_topoenv ''bundle'' sample_public 2 False = Inr sample_snapshot"
  using Sign_Verify [OF sample_Sign sample_laws(1,2) sample_json, of 2 False]
  by (simp add: sample_payload_def sample_snapshot_def sample_times)

lemma sample_Verify: "Verify sample_topoenv ''bundle'' sample_public 2 False = Inr sample_snapshot"
proof -
  have p: "bundle_payload sample_bundle = sample_payload"
    by (simp add: bundle_payload_def sample_bundle_def sample_payload_def)
  have s: "decodeBase64 (bu_Signature sample_bundle) = Some (replicate 64 9)"
    by (simp add: decodeBase64_def sample_bundle_def b64Decode_encode_raw)
  show ?thesis
    unfolding Verify_verified verified_def
    by (intro exI [of _ sample_bundle] exI [of _ "''payload''"] exI [of _ "replicate 64 9"])
      (use s sample_payload_valid [of 2] p in \<open>simp add: sample_topoenv_def sample_public_def,
        simp add: sample_snapshot_def sample_bundle_def parsed_time_def sample_env_def\<close>)
qed

definition sample_telegram :: TelegramConfig where
  "sample_telegram = (cf_Telegram sample_config)\<lparr>tg_Topology :=
     \<lparr>tp_URL = ''https://t'', tp_PublicKey = b64Encode StdAlphabet False sample_public,
      tp_StatePath = ''/state'', tp_RefreshIntervalSec = 900\<rparr>\<rparr>"

lemma sample_key: "decodeTopologyPublicKey (b64Encode StdAlphabet False sample_public) = Some sample_public"
proof -
  have b: "\<forall>b \<in> set sample_public. b < 256" by (simp add: sample_public_def)
  have "trimSpace (b64Encode StdAlphabet False sample_public) = b64Encode StdAlphabet False sample_public"
    using b64Encode_plain [OF b] by (intro trimSpace_all_plain) blast
  then show ?thesis
    by (simp add: decodeTopologyPublicKey_def b64Decode_encode_raw [OF b] Let_def) (simp add: sample_public_def)
qed

definition sample_manager :: topologyManager where
  "sample_manager = \<lparr>tm_lastOnDemand = 0, tm_base = sample_telegram, tm_remote = tg_Topology sample_telegram,
     tm_publicKey = sample_public, tm_current = None, tm_client = True\<rparr>"

lemma sample_url: "trimSpace (tp_URL (tg_Topology sample_telegram)) \<noteq> []"
  by (simp add: sample_telegram_def plain_char_def)

lemma sample_new: "newTopologyManager sample_topoenv sample_telegram FileAbsent 1 = Inr sample_manager"
  using sample_url by (simp add: newTopologyManager_def sample_manager_def sample_telegram_def sample_key)

definition all_io :: persistIO where
  "all_io = \<lparr>io_windows = False, io_mkdir = True, io_createTemp = True, io_chmod = True, io_write = True,
     io_sync = True, io_close = True, io_remove = Some True, io_rename = True, io_openDir = True, io_syncDir = True\<rparr>"

lemma sample_refresh:
  "refresh sample_topoenv sample_manager None False (FetchStatus 200 (''bundle'', False)) 2 all_io
   = (sample_manager\<lparr>tm_current := Some sample_snapshot\<rparr>, Some ''bundle'', True)"
proof -
  have c: "tm_client sample_manager" "tm_remote sample_manager = tg_Topology sample_telegram"
    "tm_publicKey sample_manager = sample_public" "tm_current sample_manager = None"
    by (simp_all add: sample_manager_def)
  have p: "persistTopologySnapshot all_io None (sn_Raw sample_snapshot) = (Some ''bundle'', False)"
    by (simp add: persistTopologySnapshot_def all_io_def sample_snapshot_def)
  show ?thesis
    using sample_url by (simp add: refresh_def c sample_Verify p)
qed

lemma sample_reachable:
  "reachable (topo_init sample_topoenv sample_telegram) (topo_step False sample_topoenv)
     (sample_manager\<lparr>tm_current := Some sample_snapshot\<rparr>, Some ''bundle'', 2)"
  "reachable (topo_init sample_topoenv sample_telegram) (forward_step False sample_topoenv)
     (sample_manager\<lparr>tm_current := Some sample_snapshot\<rparr>, Some ''bundle'', 2)"
proof -
  have i: "topo_init sample_topoenv sample_telegram (sample_manager, None, 1)"
    using sample_new by (simp add: topo_init_def)
  have s: "topo_step False sample_topoenv (sample_manager, None, 1)
      (sample_manager\<lparr>tm_current := Some sample_snapshot\<rparr>, Some ''bundle'', 2)"
    by (rule timer_refresh [OF _ sample_refresh]) (simp add: all_io_def)
  then have f: "forward_step False sample_topoenv (sample_manager, None, 1)
      (sample_manager\<lparr>tm_current := Some sample_snapshot\<rparr>, Some ''bundle'', 2)"
    by (simp add: forward_step_def)
  show "reachable (topo_init sample_topoenv sample_telegram) (topo_step False sample_topoenv)
      (sample_manager\<lparr>tm_current := Some sample_snapshot\<rparr>, Some ''bundle'', 2)"
    using i s by (blast intro: reachable_init reachable_step)
  show "reachable (topo_init sample_topoenv sample_telegram) (forward_step False sample_topoenv)
      (sample_manager\<lparr>tm_current := Some sample_snapshot\<rparr>, Some ''bundle'', 2)"
    using i f by (blast intro: reachable_init reachable_step)
qed

theorem restart_keeps_generation_witness:
  "\<exists>m'. newTopologyManager sample_topoenv sample_telegram (FileData ''bundle'') 1000 = Inr m' \<and> 7 \<le> revision m'"
  using restart_keeps_generation [OF sample_reachable(2), of 1000]
  by (simp add: revision_def sample_snapshot_def)

theorem refresh_monotone_witness:
  "revision sample_manager \<le> revision (sample_manager\<lparr>tm_current := Some sample_snapshot\<rparr>)"
  using refresh_monotone [OF sample_refresh] by blast

theorem on_demand_rate_limited_witness:
  "successively (\<lambda>a b. 30 * second \<le> b - a) (demand_starts sample_topoenv sample_manager None
     [\<lparr>dm_dc = 99, dm_test = False, dm_media = False, dm_now = 5, dm_parentDone = False,
       dm_fetch = FetchFailed, dm_fetched = 6, dm_io = all_io\<rparr>,
      \<lparr>dm_dc = 98, dm_test = False, dm_media = False, dm_now = 7, dm_parentDone = False,
       dm_fetch = FetchFailed, dm_fetched = 8, dm_io = all_io\<rparr>])"
  by (rule on_demand_rate_limited) simp

text \<open>A configuration with this topology is accepted.\<close>

definition sample_dynamic :: Config where
  "sample_dynamic = sample_config\<lparr>cf_Telegram := sample_telegram\<rparr>"

lemma sample_topology_ok: "validateTopology sample_env (tg_Topology sample_telegram) = None"
proof -
  have k: "decodeKey32 (b64Encode StdAlphabet False sample_public) = Some sample_public"
    using sample_key by (auto simp: decodeTopologyPublicKey_def decodeKey32_def Let_def split: option.splits if_splits)
  have l: "length sample_public = 32" by (simp add: sample_public_def)
  show ?thesis
    using sample_url
    by (simp add: validateTopology_def sample_telegram_def k sample_env_def validHost_def plain_char_def
        trimSuffix_def hasSuffix_def hasPrefix_def parseIP_def parseIPv4_def parse_octet_def
        parse_digits_def is_digit_def is_alnum_def is_lower_def validStatePath_def l)
qed

lemma sample_dynamic_Validate: "Validate sample_env sample_dynamic = (sample_dynamic, None)"
proof -
  have d: "applyDefaults sample_dynamic = sample_dynamic"
    using sample_config_Validate
    by (simp add: applyDefaults_def applyDefaults_telegram_def applyDefaults_websocket_def
        applyDefaults_topology_def sample_dynamic_def sample_telegram_def sample_config_def
        defaultConfig_def noTopology_def sample_trims plain_char_def)
  have s: "\<forall>e \<in> set (validate_checks sample_env sample_config). e = None"
    by (rule Validate_ok(2) [OF sample_config_Validate])
  have t: "tg_ConnectTimeoutMs sample_telegram = tg_ConnectTimeoutMs (cf_Telegram sample_config)"
    "tg_IdleTimeoutSec sample_telegram = tg_IdleTimeoutSec (cf_Telegram sample_config)"
    "tg_DCMap sample_telegram = tg_DCMap (cf_Telegram sample_config)"
    "tg_TestDCMap sample_telegram = tg_TestDCMap (cf_Telegram sample_config)"
    "tg_DCOptions sample_telegram = tg_DCOptions (cf_Telegram sample_config)"
    "tg_TestDCOptions sample_telegram = tg_TestDCOptions (cf_Telegram sample_config)"
    by (simp_all add: sample_telegram_def)
  have "\<forall>e \<in> set (validate_checks sample_env sample_dynamic). e = None"
    using s sample_topology_ok by (simp add: validate_checks_def Let_def sample_dynamic_def t)
  moreover have "\<not> negative_limits sample_dynamic"
    using Validate_ok(3) [OF sample_config_Validate] by (simp add: negative_limits_def sample_dynamic_def t Let_def)
  ultimately show ?thesis using d by (simp add: Validate_def)
qed

lemma sample_maps: "config_maps (cf_Telegram sample_dynamic)"
  by (simp add: config_maps_def sample_dynamic_def sample_telegram_def sample_config_def defaultConfig_def
      nilmap_def gomap_ok_def)

lemma sample_dynamic_reachable:
  "reachable (topo_init sample_topoenv (cf_Telegram sample_dynamic)) (topo_step False sample_topoenv)
     (sample_manager\<lparr>tm_current := Some sample_snapshot\<rparr>, Some ''bundle'', 2)"
  using sample_reachable(1) by (simp add: sample_dynamic_def)

lemma sample_offered:
  "addresses sample_env (sample_manager\<lparr>tm_current := Some sample_snapshot\<rparr>) 2 False True = [''149.154.167.51:443'']"
proof -
  have e: "effective_role sample_env sample_endpoint = ''regular''"
    by (simp add: effective_role_def lower_role_def sample_endpoint_def toLower_def)
  have "role_addresses sample_env [sample_endpoint] r = (if r = ''regular'' then [''149.154.167.51:443''] else [])" for r
    using e by (simp add: role_addresses_def) (simp add: sample_endpoint_def sample_normalize)
  then show ?thesis
    by (simp add: addresses_snapshot [of _ sample_snapshot] sample_snapshot_def route_spec_def keep_first_def)
qed

theorem manager_routes_public_witness: "validateTelegramAddress ''149.154.167.51:443'' = None"
  by (rule manager_routes_public [of sample_topoenv sample_dynamic sample_dynamic False
        "sample_manager\<lparr>tm_current := Some sample_snapshot\<rparr>" "Some ''bundle''" 2 _ 2 False True])
    (use sample_dynamic_Validate sample_dynamic_reachable sample_offered in simp_all)

theorem configuredDCs_routable_witness:
  "2 \<in> set (configuredDCs (sample_manager\<lparr>tm_current := Some sample_snapshot\<rparr>) False)"
  using configuredDCs_routable [of sample_topoenv sample_dynamic sample_dynamic False
      "sample_manager\<lparr>tm_current := Some sample_snapshot\<rparr>" "Some ''bundle''" 2 2 False]
    sample_dynamic_Validate sample_dynamic_reachable sample_offered sample_maps sample_laws(3) by simp

end
