(* ===== verification/Topology_Refresh.thy ===== *)
theory Topology_Refresh
  imports Topology_Props "HOL-Library.Log_Nat"
begin

text \<open>
  The goroutine of \<open>topologyManager.start\<close>: refresh, count the failures, wait a randomised delay. The
  delay is computed in double precision, so the rounding of every operation is written out; values here
  lie far inside the range of normal numbers.
\<close>

section \<open>Double precision\<close>

text \<open>The exponent of the binade of a positive number.\<close>

definition binade :: "rat \<Rightarrow> int" where
  "binade x =
     (let (p, q) = quotient_of x; e = bitlen p - bitlen q
      in if 2 powi e \<le> x then e else e - 1)"

definition roundHalfEven :: "rat \<Rightarrow> int" where
  "roundHalfEven y =
     (let f = \<lfloor>y\<rfloor>; d = y - of_int f
      in if d < 1 / 2 \<or> d = 1 / 2 \<and> even f then f else f + 1)"

definition float64 :: "rat \<Rightarrow> rat" where
  "float64 x =
     (if x \<le> 0 then 0
      else
        (let ulp = 2 powi (binade x - 52)
         in of_int (roundHalfEven (x / ulp)) * ulp))"

section \<open>The delay\<close>

text \<open>
  A Go compiler may fuse a product and the sum it goes into, on a processor that has the operation:
  \<open>fused\<close> says whether the product with the random number is rounded before it is added.
\<close>

definition nextTopologyRefreshDelay :: "bool \<Rightarrow> int \<Rightarrow> int \<Rightarrow> rat \<Rightarrow> int" where
  "nextTopologyRefreshDelay fused base failures randomUnit =
     (let randomUnit = (if randomUnit < 0 then 0 else if randomUnit > 1 then 1 else randomUnit);
          delay = refreshBaseDelay base failures;
          spread = float64 (if failures > 0 then 2 / 5 else 1 / 5);
          product = (if fused then spread * randomUnit else float64 (spread * randomUnit));
          factor = float64 (float64 (1 - float64 (spread / 2)) + product)
      in \<lfloor>float64 (float64 (of_int delay) * factor)\<rfloor>)"

section \<open>The goroutine\<close>

text \<open>What one turn finds outside: the refresh and the random number.\<close>

record refreshRun =
  rr_parentDone :: bool
  rr_fetch :: fetchResult
  rr_now :: gotime
  rr_io :: persistIO
  rr_random :: rat
  rr_fused :: bool

definition refresh_turn ::
  "topoenv \<Rightarrow> refreshRun \<Rightarrow> topologyManager \<Rightarrow> string option \<Rightarrow> int
   \<Rightarrow> topologyManager \<times> string option \<times> bool \<times> int \<times> int" where
  "refresh_turn T r m file failures =
     (let (m, file, ok) = refresh T m file (rr_parentDone r) (rr_fetch r) (rr_now r) (rr_io r);
          failures = (if ok then 0 else failures + 1)
      in (m, file, ok, failures,
          nextTopologyRefreshDelay (rr_fused r) (tp_RefreshIntervalSec (tm_remote m) * second) failures (rr_random r)))"

text \<open>
  The goroutine beside the manager it works on: its failure counter, when its timer fires, whether it
  still runs, and its turns so far, latest first, with end, success and the delay chosen.
\<close>

record refresher =
  rl_topo :: topoState
  rl_failures :: int
  rl_due :: gotime
  rl_running :: bool
  rl_turns :: "(gotime \<times> bool \<times> int) list"

definition startRefresher :: "topoState \<Rightarrow> refresher" where
  "startRefresher st =
     (case st of (m, disk, now) \<Rightarrow>
        \<lparr>rl_topo = st, rl_failures = 0, rl_due = now, rl_running = (trimSpace (tp_URL (tm_remote m)) \<noteq> []), rl_turns = []\<rparr>)"

inductive refresher_step :: "bool \<Rightarrow> topoenv \<Rightarrow> refresher \<Rightarrow> refresher \<Rightarrow> bool" for windows T where
  turn: "rl_running s \<Longrightarrow> rl_topo s = (m, disk, now) \<Longrightarrow> now \<le> rr_now r \<Longrightarrow> rl_due s \<le> rr_now r \<Longrightarrow>
    io_windows (rr_io r) = windows \<Longrightarrow> refresh_turn T r m disk (rl_failures s) = (m', disk', ok, failures, delay) \<Longrightarrow>
    rr_now r \<le> ended \<Longrightarrow>
    refresher_step windows T s (s\<lparr>rl_topo := (m', disk', rr_now r), rl_failures := failures, rl_due := ended + delay,
      rl_turns := (ended, ok, delay) # rl_turns s\<rparr>)"
| request: "rl_topo s = (m, disk, now) \<Longrightarrow> now \<le> now' \<Longrightarrow> io_windows io = windows \<Longrightarrow>
    ensureRoute_locked T m disk dc test media start parentDone fetch now' io = (m', disk', found, started) \<Longrightarrow>
    refresher_step windows T s (s\<lparr>rl_topo := (m', disk', now')\<rparr>)"
| stop: "rl_running s \<Longrightarrow> refresher_step windows T s (s\<lparr>rl_running := False\<rparr>)"

definition refresher_init :: "topoenv \<Rightarrow> TelegramConfig \<Rightarrow> refresher \<Rightarrow> bool" where
  "refresher_init T tg s \<longleftrightarrow> (\<exists>st. topo_init T tg st \<and> s = startRefresher st)"

section \<open>Rounding\<close>

lemma binade_bounds:
  assumes "0 < x"
  shows "2 powi binade x \<le> x"
proof -
  obtain p q where pq: "quotient_of x = (p, q)" by fastforce
  have q: "0 < q" and x: "x = of_int p / of_int q"
    using quotient_of_denom_pos [OF pq] quotient_of_div [OF pq] by simp_all
  have p: "0 < p" using assms x q by (simp add: zero_less_divide_iff)
  have "2 ^ nat (bitlen p - 1) \<le> p" "q < 2 ^ nat (bitlen q)"
    using bitlen_bounds [OF p] bitlen_bounds [OF q] by blast+
  then have b: "(2 :: rat) ^ nat (bitlen p - 1) \<le> of_int p" "of_int q \<le> (2 :: rat) ^ nat (bitlen q)"
    by (metis of_int_le_iff of_int_numeral of_int_power, metis less_imp_le of_int_le_iff of_int_numeral of_int_power)
  have pos: "0 < bitlen p" "0 < bitlen q" using p q by (simp_all add: bitlen_alt_def)
  have e: "int (nat (bitlen p - 1)) = bitlen p - 1" "int (nat (bitlen q)) = bitlen q" using pos by simp_all
  have "(2 :: rat) powi (bitlen p - bitlen q - 1) = 2 powi (bitlen p - 1) / 2 powi (bitlen q)"
    by (subst power_int_diff [symmetric]) (simp_all add: algebra_simps)
  also have "\<dots> = 2 ^ nat (bitlen p - 1) / 2 ^ nat (bitlen q)"
    by (metis e power_int_of_nat)
  also have "\<dots> \<le> of_int p / of_int q"
    using b q p by (intro frac_le) simp_all
  finally show ?thesis using pq x by (auto simp: binade_def Let_def diff_diff_eq)
qed

lemma roundHalfEven_error: "\<bar>of_int (roundHalfEven y) - y\<bar> \<le> 1 / 2"
proof -
  have "of_int \<lfloor>y\<rfloor> \<le> y" "y < of_int \<lfloor>y\<rfloor> + 1" by linarith+
  then show ?thesis by (auto simp: roundHalfEven_def Let_def abs_le_iff)
qed

lemma float64_error:
  assumes "0 \<le> x"
  shows "\<bar>float64 x - x\<bar> \<le> x / 2 ^ 53"
proof (cases "x = 0")
  case False
  then have x: "0 < x" using assms by simp
  define u where "u = (2 :: rat) powi (binade x - 52)"
  have u: "0 < u" by (simp add: u_def)
  have "\<bar>float64 x - x\<bar> = \<bar>of_int (roundHalfEven (x / u)) - x / u\<bar> * u"
    using x u by (simp add: float64_def u_def [symmetric] abs_mult_pos left_diff_distrib)
  also have "\<dots> \<le> 1 / 2 * u" using roundHalfEven_error u by (intro mult_right_mono) simp_all
  also have "\<dots> = 2 powi binade x / 2 ^ 53" by (simp add: u_def power_int_diff)
  also have "\<dots> \<le> x / 2 ^ 53" using binade_bounds [OF x] by (simp add: divide_right_mono)
  finally show ?thesis .
qed (simp add: float64_def)

lemma float64_bounds:
  assumes "0 \<le> x"
  shows "x * (1 - 1 / 2 ^ 53) \<le> float64 x" and "float64 x \<le> x * (1 + 1 / 2 ^ 53)" and "0 \<le> float64 x"
proof -
  show lower: "x * (1 - 1 / 2 ^ 53) \<le> float64 x" and "float64 x \<le> x * (1 + 1 / 2 ^ 53)"
    using float64_error [OF assms] unfolding abs_le_iff by (simp_all add: field_simps)
  have "0 \<le> x * (1 - 1 / 2 ^ 53)" using assms by simp
  then show "0 \<le> float64 x" using lower by linarith
qed

text \<open>The jitter factor keeps within the spread, up to rounding.\<close>

lemma factor_bounds:
  fixes c r :: rat and fused :: bool
  assumes "0 < c" and "c \<le> 2 / 5" and "0 \<le> r" and "r \<le> 1"
  defines "spread \<equiv> float64 c"
  defines "f \<equiv> float64 (float64 (1 - float64 (spread / 2)) + (if fused then spread * r else float64 (spread * r)))"
  shows "1 - c / 2 - 1 / 2 ^ 50 \<le> f" and "f \<le> 1 + c / 2 + 1 / 2 ^ 50"
proof -
  define h where "h = float64 (spread / 2)"
  define a where "a = float64 (1 - h)"
  define b where "b = (if fused then spread * r else float64 (spread * r))"
  note s = float64_bounds [of c, folded spread_def]
  note h = float64_bounds [of "spread / 2", folded h_def]
  have h1: "0 \<le> 1 - h" using s h assms by simp
  note a = float64_bounds [OF h1, folded a_def]
  have m: "0 \<le> spread * r" "spread * r \<le> spread" using s assms(1,3,4) by (simp_all add: mult_left_le)
  have b: "spread * r * (1 - 1 / 2 ^ 53) \<le> b" "b \<le> spread * r * (1 + 1 / 2 ^ 53)" "0 \<le> b"
  proof -
    have "x * (1 - 1 / 2 ^ 53) \<le> x" "x \<le> x * (1 + 1 / 2 ^ 53)" if "0 \<le> x" for x :: rat
      using that by simp_all
    then show "spread * r * (1 - 1 / 2 ^ 53) \<le> b" "b \<le> spread * r * (1 + 1 / 2 ^ 53)" "0 \<le> b"
      using float64_bounds [OF m(1)] m(1) unfolding b_def by (cases fused; simp only: if_True if_False)+
  qed
  have f: "f = float64 (a + b)" by (simp add: f_def a_def b_def h_def)
  note f = float64_bounds [of "a + b", folded f]
  show "1 - c / 2 - 1 / 2 ^ 50 \<le> f" using s h a b m f assms(1,2) by simp
  have "spread * r * (1 + 1 / 2 ^ 53) \<le> spread * (1 + 1 / 2 ^ 53)" using m(2) by (intro mult_right_mono) simp_all
  then have "b \<le> spread * (1 + 1 / 2 ^ 53)" using b(2) by (rule order_trans [rotated])
  then show "f \<le> 1 + c / 2 + 1 / 2 ^ 50" using s h a f b(3) assms(1,2) by simp
qed

lemma product_bounds:
  fixes d :: int
  assumes "lower \<le> f" and "f \<le> upper" and "0 \<le> lower" and "0 < d" and "d \<le> 86400 * second"
  shows "of_int d * (1 - 1 / 2 ^ 53) * lower * (1 - 1 / 2 ^ 53) \<le> float64 (float64 (of_int d) * f)"
    and "float64 (float64 (of_int d) * f) \<le> of_int d * (1 + 1 / 2 ^ 53) * upper * (1 + 1 / 2 ^ 53)"
proof -
  define e where "e = float64 (of_int d)"
  have d: "(0 :: rat) \<le> of_int d" using assms(4) by simp
  note e = float64_bounds [OF d, folded e_def]
  have f: "0 \<le> f" using assms(1,3) by simp
  then have p: "0 \<le> e * f" using e by simp
  note r = float64_bounds [OF p]
  have "of_int d * (1 - 1 / 2 ^ 53) * lower \<le> e * f" using e d assms(1,3) by (intro mult_mono) simp_all
  then have "of_int d * (1 - 1 / 2 ^ 53) * lower * (1 - 1 / 2 ^ 53) \<le> e * f * (1 - 1 / 2 ^ 53)"
    by (rule mult_right_mono) simp
  then show "of_int d * (1 - 1 / 2 ^ 53) * lower * (1 - 1 / 2 ^ 53) \<le> float64 (float64 (of_int d) * f)"
    using r(1) unfolding e_def by (rule order_trans)
  have "e * f \<le> of_int d * (1 + 1 / 2 ^ 53) * upper" using e d f assms(2) by (intro mult_mono) simp_all
  then have "e * f * (1 + 1 / 2 ^ 53) \<le> of_int d * (1 + 1 / 2 ^ 53) * upper * (1 + 1 / 2 ^ 53)"
    by (rule mult_right_mono) simp
  then show "float64 (float64 (of_int d) * f) \<le> of_int d * (1 + 1 / 2 ^ 53) * upper * (1 + 1 / 2 ^ 53)"
    using r(2) unfolding e_def by (rule order_trans [rotated])
qed

text \<open>Which delays a success or a failure may be followed by, in tenths of a nanosecond.\<close>

definition delay_between :: "int \<Rightarrow> int \<Rightarrow> int \<Rightarrow> int \<Rightarrow> bool" where
  "delay_between low high base delay \<longleftrightarrow> low * base - 10 \<le> 10 * delay \<and> 10 * delay \<le> high * base"

lemma floor_tenth:
  assumes "of_int l / 10 - 1 / 10 \<le> (x :: rat)" and "x \<le> of_int h / 10 + 1 / 10" and "h mod 10 = 0" and "l mod 10 = 0"
  shows "l - 10 \<le> 10 * \<lfloor>x\<rfloor> \<and> 10 * \<lfloor>x\<rfloor> \<le> h"
proof -
  obtain k where k: "l = 10 * k" using assms(4) by (auto simp: mod_eq_0_iff_dvd)
  obtain n where n: "h = 10 * n" using assms(3) by (auto simp: mod_eq_0_iff_dvd)
  have "of_int (k - 1) \<le> x" using assms(1) k by simp
  then have "k - 1 \<le> \<lfloor>x\<rfloor>" by (simp only: le_floor_iff)
  moreover have "x < of_int (n + 1)" using assms(2) n by simp
  then have "\<lfloor>x\<rfloor> < n + 1" by (simp only: floor_less_iff)
  ultimately show ?thesis using k n by simp
qed

lemma refreshBaseDelay_range:
  assumes "300 \<le> i" and "i \<le> 86400" and "0 \<le> failures"
  shows "0 < refreshBaseDelay (i * second) failures" and "refreshBaseDelay (i * second) failures \<le> 86400 * second"
    and "refreshBaseDelay (i * second) failures mod 10 = 0"
    and "30 * second \<le> refreshBaseDelay (i * second) failures" and "refreshBaseDelay (i * second) failures \<le> i * second"
proof -
  have b: "300000000000 \<le> i * second" "i * second \<le> 86400 * second" using assms by (simp_all add: second_def)
  have one: "(1 :: int) \<le> 2 ^ n" for n by simp
  have p: "30 * second \<le> 30 * second * 2 ^ n" for n
    using mult_left_mono [OF one [of n], of "30 * second"] by (simp add: second_def)
  have m: "(i * second) mod 10 = 0" "(30 * second * 2 ^ n) mod 10 = 0" for n
    by (simp_all add: second_def mod_eq_0_iff_dvd dvd_mult dvd_mult2)
  show "30 * second \<le> refreshBaseDelay (i * second) failures" "refreshBaseDelay (i * second) failures \<le> i * second"
    "refreshBaseDelay (i * second) failures mod 10 = 0"
    using b p m by (auto simp: refreshBaseDelay_def Let_def second_def)
  then show "0 < refreshBaseDelay (i * second) failures" "refreshBaseDelay (i * second) failures \<le> 86400 * second"
    using b by (simp_all add: second_def)
qed

lemma nextTopologyRefreshDelay_bounds:
  assumes "300 \<le> i" and "i \<le> 86400" and "0 \<le> failures"
  shows "delay_between (if failures > 0 then 8 else 9) (if failures > 0 then 12 else 11)
    (refreshBaseDelay (i * second) failures) (nextTopologyRefreshDelay fused (i * second) failures r)"
proof -
  define d where "d = refreshBaseDelay (i * second) failures"
  note range = refreshBaseDelay_range [OF assms, folded d_def]
  have D: "0 < (of_int d :: rat)" "(of_int d :: rat) \<le> 86400000000000"
    using range(1,2) by (simp_all add: second_def)
  define u where "u = (if r < 0 then 0 else if r > 1 then 1 else r)"
  have u: "0 \<le> u" "u \<le> 1" by (simp_all add: u_def)
  define c where "c = (if failures > 0 then 2 / 5 else 1 / 5 :: rat)"
  define f where "f = float64 (float64 (1 - float64 (float64 c / 2))
    + (if fused then float64 c * u else float64 (float64 c * u)))"
  have c: "0 < c" "c \<le> 2 / 5" by (simp_all add: c_def)
  note f = factor_bounds [OF c u, where fused = fused, folded f_def]
  have n: "nextTopologyRefreshDelay fused (i * second) failures r = \<lfloor>float64 (float64 (of_int d) * f)\<rfloor>"
    by (simp add: nextTopologyRefreshDelay_def d_def f_def c_def u_def Let_def)
  have l: "0 \<le> 1 - c / 2 - 1 / 2 ^ 50" using c by simp
  note p = product_bounds [OF f l range(1,2)]
  have m: "(k * d) mod 10 = 0" for k using range(3) by (simp add: mod_eq_0_iff_dvd)
  show ?thesis
  proof (cases "failures > 0")
    case True
    then have "of_int (8 * d) / 10 - 1 / 10 \<le> float64 (float64 (of_int d) * f)"
      "float64 (float64 (of_int d) * f) \<le> of_int (12 * d) / 10 + 1 / 10" using p D by (simp_all add: c_def)
    from floor_tenth [OF this m m] show ?thesis using True by (simp add: n delay_between_def d_def)
  next
    case False
    then have "of_int (9 * d) / 10 - 1 / 10 \<le> float64 (float64 (of_int d) * f)"
      "float64 (float64 (of_int d) * f) \<le> of_int (11 * d) / 10 + 1 / 10" using p D by (simp_all add: c_def)
    from floor_tenth [OF this m m] show ?thesis using False by (simp add: n delay_between_def d_def)
  qed
qed

section \<open>Runs of the goroutine\<close>

definition failed_in_a_row :: "(gotime \<times> bool \<times> int) list \<Rightarrow> int" where
  "failed_in_a_row turns = int (length (takeWhile (\<lambda>(ended, ok, delay). \<not> ok) turns))"

lemma failed_in_a_row_simps [simp]:
  "failed_in_a_row [] = 0"
  "failed_in_a_row ((ended, ok, delay) # turns) = (if ok then 0 else failed_in_a_row turns + 1)"
  "0 \<le> failed_in_a_row turns"
  by (simp_all add: failed_in_a_row_def)

text \<open>
  With the interval \<open>i\<close> in seconds: each turn chose a delay for the failures in a row up to it, and the
  next turn came no earlier.
\<close>

fun paced :: "int \<Rightarrow> (gotime \<times> bool \<times> int) list \<Rightarrow> bool" where
  "paced i [] = True"
| "paced i ((ended, ok, delay) # turns) \<longleftrightarrow>
     delay_between (if ok then 9 else 8) (if ok then 11 else 12)
       (refreshBaseDelay (i * second) (failed_in_a_row ((ended, ok, delay) # turns))) delay
     \<and> (case turns of [] \<Rightarrow> True | (ended', ok', delay') # earlier \<Rightarrow> ended' + delay' \<le> ended)
     \<and> paced i turns"

definition interval_ok :: "TelegramConfig \<Rightarrow> bool" where
  "interval_ok tg \<longleftrightarrow> 300 \<le> tp_RefreshIntervalSec (tg_Topology tg) \<and> tp_RefreshIntervalSec (tg_Topology tg) \<le> 86400"

definition refresher_inv :: "bool \<Rightarrow> topoenv \<Rightarrow> TelegramConfig \<Rightarrow> refresher \<Rightarrow> bool" where
  "refresher_inv windows T tg s \<longleftrightarrow>
     reachable (topo_init T tg) (forward_step windows T) (rl_topo s)
     \<and> tm_remote (fst (rl_topo s)) = tg_Topology tg
     \<and> (rl_running s \<or> rl_turns s \<noteq> [] \<longrightarrow> trimSpace (tp_URL (tg_Topology tg)) \<noteq> [])
     \<and> rl_failures s = failed_in_a_row (rl_turns s)
     \<and> (case rl_turns s of [] \<Rightarrow> True | (ended, ok, delay) # earlier \<Rightarrow> rl_due s = ended + delay)
     \<and> (interval_ok tg \<longrightarrow> paced (tp_RefreshIntervalSec (tg_Topology tg)) (rl_turns s))"

lemma refresh_remote: "refresh T m disk pd fetch now io = (m', disk', ok) \<Longrightarrow> tm_remote m' = tm_remote m"
  by (auto simp: refresh_def Let_def split: if_splits fetchResult.splits sum.splits prod.splits bool.splits)

lemma ensureRoute_locked_remote:
  "ensureRoute_locked T m disk dc test media start pd fetch fetched io = (m', disk', found, started) \<Longrightarrow>
   tm_remote m' = tm_remote m"
  by (erule ensureRoute_locked_cases) (auto dest: refresh_remote)

lemma refresher_inv_init: "refresher_init T tg s \<Longrightarrow> refresher_inv windows T tg s"
proof -
  assume "refresher_init T tg s"
  then obtain m disk now where s: "s = startRefresher (m, disk, now)" and i: "topo_init T tg (m, disk, now)"
    by (auto simp: refresher_init_def)
  have "tm_remote m = tg_Topology tg" using topo_invD(2) [OF topo_inv_init(1) [OF i]] .
  then show "refresher_inv windows T tg s"
    using i by (auto simp: refresher_inv_def s startRefresher_def intro: reachable_init)
qed

lemma refresh_turn_delay:
  assumes "refresh_turn T r m disk failures = (m', disk', ok, failures', delay)"
    and "tm_remote m = tg_Topology tg" and "interval_ok tg" and "0 \<le> failures"
  shows "delay_between (if ok then 9 else 8) (if ok then 11 else 12)
    (refreshBaseDelay (tp_RefreshIntervalSec (tg_Topology tg) * second) (if ok then 0 else failures + 1)) delay"
proof -
  obtain m1 where "refresh T m disk (rr_parentDone r) (rr_fetch r) (rr_now r) (rr_io r) = (m', disk', ok)"
    "m1 = m'" "failures' = (if ok then 0 else failures + 1)"
    "delay = nextTopologyRefreshDelay (rr_fused r) (tp_RefreshIntervalSec (tm_remote m') * second) failures' (rr_random r)"
    using assms(1) by (auto simp: refresh_turn_def Let_def split: prod.splits)
  then show ?thesis
    using nextTopologyRefreshDelay_bounds [of "tp_RefreshIntervalSec (tg_Topology tg)" failures' "rr_fused r" "rr_random r"] assms(2-4)
    by (auto simp: refresh_remote interval_ok_def split: if_splits)
qed

lemma refresher_inv_step: "refresher_inv windows T tg s \<Longrightarrow> refresher_step windows T s t \<Longrightarrow> refresher_inv windows T tg t"
proof (erule refresher_step.cases)
  fix u m disk now r m' disk' ok failures delay ended
  assume i: "refresher_inv windows T tg s" and run: "rl_running u" and st: "s = u" and t: "t = u\<lparr>rl_topo := (m', disk', rr_now r), rl_failures := failures,
      rl_due := ended + delay, rl_turns := (ended, ok, delay) # rl_turns u\<rparr>"
    and m: "rl_topo u = (m, disk, now)" and n: "now \<le> rr_now r" "rl_due u \<le> rr_now r" "rr_now r \<le> ended"
    and io: "io_windows (rr_io r) = windows" and turn: "refresh_turn T r m disk (rl_failures u) = (m', disk', ok, failures, delay)"
  note i = i [unfolded refresher_inv_def st m fst_conv]
  have r: "refresh T m disk (rr_parentDone r) (rr_fetch r) (rr_now r) (rr_io r) = (m', disk', ok)"
    and f: "failures = (if ok then 0 else rl_failures u + 1)"
    using turn by (auto simp: refresh_turn_def Let_def split: prod.splits)
  have "forward_step windows T (m, disk, now) (m', disk', rr_now r)"
    using timer_refresh [OF io r] n(1) by (simp add: forward_step_def)
  then have "reachable (topo_init T tg) (forward_step windows T) (m', disk', rr_now r)" using i by (blast intro: reachable_step)
  moreover have "tm_remote m' = tg_Topology tg" using refresh_remote [OF r] i by simp
  moreover have "paced (tp_RefreshIntervalSec (tg_Topology tg)) ((ended, ok, delay) # rl_turns u)" if "interval_ok tg"
  proof -
    have "0 \<le> rl_failures u" using i by simp
    from refresh_turn_delay [OF turn _ that this]
    show ?thesis using i n that by (cases "rl_turns u") auto
  qed
  ultimately show "refresher_inv windows T tg t" using i f run by (simp add: t refresher_inv_def)
next
  fix u m disk now now' io dc test media start pd fetch m' disk' found started
  assume i: "refresher_inv windows T tg s" and st: "s = u" and t: "t = u\<lparr>rl_topo := (m', disk', now')\<rparr>"
    and m: "rl_topo u = (m, disk, now)" and n: "now \<le> now'" "io_windows io = windows"
    and e: "ensureRoute_locked T m disk dc test media start pd fetch now' io = (m', disk', found, started)"
  note i = i [unfolded refresher_inv_def st m fst_conv]
  have "forward_step windows T (m, disk, now) (m', disk', now')"
    using demand_refresh [OF n(2) e] n(1) by (simp add: forward_step_def)
  then have "reachable (topo_init T tg) (forward_step windows T) (m', disk', now')" using i by (blast intro: reachable_step)
  then show "refresher_inv windows T tg t"
    using i ensureRoute_locked_remote [OF e] by (cases "rl_turns u") (auto simp: t refresher_inv_def)
qed (auto simp: refresher_inv_def split: list.splits)

interpretation refresher: invariant_system "refresher_init T tg" "refresher_step windows T" "refresher_inv windows T tg" for windows T tg
  by unfold_locales (fact refresher_inv_init, fact refresher_inv_step)

section \<open>The theorem\<close>

lemma paced_split: "paced i (us @ vs) \<Longrightarrow> paced i vs"
  by (induction us) (auto split: prod.splits)

lemma refreshBaseDelay_min:
  assumes "0 < b"
  shows "refreshBaseDelay b (int n + 1) = min b (30 * second * 2 ^ min n 8)" and "refreshBaseDelay b 0 = b"
proof -
  have "nat (if int n > 8 then 8 else int n) = min n 8" by simp
  then show "refreshBaseDelay b (int n + 1) = min b (30 * second * 2 ^ min n 8)"
    using assms by (simp add: refreshBaseDelay_def Let_def min_def)
qed (use assms in \<open>simp add: refreshBaseDelay_def\<close>)

text \<open>What \<open>paced\<close> says of one turn.\<close>

lemma paced_turn:
  assumes "paced n (later @ (ended, ok, delay) # turns)" and "300 \<le> n" and "n \<le> 86400"
  defines "base \<equiv> if ok then n * second
    else min (n * second) (30 * second * 2 ^ min (length (takeWhile (\<lambda>(ended, ok, delay). \<not> ok) turns)) 8)"
  shows "if ok then 9 * base - 10 \<le> 10 * delay \<and> 10 * delay \<le> 11 * base
      else 8 * base - 10 \<le> 10 * delay \<and> 10 * delay \<le> 12 * base"
    and "24 * second - 1 \<le> delay" and "10 * delay \<le> 12 * (n * second)"
    and "later = later' @ [(ended', ok', delay')] \<Longrightarrow> ended + delay \<le> ended'"
proof -
  let ?k = "failed_in_a_row ((ended, ok, delay) # turns)"
  have p: "paced n ((ended, ok, delay) # turns)" using assms(1) by (rule paced_split)
  have b: "0 < n * second" using assms(2) by (simp add: second_def)
  have k: "refreshBaseDelay (n * second) ?k = base"
    using refreshBaseDelay_min [OF b] by (simp add: base_def failed_in_a_row_def add.commute)
  note r = refreshBaseDelay_range [OF assms(2,3), of ?k, unfolded k]
  have d: "delay_between (if ok then 9 else 8) (if ok then 11 else 12) base delay" using p k by simp
  then show "if ok then 9 * base - 10 \<le> 10 * delay \<and> 10 * delay \<le> 11 * base
      else 8 * base - 10 \<le> 10 * delay \<and> 10 * delay \<le> 12 * base"
    by (auto simp: delay_between_def)
  then show "24 * second - 1 \<le> delay" "10 * delay \<le> 12 * (n * second)"
    using r by (auto simp: second_def split: if_splits)
  show "ended + delay \<le> ended'" if l: "later = later' @ [(ended', ok', delay')]"
  proof -
    have "paced n ((ended', ok', delay') # (ended, ok, delay) # turns)"
      using assms(1) unfolding l append_assoc append.simps by (rule paced_split)
    then show ?thesis by simp
  qed
qed

lemma Validate_interval:
  assumes "Validate E c = (c', None)" and "trimSpace (tp_URL (tg_Topology (cf_Telegram c'))) \<noteq> []"
  shows "interval_ok (cf_Telegram c')"
proof -
  have "validateTopology E (tg_Topology (cf_Telegram c')) = None"
    using Validate_ok(2) [OF assms(1)] by (simp add: validate_checks_def Let_def)
  then show ?thesis using assms(2) by (simp add: validateTopology_def interval_ok_def Let_def)
qed

text \<open>
  Claim C24. The bundle source is asked steadily and never hammered. In every state of the refresh
  goroutine under an accepted configuration, on any system whose clock does not go back, with requests
  refreshing on demand at any moment: its manager is one the timed and on-demand refreshes reach; its
  counter is the number of failures in a row; and after any turn the next one comes no earlier than the
  delay chosen, which is 90 to 110 percent of the configured interval after a success and 80 to 120
  percent of the backoff (30 seconds doubled with every further failure, at most the interval) after a
  failure, hence never under 24 seconds nor over 1.2 intervals; the lower limits are met up to one
  nanosecond, whatever the rounding.
\<close>

theorem refresh_paced:
  assumes "Validate (te_go T) c = (c', None)"
    and "reachable (refresher_init T (cf_Telegram c')) (refresher_step windows T) s"
  shows "reachable (topo_init T (cf_Telegram c')) (forward_step windows T) (rl_topo s)
    \<and> rl_failures s = int (length (takeWhile (\<lambda>(ended, ok, delay). \<not> ok) (rl_turns s)))
    \<and> (\<forall>later ended ok delay turns. rl_turns s = later @ (ended, ok, delay) # turns \<longrightarrow>
         (let interval = tp_RefreshIntervalSec (tg_Topology (cf_Telegram c')) * second;
              failures = length (takeWhile (\<lambda>(ended, ok, delay). \<not> ok) turns);
              base = (if ok then interval else min interval (30 * second * 2 ^ min failures 8))
          in (if ok then 9 * base - 10 \<le> 10 * delay \<and> 10 * delay \<le> 11 * base
              else 8 * base - 10 \<le> 10 * delay \<and> 10 * delay \<le> 12 * base)
             \<and> 24 * second - 1 \<le> delay \<and> 10 * delay \<le> 12 * interval)
         \<and> (\<forall>later' ended' ok' delay'. later = later' @ [(ended', ok', delay')] \<longrightarrow> ended + delay \<le> ended'))"
proof -
  let ?n = "tp_RefreshIntervalSec (tg_Topology (cf_Telegram c'))"
  have i: "refresher_inv windows T (cf_Telegram c') s" using assms(2) by (rule refresher.inv_reachable)
  then have r: "reachable (topo_init T (cf_Telegram c')) (forward_step windows T) (rl_topo s)" by (simp add: refresher_inv_def)
  have f: "rl_failures s = int (length (takeWhile (\<lambda>(ended, ok, delay). \<not> ok) (rl_turns s)))"
    using i by (simp add: refresher_inv_def failed_in_a_row_def)
  show ?thesis
  proof (cases "rl_turns s = []")
    case True
    then show ?thesis using r f by simp
  next
    case False
    then have "trimSpace (tp_URL (tg_Topology (cf_Telegram c'))) \<noteq> []" using i by (simp add: refresher_inv_def)
    from Validate_interval [OF assms(1) this] have n: "300 \<le> ?n" "?n \<le> 86400" and p: "paced ?n (rl_turns s)"
      using i by (simp_all add: interval_ok_def refresher_inv_def)
    then show ?thesis
      using r f paced_turn [OF _ n] unfolding Let_def by (metis (no_types, lifting))
  qed
qed

end
