(* ===== verification/Sample_Refresh.thy ===== *)
theory Sample_Refresh
  imports Sample_Topology Topology_Refresh
begin

text \<open>
  The refresh delay at the points the repository's unit test names, and a run of the refresh goroutine
  on the sample topology: one failure, then the bundle.
\<close>

lemma sample_delays:
  "nextTopologyRefreshDelay False (900 * second) 0 (1 / 2) = 900 * second"
  "nextTopologyRefreshDelay False (900 * second) 1 (1 / 2) = 30 * second"
  "nextTopologyRefreshDelay False (900 * second) 20 (1 / 2) = 900 * second"
  "nextTopologyRefreshDelay False (900 * second) 2 0 = 48 * second"
  "nextTopologyRefreshDelay False (900 * second) 2 1 = 72 * second"
  "nextTopologyRefreshDelay True (900 * second) 2 1 = 72 * second"
  by code_simp+

definition sample_fetch :: "fetchResult \<Rightarrow> gotime \<Rightarrow> refreshRun" where
  "sample_fetch fetch now = \<lparr>rr_parentDone = False, rr_fetch = fetch, rr_now = now, rr_io = all_io, rr_random = 1 / 2, rr_fused = False\<rparr>"

definition sample_failed :: refresher where
  "sample_failed = \<lparr>rl_topo = (sample_manager, None, 1), rl_failures = 1, rl_due = 1 + 30 * second, rl_running = True,
     rl_turns = [(1, False, 30 * second)]\<rparr>"

lemma sample_failed_reachable:
  "reachable (refresher_init sample_topoenv sample_telegram) (refresher_step False sample_topoenv) sample_failed"
proof (rule reachable_step)
  let ?s = "startRefresher (sample_manager, None, 1)"
  have m: "tm_remote sample_manager = tg_Topology sample_telegram" by (simp add: sample_manager_def)
  have i: "tp_RefreshIntervalSec (tg_Topology sample_telegram) = 900" by (simp add: sample_telegram_def)
  show "reachable (refresher_init sample_topoenv sample_telegram) (refresher_step False sample_topoenv) ?s"
  proof (rule reachable_init)
    have "topo_init sample_topoenv sample_telegram (sample_manager, None, 1)"
      using sample_url sample_new by (simp add: topo_init_def)
    then show "refresher_init sample_topoenv sample_telegram ?s" unfolding refresher_init_def by blast
  qed
  have t: "refresh_turn sample_topoenv (sample_fetch FetchFailed 1) sample_manager None 0
      = (sample_manager, None, False, 1, 30 * second)"
    using sample_delays(2) by (simp add: refresh_turn_def refresh_def sample_fetch_def m i)
  have "refresher_step False sample_topoenv ?s (?s\<lparr>rl_topo := (sample_manager, None, rr_now (sample_fetch FetchFailed 1)),
      rl_failures := 1, rl_due := 1 + 30 * second, rl_turns := (1, False, 30 * second) # rl_turns ?s\<rparr>)"
    by (rule turn [of _ sample_manager None 1])
      (use sample_url m t in \<open>simp_all add: startRefresher_def sample_fetch_def all_io_def\<close>)
  then show "refresher_step False sample_topoenv ?s sample_failed"
    using sample_url by (simp add: startRefresher_def sample_failed_def sample_fetch_def m)
qed

theorem refresh_paced_witness:
  "8 * (30 * second) - 10 \<le> 10 * (30 * second) \<and> rl_failures sample_failed = 1"
proof -
  have r: "reachable (refresher_init sample_topoenv (cf_Telegram sample_dynamic)) (refresher_step False sample_topoenv) sample_failed"
    using sample_failed_reachable by (simp add: sample_dynamic_def)
  have v: "Validate (te_go sample_topoenv) sample_dynamic = (sample_dynamic, None)" using sample_dynamic_Validate by simp
  have t: "rl_turns sample_failed = [] @ [(1, False, 30 * second)]" by (simp add: sample_failed_def)
  have i: "tp_RefreshIntervalSec (tg_Topology (cf_Telegram sample_dynamic)) = 900"
    by (simp add: sample_dynamic_def sample_telegram_def)
  show ?thesis
    using refresh_paced [OF v r] t by (simp add: i second_def Let_def)
qed

end
