(* ===== verification/Control_State.thy ===== *)
theory Control_State
  imports Token_Facts Topology_Manager "HOL-Library.List_Lexorder" "HOL-Library.Char_ord"
begin

text \<open>
  The data of \<open>internal/relay/control_plane.go\<close> and its helpers: the persisted owner state, the
  sessions in memory, and the functions that clean names and identifiers, find a client's address
  and identity, and compare hashes. Strings are compared byte by byte, which is the order that
  Char_ord and List_Lexorder give. A close function of a session is named by a number.
\<close>

section \<open>Requests\<close>

text \<open>The parts of an HTTP request the code reads; \<open>rq_header\<close> is \<open>Header.Get\<close>.\<close>

record request =
  rq_header :: "string \<Rightarrow> string"
  rq_remoteAddr :: string
  rq_query :: "(string, string list) gomap"

section \<open>Types\<close>

definition controlStateVersion :: int where "controlStateVersion = 3"
definition maxControlBodyBytes :: nat where "maxControlBodyBytes = 32 * 1024"
definition maxTrackedClients :: nat where "maxTrackedClients = 4096"
definition maxLocationCache :: nat where "maxLocationCache = 2048"
definition clientPersistDelay :: gotime where "clientPersistDelay = 2 * second"
definition clientPersistRetry :: gotime where "clientPersistRetry = 30 * second"

record trackedClient =
  tc_Key :: string
  tc_TokenID :: string
  tc_DeviceID :: string
  tc_IdentityVersion :: string
  tc_Manufacturer :: string
  tc_Brand :: string
  tc_CanonicalBrand :: string
  tc_Model :: string
  tc_MarketingName :: string
  tc_Device :: string
  tc_Product :: string
  tc_AppVersion :: string
  tc_AppCode :: string
  tc_Android :: string
  tc_Country :: string
  tc_City :: string
  tc_RemoteIP :: string
  tc_FirstSeen :: string
  tc_LastSeen :: string

record controlState =
  cs_Version :: int
  cs_InstanceID :: string
  cs_AddedTokens :: "Token list"
  cs_RevokedHashes :: "string list"
  cs_DeletedTokenIDs :: "string list"
  cs_Clients :: "(string, trackedClient) gomap"
  cs_BlockedDevices :: "(string, string) gomap"

record trackedSession =
  ts_clientKey :: string
  ts_close :: "nat option"

record location =
  lo_Country :: string
  lo_City :: string

record cachedLocation =
  ca_Location :: location
  ca_At :: gotime

type_synonym sessions = "(64 word, trackedSession) gomap"

text \<open>\<open>cp_resolver\<close> is the template of the resolver, \<open>cp_clientFlush\<close> the delay of an armed timer.\<close>

record controlPlane =
  cp_baseTokens :: "Token list"
  cp_adminTokens :: "Token list"
  cp_statePath :: string
  cp_state :: controlState
  cp_active :: "(string, sessions) gomap"
  cp_nextSessionID :: "64 word"
  cp_resolver :: "string option"
  cp_locationCache :: "(string, cachedLocation) gomap"
  cp_locationBusy :: "string list"
  cp_clientDirty :: bool
  cp_clientFlush :: "gotime option"
  cp_shuttingDown :: bool

record requestDeviceIdentity =
  ri_tokenID :: string
  ri_deviceID :: string
  ri_previousDeviceID :: string
  ri_legacyDeviceID :: string

text \<open>
  The JSON codec of the state file. A decoder answers the state without the clients that are null,
  whether there was such a client, and whether the input ended after the object.
\<close>

record controlenv =
  ce_go :: goenv
  ce_marshalState :: "controlState \<Rightarrow> string option"
  ce_decodeState :: "string \<Rightarrow> (controlState \<times> bool \<times> bool) option"

datatype cpError = ErrText string | ErrNotExist | ErrIO

section \<open>Cleaning names and identifiers\<close>

definition kept_rune :: "nat \<Rightarrow> bool" where
  "kept_rune r \<longleftrightarrow> \<not> (r < 0x20 \<or> r = 0x7f)"

definition sanitizeDisplay :: "string \<Rightarrow> nat \<Rightarrow> string" where
  "sanitizeDisplay value limit =
     (let clean = trimSpace value;
          clean = of_runes (filter kept_rune (runes clean));
          rs = runes clean
      in if length rs > limit then of_runes (take limit rs) else clean)"

definition cp_ident_char :: "char \<Rightarrow> bool" where
  "cp_ident_char c \<longleftrightarrow> is_alnum c \<or> c = CHR ''-'' \<or> c = CHR ''_'' \<or> c = CHR ''.''"

definition sanitizeIdentifier :: "string \<Rightarrow> nat \<Rightarrow> string" where
  "sanitizeIdentifier value limit =
     (let clean = trimSpace value
      in if clean = [] \<or> length clean > limit then []
         else if list_all cp_ident_char clean then clean else [])"

definition bearerToken :: "string \<Rightarrow> string" where
  "bearerToken header =
     (if \<not> hasPrefix header ''Bearer '' then [] else trimSpace (trimPrefix header ''Bearer ''))"

definition hash_bytes :: "goenv \<Rightarrow> string \<Rightarrow> nat list option" where
  "hash_bytes E h = hexDecode (trimPrefix (normalizeHash E h) ''sha256:'')"

definition constantHashEqual :: "goenv \<Rightarrow> string \<Rightarrow> string \<Rightarrow> bool" where
  "constantHashEqual E left right =
     (case (hash_bytes E left, hash_bytes E right) of
        (Some leftBytes, Some rightBytes) \<Rightarrow>
          if length leftBytes \<noteq> 32 \<or> length rightBytes \<noteq> 32 \<or> length leftBytes \<noteq> length rightBytes
          then False
          else leftBytes = rightBytes
      | _ \<Rightarrow> False)"

definition validClientSecret :: "string \<Rightarrow> bool" where
  "validClientSecret value =
     (if \<not> hasPrefix value ''tgpr_'' \<or> length value < 32 \<or> length value > 128 then False
      else b64Decode UrlAlphabet False (trimPrefix value ''tgpr_'') \<noteq> None)"

text \<open>\<open>generateInstanceID\<close> on the sixteen random bytes, if they could be read.\<close>

definition generateInstanceID :: "nat list option \<Rightarrow> string option" where
  "generateInstanceID raw = map_option (\<lambda>raw. ''ri_'' @ hexEncode raw) raw"

section \<open>Addresses and identities\<close>

text \<open>The last entry of \<open>X-Forwarded-For\<close> that is an address.\<close>

fun last_forwarded :: "string list \<Rightarrow> ip option" where
  "last_forwarded [] = None"
| "last_forwarded (f # fs) =
     (case last_forwarded fs of Some ip \<Rightarrow> Some ip | None \<Rightarrow> parseIP (trimSpace f))"

definition clientRemoteIP :: "request option \<Rightarrow> string" where
  "clientRemoteIP r =
     (case r of
        None \<Rightarrow> []
      | Some r \<Rightarrow>
          (let host = (case splitHostPort (trimSpace (rq_remoteAddr r)) of
                         None \<Rightarrow> trimSpace (rq_remoteAddr r)
                       | Some (host, port) \<Rightarrow> host);
               forwarded = splitOn CHR '','' (rq_header r ''X-Forwarded-For'')
           in case parseIP host of
                None \<Rightarrow> []
              | Some remote \<Rightarrow>
                  if isLoopback remote \<or> isPrivate remote
                  then (case parseIP (trimSpace (rq_header r ''X-Real-IP'')) of
                          Some ip \<Rightarrow> ip_string ip
                        | None \<Rightarrow>
                            (case last_forwarded forwarded of
                               Some ip \<Rightarrow> ip_string ip
                             | None \<Rightarrow> ip_string remote))
                  else ip_string remote))"

definition publicIP :: "string \<Rightarrow> bool" where
  "publicIP value =
     (case parseIP (trimSpace value) of
        None \<Rightarrow> False
      | Some ip \<Rightarrow> \<not> isLoopback ip \<and> \<not> isPrivate ip \<and> \<not> isUnspecified ip \<and> \<not> isMulticast ip)"

definition sessionIdentityDetails :: "goenv \<Rightarrow> Token \<Rightarrow> request option \<Rightarrow> requestDeviceIdentity" where
  "sessionIdentityDetails E token r =
     (let tokenID = StableTokenID E token;
          header = (\<lambda>name. case r of None \<Rightarrow> [] | Some r \<Rightarrow> rq_header r name);
          deviceID = (if r = None then [] else sanitizeIdentifier (header ''X-TGProxy-Device-ID'') 96);
          previousDeviceID =
            (if r = None then [] else sanitizeIdentifier (header ''X-TGProxy-Previous-Device-ID'') 96);
          remoteIP = (if r = None then [] else clientRemoteIP r);
          legacyDeviceID =
            ''legacy_'' @ hexEncode (take 8 (ge_sha256 E (tokenID @ [CHR 0x0A] @ remoteIP)));
          (deviceID, previousDeviceID) =
            (if deviceID = [] then (legacyDeviceID, [])
             else if \<not> hasPrefix deviceID ''dev2_'' \<or> \<not> hasPrefix previousDeviceID ''dev_''
                     \<or> previousDeviceID = deviceID
             then (deviceID, [])
             else (deviceID, previousDeviceID))
      in \<lparr>ri_tokenID = tokenID, ri_deviceID = deviceID, ri_previousDeviceID = previousDeviceID,
          ri_legacyDeviceID = legacyDeviceID\<rparr>)"

fun add_candidates :: "string list \<Rightarrow> string list \<Rightarrow> string list" where
  "add_candidates result [] = result"
| "add_candidates result (v # vs) =
     add_candidates (if v = [] \<or> containsString result v then result else result @ [v]) vs"

definition candidateDeviceIDs :: "requestDeviceIdentity \<Rightarrow> string list" where
  "candidateDeviceIDs i =
     add_candidates [] [ri_deviceID i, ri_previousDeviceID i, ri_legacyDeviceID i]"

definition sessionIdentity :: "goenv \<Rightarrow> Token \<Rightarrow> request option \<Rightarrow> string \<times> string" where
  "sessionIdentity E token r =
     (let identity = sessionIdentityDetails E token r in (ri_tokenID identity, ri_deviceID identity))"

definition deviceKey :: "string \<Rightarrow> string \<Rightarrow> cpError + string" where
  "deviceKey tokenID deviceID =
     (let cleanToken = sanitizeIdentifier tokenID 96; cleanDevice = sanitizeIdentifier deviceID 96
      in if cleanToken = [] \<or> cleanDevice = [] then Inl (ErrText ''invalid device identity'')
         else Inr (cleanToken @ '':'' @ cleanDevice))"

definition legacyMatchesRequest :: "goenv \<Rightarrow> trackedClient \<Rightarrow> request \<Rightarrow> string \<Rightarrow> bool" where
  "legacyMatchesRequest E client r remoteIP =
     (if remoteIP = [] \<or> tc_RemoteIP client \<noteq> remoteIP then False
      else
        (let manufacturer = sanitizeDisplay (rq_header r ''X-TGProxy-Manufacturer'') 96;
             model = sanitizeDisplay (rq_header r ''X-TGProxy-Model'') 128
         in manufacturer \<noteq> [] \<and> model \<noteq> [] \<and> ge_equalFold E (tc_Manufacturer client) manufacturer
            \<and> ge_equalFold E (tc_Model client) model))"

definition setIfPresent :: "string \<Rightarrow> string \<Rightarrow> nat \<Rightarrow> string" where
  "setIfPresent target raw limit =
     (let value = sanitizeDisplay raw limit in if value \<noteq> [] then value else target)"

definition first_of :: "string \<Rightarrow> string \<Rightarrow> string" where
  "first_of a b = (if a = [] then b else a)"

definition mergeTrackedClient :: "trackedClient \<Rightarrow> trackedClient \<Rightarrow> trackedClient" where
  "mergeTrackedClient d s =
     d\<lparr>tc_FirstSeen :=
         (if tc_FirstSeen d = [] \<or> (tc_FirstSeen s \<noteq> [] \<and> tc_FirstSeen s < tc_FirstSeen d)
          then tc_FirstSeen s else tc_FirstSeen d),
       tc_LastSeen := (if tc_LastSeen s > tc_LastSeen d then tc_LastSeen s else tc_LastSeen d),
       tc_IdentityVersion := first_of (tc_IdentityVersion d) (tc_IdentityVersion s),
       tc_Manufacturer := first_of (tc_Manufacturer d) (tc_Manufacturer s),
       tc_Brand := first_of (tc_Brand d) (tc_Brand s),
       tc_CanonicalBrand := first_of (tc_CanonicalBrand d) (tc_CanonicalBrand s),
       tc_Model := first_of (tc_Model d) (tc_Model s),
       tc_MarketingName := first_of (tc_MarketingName d) (tc_MarketingName s),
       tc_Device := first_of (tc_Device d) (tc_Device s),
       tc_Product := first_of (tc_Product d) (tc_Product s),
       tc_AppVersion := first_of (tc_AppVersion d) (tc_AppVersion s),
       tc_AppCode := first_of (tc_AppCode d) (tc_AppCode s),
       tc_Android := first_of (tc_Android d) (tc_Android s),
       tc_Country := first_of (tc_Country d) (tc_Country s),
       tc_City := first_of (tc_City d) (tc_City s),
       tc_RemoteIP := first_of (tc_RemoteIP d) (tc_RemoteIP s)\<rparr>"

end
