(* ===== verification/Control_Plane.thy ===== *)
theory Control_Plane
  imports Control_State
begin

text \<open>
  The operations of \<open>internal/relay/control_plane.go\<close>. Each runs under the control plane's mutex, so
  it is one function of the state it finds; closing the sessions happens after the lock is
  released and is the list of close functions an operation returns. The state file is its
  content, \<open>None\<close> when it does not exist; \<open>persistIO\<close> says which system calls succeed. Random
  bytes and the formatted clock are arguments. Nil receivers are not modelled: the server
  always builds a control plane.
\<close>

definition cp_enabled :: "controlPlane \<Rightarrow> bool" where
  "cp_enabled c \<longleftrightarrow> cp_adminTokens c \<noteq> []"

section \<open>Tokens\<close>

definition revoked :: "goenv \<Rightarrow> controlPlane \<Rightarrow> string \<Rightarrow> bool" where
  "revoked E c hash = containsString (cs_RevokedHashes (cp_state c)) (normalizeHash E hash)"

fun allTokens_loop :: "goenv \<Rightarrow> controlPlane \<Rightarrow> string list \<Rightarrow> Token list \<Rightarrow> Token list" where
  "allTokens_loop E c seen [] = []"
| "allTokens_loop E c seen (token # tokens) =
     (let hash = normalizeHash E (tk_Hash token)
      in if hash = [] \<or> revoked E c hash then allTokens_loop E c seen tokens
         else if containsString seen hash then allTokens_loop E c seen tokens
         else
           (let token = token\<lparr>tk_Hash := hash\<rparr>
            in token\<lparr>tk_ID := StableTokenID E token\<rparr> # allTokens_loop E c (hash # seen) tokens))"

definition allTokens :: "goenv \<Rightarrow> controlPlane \<Rightarrow> Token list" where
  "allTokens E c = allTokens_loop E c [] (cp_baseTokens c @ cs_AddedTokens (cp_state c))"

definition authorizeTokens :: "goenv \<Rightarrow> Token list \<Rightarrow> string \<Rightarrow> bool" where
  "authorizeTokens E tokens header =
     (let raw = bearerToken header
      in if raw = [] then False
         else (let hash = TokenHash E raw
               in list_ex (\<lambda>token. constantHashEqual E (tk_Hash token) hash) tokens))"

definition authorizeAdmin :: "goenv \<Rightarrow> controlPlane \<Rightarrow> string \<Rightarrow> bool" where
  "authorizeAdmin E c header = authorizeTokens E (cp_adminTokens c) header"

definition authorizeClient :: "goenv \<Rightarrow> controlPlane \<Rightarrow> string \<Rightarrow> Token option" where
  "authorizeClient E c header =
     (let raw = bearerToken header
      in if raw = [] then None
         else
           (let hash = TokenHash E raw
            in if revoked E c hash then None
               else
                 (case find (\<lambda>token. constantHashEqual E (tk_Hash token) hash) (allTokens E c) of
                    None \<Rightarrow> None
                  | Some token \<Rightarrow>
                      (let token = token\<lparr>tk_Hash := normalizeHash E (tk_Hash token)\<rparr>
                       in Some (token\<lparr>tk_ID := StableTokenID E token\<rparr>)))))"

definition clientTokenActive :: "goenv \<Rightarrow> controlPlane \<Rightarrow> Token \<Rightarrow> bool" where
  "clientTokenActive E c wanted =
     (let wantedHash = normalizeHash E (tk_Hash wanted)
      in if wantedHash = [] \<or> revoked E c wantedHash then False
         else list_ex (\<lambda>token. constantHashEqual E (tk_Hash token) wantedHash) (allTokens E c))"

section \<open>Persistence\<close>

text \<open>The state file after writing \<open>data\<close>, and whether it failed; a directory sync may fail silently.\<close>

definition writeStateFile :: "persistIO \<Rightarrow> string option \<Rightarrow> string \<Rightarrow> string option \<times> bool" where
  "writeStateFile io disk data =
     (if \<not> io_mkdir io then (disk, True)
      else if \<not> io_createTemp io then (disk, True)
      else if \<not> io_chmod io then (disk, True)
      else if \<not> io_write io then (disk, True)
      else if \<not> io_sync io then (disk, True)
      else if \<not> io_close io then (disk, True)
      else if io_windows io \<and> io_remove io = None then (disk, True)
      else
        (let disk = (if io_windows io then None else disk)
         in if \<not> io_rename io then (disk, True) else (Some data, False)))"

definition persistLocked ::
  "controlenv \<Rightarrow> controlPlane \<Rightarrow> string option \<Rightarrow> persistIO \<Rightarrow> controlPlane \<times> string option \<times> bool" where
  "persistLocked C c disk io =
     (if cp_statePath c = [] then (c, disk, False)
      else
        (let c = c\<lparr>cp_state := (cp_state c)\<lparr>cs_Version := controlStateVersion\<rparr>\<rparr>
         in case ce_marshalState C (cp_state c) of
              None \<Rightarrow> (c, disk, True)
            | Some data \<Rightarrow> (let (disk, failed) = writeStateFile io disk data in (c, disk, failed))))"

definition persistCriticalLocked ::
  "controlenv \<Rightarrow> controlPlane \<Rightarrow> string option \<Rightarrow> persistIO \<Rightarrow> controlPlane \<times> string option \<times> bool" where
  "persistCriticalLocked C c disk io =
     (case persistLocked C c disk io of
        (c, disk, True) \<Rightarrow> (c, disk, True)
      | (c, disk, False) \<Rightarrow> (c\<lparr>cp_clientDirty := False, cp_clientFlush := None\<rparr>, disk, False))"

definition scheduleClientPersist :: "controlPlane \<Rightarrow> controlPlane" where
  "scheduleClientPersist c =
     (if cp_statePath c = [] then c
      else
        (let c = c\<lparr>cp_clientDirty := True\<rparr>
         in if cp_shuttingDown c then c
            else if cp_clientFlush c \<noteq> None then c
            else c\<lparr>cp_clientFlush := Some clientPersistDelay\<rparr>))"

definition flushClientState ::
  "controlenv \<Rightarrow> controlPlane \<Rightarrow> string option \<Rightarrow> persistIO \<Rightarrow> controlPlane \<times> string option" where
  "flushClientState C c disk io =
     (let c = c\<lparr>cp_clientFlush := None\<rparr>
      in if \<not> cp_clientDirty c then (c, disk)
         else
           (case persistLocked C c disk io of
              (c, disk, True) \<Rightarrow> (c\<lparr>cp_clientFlush := Some clientPersistRetry\<rparr>, disk)
            | (c, disk, False) \<Rightarrow> (c\<lparr>cp_clientDirty := False\<rparr>, disk)))"

definition prepareIdentity ::
  "controlenv \<Rightarrow> controlPlane \<Rightarrow> string option \<Rightarrow> persistIO \<Rightarrow> controlPlane \<times> string option \<times> bool" where
  "prepareIdentity C c disk io =
     (if \<not> cp_enabled c \<or> cp_statePath c = [] then (c, disk, False)
      else persistCriticalLocked C c disk io)"

definition instanceIdentity :: "controlPlane \<Rightarrow> string \<times> bool" where
  "instanceIdentity c =
     (cs_InstanceID (cp_state c), cp_enabled c \<and> cp_statePath c \<noteq> [])"

section \<open>Creating and deleting tokens\<close>

text \<open>The name a connection gets when the owner gives none, in UTF-8.\<close>

definition defaultConnectionName :: string where
  "defaultConnectionName = of_codes
     [0xD0, 0x9F, 0xD0, 0xBE, 0xD0, 0xB4, 0xD0, 0xBA, 0xD0, 0xBB, 0xD1, 0x8E, 0xD1, 0x87, 0xD0, 0xB5,
      0xD0, 0xBD, 0xD0, 0xB8, 0xD0, 0xB5]"

text \<open>The checks before the lock: the cleaned name, secret and key, or an error.\<close>

definition createToken_inputs ::
  "string \<Rightarrow> string \<Rightarrow> string \<Rightarrow> nat list option \<Rightarrow> cpError + string \<times> string \<times> string" where
  "createToken_inputs name requestedSecret idempotencyKey secretBytes =
     (let cleanName = sanitizeDisplay name 128;
          cleanName = (if cleanName = [] then defaultConnectionName else cleanName);
          raw = trimSpace requestedSecret;
          cleanKey = sanitizeIdentifier idempotencyKey 96
      in if idempotencyKey \<noteq> [] \<and> cleanKey = [] then Inl (ErrText ''invalid idempotency key'')
         else if raw \<noteq> [] \<and> \<not> validClientSecret raw then Inl (ErrText ''invalid client secret'')
         else if cleanKey \<noteq> [] \<and> raw = []
         then Inl (ErrText ''idempotent token creation requires a client-generated secret'')
         else if raw = [] then
           (case secretBytes of
              None \<Rightarrow> Inl ErrIO
            | Some rawBytes \<Rightarrow>
                Inr (cleanName, ''tgpr_'' @ b64Encode UrlAlphabet False rawBytes, cleanKey))
         else Inr (cleanName, raw, cleanKey))"

definition createToken_id :: "goenv \<Rightarrow> string \<Rightarrow> nat list option \<Rightarrow> string option" where
  "createToken_id E cleanKey idBytes =
     (if cleanKey \<noteq> []
      then Some (''tok_'' @ hexEncode (take 12 (ge_sha256 E (''tgproxy-token-request:'' @ cleanKey))))
      else map_option (\<lambda>idBytes. ''tok_'' @ hexEncode idBytes) idBytes)"

text \<open>The locked part, from the cleaned inputs: the answer carries whether it was a replay.\<close>

definition createToken_locked ::
  "controlenv \<Rightarrow> controlPlane \<Rightarrow> string option \<Rightarrow> persistIO \<Rightarrow> string \<Rightarrow> string \<Rightarrow> string \<Rightarrow> Token
   \<Rightarrow> controlPlane \<times> string option \<times> (cpError + Token \<times> string \<times> bool)" where
  "createToken_locked C c disk io cleanName raw cleanKey token =
     (let E = ce_go C; tokenID = tk_ID token;
          create =
            (if length (allTokens E c) \<ge> 1024 then (c, disk, Inl (ErrText ''too many tokens''))
             else
               (let added = cs_AddedTokens (cp_state c);
                    c = c\<lparr>cp_state := (cp_state c)\<lparr>cs_AddedTokens := added @ [token]\<rparr>\<rparr>
                in case persistCriticalLocked C c disk io of
                     (c, disk, True) \<Rightarrow>
                       (c\<lparr>cp_state := (cp_state c)\<lparr>cs_AddedTokens := butlast (cs_AddedTokens (cp_state c))\<rparr>\<rparr>,
                        disk, Inl ErrIO)
                   | (c, disk, False) \<Rightarrow> (c, disk, Inr (token, raw, False))))
      in if cleanKey = [] then create
         else if containsString (cs_DeletedTokenIDs (cp_state c)) tokenID
         then (c, disk, Inl (ErrText ''idempotency key belongs to a deleted token''))
         else
           (case find (\<lambda>existing. StableTokenID E existing = tokenID) (allTokens E c) of
              None \<Rightarrow> create
            | Some existing \<Rightarrow>
                if \<not> constantHashEqual E (tk_Hash existing) (tk_Hash token)
                then (c, disk, Inl (ErrText ''idempotency key is already associated with another secret''))
                else if sanitizeDisplay (tk_Name existing) 128 \<noteq> cleanName
                then (c, disk, Inl (ErrText ''idempotency key is already associated with another token name''))
                else (c, disk, Inr (existing\<lparr>tk_ID := tokenID\<rparr>, raw, True))))"

definition createToken ::
  "controlenv \<Rightarrow> controlPlane \<Rightarrow> string option \<Rightarrow> persistIO \<Rightarrow> string \<Rightarrow> string \<Rightarrow> string
   \<Rightarrow> nat list option \<Rightarrow> nat list option \<Rightarrow> string
   \<Rightarrow> controlPlane \<times> string option \<times> (cpError + Token \<times> string \<times> bool)" where
  "createToken C c disk io name requestedSecret idempotencyKey secretBytes idBytes nowText =
     (if \<not> cp_enabled c then (c, disk, Inl (ErrText ''owner API is disabled''))
      else
        (case createToken_inputs name requestedSecret idempotencyKey secretBytes of
           Inl e \<Rightarrow> (c, disk, Inl e)
         | Inr (cleanName, raw, cleanKey) \<Rightarrow>
             (case createToken_id (ce_go C) cleanKey idBytes of
                None \<Rightarrow> (c, disk, Inl ErrIO)
              | Some tokenID \<Rightarrow>
                  createToken_locked C c disk io cleanName raw cleanKey
                    \<lparr>tk_ID = tokenID, tk_Name = cleanName, tk_Hash = TokenHash (ce_go C) raw,
                     tk_CreatedAt = nowText\<rparr>)))"

definition session_closers :: "(trackedSession \<Rightarrow> bool) \<Rightarrow> sessions \<Rightarrow> nat list" where
  "session_closers P ss =
     concat (map (\<lambda>(k, s). if P s then (case ts_close s of None \<Rightarrow> [] | Some f \<Rightarrow> [f]) else []) ss)"

text \<open>The clients of a token leave the state with their blocks.\<close>

definition removeTokenClients :: "string \<Rightarrow> controlState \<Rightarrow> controlState" where
  "removeTokenClients tokenID s =
     (let gone = map fst (filter (\<lambda>(k, client). tc_TokenID client = tokenID) (cs_Clients s))
      in s\<lparr>cs_Clients := filter (\<lambda>(k, client). tc_TokenID client \<noteq> tokenID) (cs_Clients s),
           cs_BlockedDevices :=
             filter (\<lambda>(k, at). \<not> (k \<in> set gone \<and> mget [] (cs_BlockedDevices s) k \<noteq> []))
               (cs_BlockedDevices s)\<rparr>)"

text \<open>
  Whether the deletion adds to the revoked hashes (the hash is configured) and to the deleted ids,
  and the state it leaves before it is written.
\<close>

definition revokes :: "goenv \<Rightarrow> controlPlane \<Rightarrow> string \<Rightarrow> bool" where
  "revokes E c hash \<longleftrightarrow>
     list_ex (\<lambda>token. normalizeHash E (tk_Hash token) = hash) (cp_baseTokens c)
     \<and> \<not> containsString (cs_RevokedHashes (cp_state c)) hash"

definition buries :: "controlPlane \<Rightarrow> string \<Rightarrow> bool" where
  "buries c tokenID \<longleftrightarrow>
     hasPrefix tokenID ''tok_'' \<and> \<not> containsString (cs_DeletedTokenIDs (cp_state c)) tokenID"

definition deleted_state :: "goenv \<Rightarrow> controlPlane \<Rightarrow> string \<Rightarrow> string \<Rightarrow> controlState" where
  "deleted_state E c hash tokenID =
     (let s = cp_state c
      in removeTokenClients tokenID
           (s\<lparr>cs_AddedTokens := filter (\<lambda>token. normalizeHash E (tk_Hash token) \<noteq> hash) (cs_AddedTokens s),
              cs_RevokedHashes := (if revokes E c hash then cs_RevokedHashes s @ [hash] else cs_RevokedHashes s),
              cs_DeletedTokenIDs :=
                (if buries c tokenID then cs_DeletedTokenIDs s @ [tokenID] else cs_DeletedTokenIDs s)\<rparr>))"

definition deleteToken ::
  "controlenv \<Rightarrow> controlPlane \<Rightarrow> string option \<Rightarrow> persistIO \<Rightarrow> string
   \<Rightarrow> controlPlane \<times> string option \<times> cpError option \<times> nat list" where
  "deleteToken C c disk io tokenId =
     (let E = ce_go C; cleanID = trimSpace tokenId; s = cp_state c
      in if cleanID = [] then (c, disk, Some (ErrText ''token id is required''), [])
         else
           (case find (\<lambda>token. StableTokenID E token = cleanID) (allTokens E c) of
              None \<Rightarrow> (c, disk, Some ErrNotExist, [])
            | Some found \<Rightarrow>
                (let hash = normalizeHash E (tk_Hash found)
                 in if revokes E c hash \<and> length (cs_RevokedHashes s) \<ge> 2048
                    then (c, disk, Some (ErrText ''too many persisted token revocations''), [])
                    else if buries c cleanID \<and> length (cs_DeletedTokenIDs s) \<ge> 2048
                    then (c, disk, Some (ErrText ''too many persisted deleted token ids''), [])
                    else
                      (case persistCriticalLocked C (c\<lparr>cp_state := deleted_state E c hash cleanID\<rparr>) disk io of
                         (c', disk', True) \<Rightarrow>
                           (c'\<lparr>cp_state := s\<lparr>cs_Version := cs_Version (cp_state c')\<rparr>\<rparr>, disk', Some ErrIO, [])
                       | (c', disk', False) \<Rightarrow>
                           (c', disk', None,
                            session_closers (\<lambda>_. True) (mget [] (cp_active c') cleanID))))))"

section \<open>Devices\<close>

definition deviceBlocked :: "goenv \<Rightarrow> controlPlane \<Rightarrow> Token \<Rightarrow> request option \<Rightarrow> bool" where
  "deviceBlocked E c token r =
     (if \<not> cp_enabled c then False
      else
        (let identity = sessionIdentityDetails E token r
         in list_ex (\<lambda>deviceID. mhas (cs_BlockedDevices (cp_state c)) (ri_tokenID identity @ '':'' @ deviceID))
              (candidateDeviceIDs identity)))"

definition deviceClosers :: "controlPlane \<Rightarrow> string \<Rightarrow> nat list" where
  "deviceClosers c clientKey =
     concat (map (\<lambda>(t, ss). session_closers (\<lambda>s. ts_clientKey s = clientKey) ss) (cp_active c))"

definition disconnectDevice :: "controlPlane \<Rightarrow> string \<Rightarrow> string \<Rightarrow> cpError option \<times> nat list" where
  "disconnectDevice c tokenID deviceID =
     (case deviceKey tokenID deviceID of
        Inl e \<Rightarrow> (Some e, [])
      | Inr key \<Rightarrow>
          if \<not> mhas (cs_Clients (cp_state c)) key then (Some ErrNotExist, [])
          else (None, deviceClosers c key))"

definition blocked_state :: "controlPlane \<Rightarrow> string \<Rightarrow> bool \<Rightarrow> string \<Rightarrow> controlState" where
  "blocked_state c key blocked nowText =
     (cp_state c)\<lparr>cs_BlockedDevices :=
        (if blocked then mset_key key nowText (cs_BlockedDevices (cp_state c))
         else mdel key (cs_BlockedDevices (cp_state c)))\<rparr>"

text \<open>On failure the entry of the device is put back as it was.\<close>

definition restore_block :: "controlPlane \<Rightarrow> string \<Rightarrow> (string, string) gomap \<Rightarrow> (string, string) gomap" where
  "restore_block c key devices =
     (case map_of (cs_BlockedDevices (cp_state c)) key of
        Some previous \<Rightarrow> mset_key key previous devices
      | None \<Rightarrow> mdel key devices)"

definition setDeviceBlocked ::
  "controlenv \<Rightarrow> controlPlane \<Rightarrow> string option \<Rightarrow> persistIO \<Rightarrow> string \<Rightarrow> string \<Rightarrow> bool \<Rightarrow> string
   \<Rightarrow> controlPlane \<times> string option \<times> cpError option \<times> nat list" where
  "setDeviceBlocked C c disk io tokenID deviceID blocked nowText =
     (case deviceKey tokenID deviceID of
        Inl e \<Rightarrow> (c, disk, Some e, [])
      | Inr key \<Rightarrow>
          if \<not> mhas (cs_Clients (cp_state c)) key then (c, disk, Some ErrNotExist, [])
          else
            (case persistCriticalLocked C (c\<lparr>cp_state := blocked_state c key blocked nowText\<rparr>) disk io of
               (c', disk', True) \<Rightarrow>
                 (c'\<lparr>cp_state := (cp_state c')\<lparr>cs_BlockedDevices :=
                      restore_block c key (cs_BlockedDevices (cp_state c'))\<rparr>\<rparr>, disk', Some ErrIO, [])
             | (c', disk', False) \<Rightarrow>
                 (c', disk', None, if blocked then deviceClosers c' key else [])))"

end
