(* ===== verification/Control_Sessions.thy ===== *)
theory Control_Sessions
  imports Control_Plane "HOL-Library.Product_Lexorder"
begin

text \<open>
  The sessions of \<open>internal/relay/control_plane.go\<close>: registration of a connected client, the migration
  of its identity, pruning, the owner's overview, the location of a client, and the life cycle of
  the control plane from \<open>newControlPlane\<close> to \<open>shutdown\<close>. A map is iterated in the order of its
  list, which is any order; the unstable \<open>sort.Slice\<close> is then a stable sort of that order.
\<close>

section \<open>Pruning\<close>

definition active_client_keys :: "controlPlane \<Rightarrow> string list" where
  "active_client_keys c = concat (map (\<lambda>(t, ss). map (\<lambda>(k, s). ts_clientKey s) ss) (cp_active c))"

text \<open>The keys to remove: inactive clients first, then active ones, each group oldest first.\<close>

definition prune_order :: "controlPlane \<Rightarrow> string list" where
  "prune_order c =
     (let items = map (\<lambda>(key, client). (key, tc_LastSeen client)) (cs_Clients (cp_state c));
          activeKeys = active_client_keys c;
          inactive = filter (\<lambda>(key, lastSeen). key \<notin> set activeKeys) items;
          active = filter (\<lambda>(key, lastSeen). key \<in> set activeKeys) items
      in map fst (sort_key snd inactive @ sort_key snd active))"

definition pruneClients :: "controlPlane \<Rightarrow> controlPlane" where
  "pruneClients c =
     (let s = cp_state c
      in if length (cs_Clients s) < maxTrackedClients then c
         else
           (let gone = take (length (cs_Clients s) - maxTrackedClients + 1) (prune_order c)
            in c\<lparr>cp_state := s\<lparr>cs_Clients := filter (\<lambda>(k, v). k \<notin> set gone) (cs_Clients s),
                               cs_BlockedDevices :=
                                 filter (\<lambda>(k, v). k \<notin> set gone) (cs_BlockedDevices s)\<rparr>\<rparr>))"

section \<open>Migration of an identity\<close>

definition mergeBlocked :: "string \<Rightarrow> string \<Rightarrow> (string, string) gomap \<Rightarrow> (string, string) gomap" where
  "mergeBlocked oldKey newKey blocked =
     (let blockedAt = mget [] blocked oldKey; current = mget [] blocked newKey
      in if blockedAt = [] then blocked
         else mdel oldKey (if current = [] \<or> blockedAt < current then mset_key newKey blockedAt blocked
                           else blocked))"

definition moveSessions :: "string \<Rightarrow> string \<Rightarrow> (string, sessions) gomap \<Rightarrow> (string, sessions) gomap" where
  "moveSessions oldKey newKey active =
     map (\<lambda>(t, ss). (t, map (\<lambda>(k, s). (k, if ts_clientKey s = oldKey then s\<lparr>ts_clientKey := newKey\<rparr> else s)) ss))
       active"

definition mergeClientKey :: "controlPlane \<Rightarrow> string \<Rightarrow> string \<Rightarrow> string \<Rightarrow> string \<Rightarrow> controlPlane" where
  "mergeClientKey c oldKey newKey tokenID deviceID =
     (let s = cp_state c
      in case map_of (cs_Clients s) oldKey of
           None \<Rightarrow> c
         | Some source \<Rightarrow>
             (let destination =
                (case map_of (cs_Clients s) newKey of
                   None \<Rightarrow> source\<lparr>tc_Key := newKey, tc_TokenID := tokenID, tc_DeviceID := deviceID\<rparr>
                 | Some destination \<Rightarrow> mergeTrackedClient destination source)
              in c\<lparr>cp_state := s\<lparr>cs_Clients := mdel oldKey (mset_key newKey destination (cs_Clients s)),
                                 cs_BlockedDevices := mergeBlocked oldKey newKey (cs_BlockedDevices s)\<rparr>,
                   cp_active := moveSessions oldKey newKey (cp_active c)\<rparr>))"

definition migration_keys ::
  "goenv \<Rightarrow> controlPlane \<Rightarrow> requestDeviceIdentity \<Rightarrow> request \<Rightarrow> string \<Rightarrow> string list" where
  "migration_keys E c identity r remoteIP =
     (let previous = (if ri_previousDeviceID identity \<noteq> []
                      then [ri_tokenID identity @ '':'' @ ri_previousDeviceID identity] else []);
          legacyKey = ri_tokenID identity @ '':'' @ ri_legacyDeviceID identity
      in previous
         @ (if ri_deviceID identity \<noteq> ri_legacyDeviceID identity
               \<and> (case map_of (cs_Clients (cp_state c)) legacyKey of
                    None \<Rightarrow> False | Some legacy \<Rightarrow> legacyMatchesRequest E legacy r remoteIP)
            then [legacyKey] else []))"

definition migrateClientIdentity ::
  "goenv \<Rightarrow> controlPlane \<Rightarrow> requestDeviceIdentity \<Rightarrow> request \<Rightarrow> string \<Rightarrow> controlPlane" where
  "migrateClientIdentity E c identity r remoteIP =
     (let newKey = ri_tokenID identity @ '':'' @ ri_deviceID identity
      in foldl (\<lambda>c oldKey.
           if oldKey = newKey \<or> \<not> mhas (cs_Clients (cp_state c)) oldKey then c
           else mergeClientKey c oldKey newKey (ri_tokenID identity) (ri_deviceID identity))
         c (migration_keys E c identity r remoteIP))"

section \<open>Registering a session\<close>

definition newTrackedClient :: "string \<Rightarrow> string \<Rightarrow> string \<Rightarrow> string \<Rightarrow> trackedClient" where
  "newTrackedClient key tokenID deviceID now =
     \<lparr>tc_Key = key, tc_TokenID = tokenID, tc_DeviceID = deviceID, tc_IdentityVersion = [],
      tc_Manufacturer = [], tc_Brand = [], tc_CanonicalBrand = [], tc_Model = [], tc_MarketingName = [],
      tc_Device = [], tc_Product = [], tc_AppVersion = [], tc_AppCode = [], tc_Android = [],
      tc_Country = [], tc_City = [], tc_RemoteIP = [], tc_FirstSeen = now, tc_LastSeen = []\<rparr>"

definition updateClient :: "trackedClient \<Rightarrow> request \<Rightarrow> string \<Rightarrow> string \<Rightarrow> trackedClient" where
  "updateClient client r remoteIP now =
     client\<lparr>
       tc_IdentityVersion := setIfPresent (tc_IdentityVersion client) (rq_header r ''X-TGProxy-Identity-Version'') 16,
       tc_Manufacturer := setIfPresent (tc_Manufacturer client) (rq_header r ''X-TGProxy-Manufacturer'') 96,
       tc_Brand := setIfPresent (tc_Brand client) (rq_header r ''X-TGProxy-Brand'') 96,
       tc_CanonicalBrand := setIfPresent (tc_CanonicalBrand client) (rq_header r ''X-TGProxy-Canonical-Brand'') 96,
       tc_Model := setIfPresent (tc_Model client) (rq_header r ''X-TGProxy-Model'') 128,
       tc_MarketingName := setIfPresent (tc_MarketingName client) (rq_header r ''X-TGProxy-Device-Name'') 160,
       tc_Device := setIfPresent (tc_Device client) (rq_header r ''X-TGProxy-Device-Code'') 128,
       tc_Product := setIfPresent (tc_Product client) (rq_header r ''X-TGProxy-Product'') 128,
       tc_AppVersion := setIfPresent (tc_AppVersion client) (rq_header r ''X-TGProxy-App-Version'') 64,
       tc_AppCode := setIfPresent (tc_AppCode client) (rq_header r ''X-TGProxy-App-Code'') 32,
       tc_Android := setIfPresent (tc_Android client) (rq_header r ''X-TGProxy-Android'') 64,
       tc_RemoteIP := remoteIP,
       tc_LastSeen := now\<rparr>"

text \<open>The unregister function a session gets, with the state of its \<open>sync.Once\<close>.\<close>

record sessionHandle =
  sh_tokenID :: string
  sh_sessionID :: "64 word"
  sh_clientKey :: string
  sh_done :: bool

definition addSession :: "controlPlane \<Rightarrow> string \<Rightarrow> trackedSession \<Rightarrow> controlPlane" where
  "addSession c tokenID session =
     (let sessionID = cp_nextSessionID c + 1
      in c\<lparr>cp_nextSessionID := sessionID,
           cp_active := mset_key tokenID (mset_key sessionID session (mget [] (cp_active c) tokenID))
                          (cp_active c)\<rparr>)"

definition setClient :: "controlPlane \<Rightarrow> string \<Rightarrow> trackedClient \<Rightarrow> controlPlane" where
  "setClient c key client =
     c\<lparr>cp_state := (cp_state c)\<lparr>cs_Clients := mset_key key client (cs_Clients (cp_state c))\<rparr>\<rparr>"

definition cacheLifetime :: gotime where "cacheLifetime = 24 * 3600 * second"

text \<open>
  The location part: a fresh cache entry is used at once; otherwise, unless a lookup of the address
  runs already, one is started (the answer is its client key and address).
\<close>

definition startLocation ::
  "controlPlane \<Rightarrow> string \<Rightarrow> trackedClient \<Rightarrow> string \<Rightarrow> gotime \<Rightarrow> controlPlane \<times> (string \<times> string) option" where
  "startLocation c clientKey client remoteIP nowT =
     (let needsLocation = (remoteIP \<noteq> [] \<and> tc_Country client = [] \<and> publicIP remoteIP)
      in if \<not> (needsLocation \<and> cp_resolver c \<noteq> None) then (c, None)
         else
           (case map_of (cp_locationCache c) remoteIP of
              Some cached \<Rightarrow>
                if nowT - ca_At cached < cacheLifetime
                then (scheduleClientPersist (setClient c clientKey
                        (client\<lparr>tc_Country := lo_Country (ca_Location cached),
                                tc_City := lo_City (ca_Location cached)\<rparr>)), None)
                else if containsString (cp_locationBusy c) remoteIP then (c, None)
                else (c\<lparr>cp_locationBusy := remoteIP # cp_locationBusy c\<rparr>, Some (clientKey, remoteIP))
            | None \<Rightarrow>
                if containsString (cp_locationBusy c) remoteIP then (c, None)
                else (c\<lparr>cp_locationBusy := remoteIP # cp_locationBusy c\<rparr>, Some (clientKey, remoteIP))))"

text \<open>The rechecks made under the lock that token deletion and blocking also take.\<close>

definition refuseSession :: "goenv \<Rightarrow> controlPlane \<Rightarrow> Token \<Rightarrow> requestDeviceIdentity \<Rightarrow> bool" where
  "refuseSession E c token identity \<longleftrightarrow>
     cp_shuttingDown c \<or> \<not> clientTokenActive E c token
     \<or> list_ex (\<lambda>candidateID. mhas (cs_BlockedDevices (cp_state c)) (ri_tokenID identity @ '':'' @ candidateID))
         (candidateDeviceIDs identity)"

definition sessionClient ::
  "controlPlane \<Rightarrow> requestDeviceIdentity \<Rightarrow> request \<Rightarrow> string \<Rightarrow> string \<Rightarrow> trackedClient" where
  "sessionClient c identity r remoteIP now =
     (let clientKey = ri_tokenID identity @ '':'' @ ri_deviceID identity;
          client = (case map_of (cs_Clients (cp_state c)) clientKey of
                      None \<Rightarrow> newTrackedClient clientKey (ri_tokenID identity) (ri_deviceID identity) now
                    | Some client \<Rightarrow> client)
      in updateClient client r remoteIP now)"

definition enterSession ::
  "goenv \<Rightarrow> controlPlane \<Rightarrow> requestDeviceIdentity \<Rightarrow> request \<Rightarrow> nat \<Rightarrow> string \<Rightarrow> gotime
   \<Rightarrow> controlPlane \<times> sessionHandle \<times> (string \<times> string) option" where
  "enterSession E c identity r closeSession now nowT =
     (let tokenID = ri_tokenID identity; remoteIP = clientRemoteIP (Some r);
          clientKey = tokenID @ '':'' @ ri_deviceID identity;
          c = migrateClientIdentity E (pruneClients c) identity r remoteIP;
          client = sessionClient c identity r remoteIP now;
          c = addSession (setClient c clientKey client) tokenID
                \<lparr>ts_clientKey = clientKey, ts_close = Some closeSession\<rparr>;
          sessionID = cp_nextSessionID c;
          (c, lookup) = startLocation (scheduleClientPersist c) clientKey client remoteIP nowT
      in (c, \<lparr>sh_tokenID = tokenID, sh_sessionID = sessionID, sh_clientKey = clientKey, sh_done = False\<rparr>,
          lookup))"

text \<open>
  The result: the control plane, the handle (none when the owner API is disabled), whether the
  session is registered, and the lookup to start.
\<close>

definition registerSession ::
  "goenv \<Rightarrow> controlPlane \<Rightarrow> Token \<Rightarrow> request \<Rightarrow> nat \<Rightarrow> string \<Rightarrow> gotime
   \<Rightarrow> controlPlane \<times> sessionHandle option \<times> bool \<times> (string \<times> string) option" where
  "registerSession E c token r closeSession now nowT =
     (if \<not> cp_enabled c then (c, None, True, None)
      else
        (let identity = sessionIdentityDetails E token (Some r)
         in if refuseSession E c token identity then (c, None, False, None)
            else
              (let (c, handle, lookup) = enterSession E c identity r closeSession now nowT
               in (c, Some handle, True, lookup))))"

definition touchClient :: "controlPlane \<Rightarrow> string \<Rightarrow> string \<Rightarrow> controlPlane" where
  "touchClient c key now =
     (case map_of (cs_Clients (cp_state c)) key of
        None \<Rightarrow> c
      | Some record_ \<Rightarrow> setClient c key (record_\<lparr>tc_LastSeen := now\<rparr>))"

definition removeSession :: "controlPlane \<Rightarrow> string \<Rightarrow> 64 word \<Rightarrow> controlPlane" where
  "removeSession c tokenID sessionID =
     (case map_of (cp_active c) tokenID of
        None \<Rightarrow> c
      | Some ss \<Rightarrow>
          c\<lparr>cp_active :=
              (if mdel sessionID ss = [] then mdel tokenID (cp_active c)
               else mset_key tokenID (mdel sessionID ss) (cp_active c))\<rparr>)"

definition unregister :: "controlPlane \<Rightarrow> sessionHandle \<Rightarrow> string \<Rightarrow> controlPlane \<times> sessionHandle" where
  "unregister c h now =
     (if sh_done h then (c, h)
      else
        (scheduleClientPersist
           (touchClient (removeSession c (sh_tokenID h) (sh_sessionID h)) (sh_clientKey h) now),
         h\<lparr>sh_done := True\<rparr>))"

section \<open>The location of a client\<close>

text \<open>
  \<open>resolveLocation\<close>: its first locked section (the answer says whether a lookup follows), the
  section that stores the answer, and the deferred one.
\<close>

definition resolveLocation_cached :: "controlPlane \<Rightarrow> string \<Rightarrow> string \<Rightarrow> gotime \<Rightarrow> controlPlane \<times> bool" where
  "resolveLocation_cached c clientKey ip nowT =
     (case map_of (cp_locationCache c) ip of
        Some cached \<Rightarrow>
          if nowT - ca_At cached < cacheLifetime
          then ((case map_of (cs_Clients (cp_state c)) clientKey of
                   None \<Rightarrow> c
                 | Some client \<Rightarrow>
                     scheduleClientPersist (setClient c clientKey
                       (client\<lparr>tc_Country := lo_Country (ca_Location cached),
                               tc_City := lo_City (ca_Location cached)\<rparr>))), False)
          else (c, cp_resolver c \<noteq> None)
      | None \<Rightarrow> (c, cp_resolver c \<noteq> None))"

definition storeLocation :: "controlPlane \<Rightarrow> string \<Rightarrow> location \<Rightarrow> gotime \<Rightarrow> controlPlane" where
  "storeLocation c ip resolved nowT =
     (let cache = cp_locationCache c;
          cache = (if length cache \<ge> maxLocationCache
                   then (case cache of [] \<Rightarrow> [] | (key, _) # _ \<Rightarrow> mdel key cache) else cache)
      in c\<lparr>cp_locationCache := mset_key ip \<lparr>ca_Location = resolved, ca_At = nowT\<rparr> cache\<rparr>)"

definition resolveLocation_store ::
  "controlPlane \<Rightarrow> string \<Rightarrow> string \<Rightarrow> location option \<Rightarrow> gotime \<Rightarrow> controlPlane" where
  "resolveLocation_store c clientKey ip answer nowT =
     (case answer of
        None \<Rightarrow> c
      | Some resolved \<Rightarrow>
          if lo_Country resolved = [] \<and> lo_City resolved = [] then c
          else
            (let c = storeLocation c ip resolved nowT
             in case map_of (cs_Clients (cp_state c)) clientKey of
                  None \<Rightarrow> c
                | Some client \<Rightarrow>
                    if tc_RemoteIP client \<noteq> ip then c
                    else scheduleClientPersist (setClient c clientKey
                           (client\<lparr>tc_Country := sanitizeDisplay (lo_Country resolved) 128,
                                   tc_City := sanitizeDisplay (lo_City resolved) 128\<rparr>))))"

definition resolveLocation_done :: "controlPlane \<Rightarrow> string \<Rightarrow> controlPlane" where
  "resolveLocation_done c ip = c\<lparr>cp_locationBusy := filter (\<lambda>b. b \<noteq> ip) (cp_locationBusy c)\<rparr>"

text \<open>\<open>url.PathEscape\<close> and \<open>strings.Replace(s, "%s", new, 1)\<close>.\<close>

definition path_safe :: "char \<Rightarrow> bool" where
  "path_safe c \<longleftrightarrow> is_alnum c \<or> c \<in> set ''-_.~$&+=:@''"

definition upper_hex :: "nat \<Rightarrow> char" where
  "upper_hex n = (if n < 10 then char_of (48 + n) else char_of (55 + n))"

definition pathEscape :: "string \<Rightarrow> string" where
  "pathEscape s =
     concat (map (\<lambda>c. if path_safe c then [c]
                      else [CHR ''%'', upper_hex (code c div 16), upper_hex (code c mod 16)]) s)"

fun replaceFirst :: "string \<Rightarrow> string \<Rightarrow> string" where
  "replaceFirst [] new = []"
| "replaceFirst (c # s) new =
     (if hasPrefix (c # s) ''%s'' then new @ drop 2 (c # s) else c # replaceFirst s new)"

text \<open>
  What the lookup service answers to a request: no response, or a status and the decoded body
  (\<open>success\<close>, \<open>country\<close>, \<open>city\<close>).
\<close>

datatype geoAnswer = GeoFailed | GeoStatus int "(bool \<times> string \<times> string) option"

definition geoIP_Resolve :: "string \<Rightarrow> (string \<Rightarrow> geoAnswer) \<Rightarrow> string \<Rightarrow> location option" where
  "geoIP_Resolve template get ip =
     (if \<not> publicIP ip then None
      else
        (case get (replaceFirst template (pathEscape ip)) of
           GeoFailed \<Rightarrow> None
         | GeoStatus status body \<Rightarrow>
             if status < 200 \<or> status \<ge> 300 then None
             else
               (case body of
                  None \<Rightarrow> None
                | Some (success, country, city) \<Rightarrow>
                    if \<not> success then None
                    else Some \<lparr>lo_Country = sanitizeDisplay country 128, lo_City = sanitizeDisplay city 128\<rparr>)))"

end
