(* ===== verification/Control_Lifecycle.thy ===== *)
theory Control_Lifecycle
  imports Control_Sessions
begin

text \<open>
  The life cycle of the control plane in \<open>internal/relay/control_plane.go\<close>: reading and checking the
  state file, \<open>newControlPlane\<close>, \<open>shutdown\<close>, and the owner's overview.
\<close>

section \<open>Reading the state file\<close>

definition load_tokens_bad :: "goenv \<Rightarrow> controlState \<Rightarrow> bool" where
  "load_tokens_bad E s \<longleftrightarrow>
     list_ex (\<lambda>token. tk_ID token = [] \<or> StableTokenID E token \<noteq> tk_ID token
                \<or> \<not> constantHashEqual E (tk_Hash token) (normalizeHash E (tk_Hash token)))
       (cs_AddedTokens s)"

definition load_revoked_bad :: "goenv \<Rightarrow> controlState \<Rightarrow> bool" where
  "load_revoked_bad E s \<longleftrightarrow>
     list_ex (\<lambda>hash. normalizeHash E hash = [] \<or> \<not> constantHashEqual E hash (normalizeHash E hash))
       (cs_RevokedHashes s)"

definition load_deleted_bad :: "controlState \<Rightarrow> bool" where
  "load_deleted_bad s \<longleftrightarrow>
     list_ex (\<lambda>d. sanitizeIdentifier d 96 = [] \<or> \<not> hasPrefix d ''tok_'') (cs_DeletedTokenIDs s)"

definition load_client_bad :: "string \<Rightarrow> trackedClient \<Rightarrow> bool" where
  "load_client_bad key client \<longleftrightarrow>
     key \<noteq> tc_Key client \<or> sanitizeIdentifier (tc_DeviceID client) 96 = []
     \<or> sanitizeIdentifier (tc_TokenID client) 96 = [] \<or> key \<noteq> tc_TokenID client @ '':'' @ tc_DeviceID client"

definition load_blocked_key_bad :: "controlState \<Rightarrow> string \<Rightarrow> bool" where
  "load_blocked_key_bad s key \<longleftrightarrow>
     (case map_of (cs_Clients s) key of
        None \<Rightarrow> True
      | Some client \<Rightarrow> key \<noteq> tc_TokenID client @ '':'' @ tc_DeviceID client)"

text \<open>The checks of \<open>load\<close> on a decoded state, in its order.\<close>

definition load_checks :: "goenv \<Rightarrow> bool \<Rightarrow> controlState \<Rightarrow> string option" where
  "load_checks E nullClient s =
     first_error
       [check (cs_Version s \<noteq> 1 \<and> cs_Version s \<noteq> 2 \<and> cs_Version s \<noteq> controlStateVersion)
          ''unsupported control state version'',
        check (cs_InstanceID s \<noteq> [] \<and> \<not> ValidInstanceID (cs_InstanceID s))
          ''control state contains an invalid instance identity'',
        check (length (cs_AddedTokens s) > 1024 \<or> length (cs_RevokedHashes s) > 2048
               \<or> length (cs_DeletedTokenIDs s) > 2048
               \<or> length (cs_Clients s) > maxTrackedClients \<or> length (cs_BlockedDevices s) > maxTrackedClients)
          ''control state exceeds limits'',
        check (load_tokens_bad E s) ''control state contains an invalid token'',
        check (load_revoked_bad E s) ''control state contains an invalid revoked hash'',
        check (load_deleted_bad s) ''control state contains an invalid deleted token id'',
        check (nullClient \<or> list_ex (\<lambda>(key, client). load_client_bad key client) (cs_Clients s))
          ''control state contains an invalid client'',
        first_error (concat (map (\<lambda>(key, blockedAt).
          [check (load_blocked_key_bad s key) ''control state contains an invalid blocked device'',
           check (ge_rfc3339 E blockedAt = None) ''control state contains an invalid blocked timestamp''])
          (cs_BlockedDevices s)))]"

definition load :: "controlenv \<Rightarrow> controlState \<Rightarrow> readFile \<Rightarrow> string + controlState" where
  "load C state stateFile =
     (case stateFile of
        FileAbsent \<Rightarrow> Inr state
      | FileError \<Rightarrow> Inl ''load control state''
      | FileData data \<Rightarrow>
          if length data > 8 * 1024 * 1024 then Inl ''control state is too large''
          else
            (case ce_decodeState C data of
               None \<Rightarrow> Inl ''parse control state''
             | Some (s, nullClient, atEnd) \<Rightarrow>
                 if \<not> atEnd then Inl ''parse control state: trailing data''
                 else
                   (case load_checks (ce_go C) nullClient s of
                      Some e \<Rightarrow> Inl e
                    | None \<Rightarrow>
                        Inr (s\<lparr>cs_Version := controlStateVersion\<rparr>))))"

fun validateState_loop :: "goenv \<Rightarrow> string list \<Rightarrow> string list \<Rightarrow> Token list \<Rightarrow> string option" where
  "validateState_loop E ids hashes [] = None"
| "validateState_loop E ids hashes (token # tokens) =
     (let tokenID = StableTokenID E token; hash = normalizeHash E (tk_Hash token)
      in if tokenID \<in> set ids then Some ''control state conflicts with configured token id''
         else if hash \<in> set hashes then Some ''control state conflicts with a configured token hash''
         else validateState_loop E (tokenID # ids) (hash # hashes) tokens)"

definition validateStateAgainstConfig :: "goenv \<Rightarrow> controlPlane \<Rightarrow> string option" where
  "validateStateAgainstConfig E c =
     validateState_loop E [] [] (cp_baseTokens c @ cs_AddedTokens (cp_state c))"

section \<open>Starting\<close>

definition emptyState :: controlState where
  "emptyState = \<lparr>cs_Version = controlStateVersion, cs_InstanceID = [], cs_AddedTokens = [],
     cs_RevokedHashes = [], cs_DeletedTokenIDs = [], cs_Clients = [], cs_BlockedDevices = []\<rparr>"

definition freshControlPlane :: "Config \<Rightarrow> controlPlane" where
  "freshControlPlane cfg =
     \<lparr>cp_baseTokens = cf_Tokens cfg, cp_adminTokens = ac_Tokens (cf_Admin cfg),
      cp_statePath = trimSpace (ac_StatePath (cf_Admin cfg)), cp_state = emptyState, cp_active = [],
      cp_nextSessionID = 0, cp_resolver = None, cp_locationCache = [], cp_locationBusy = [],
      cp_clientDirty = False, cp_clientFlush = None, cp_shuttingDown = False\<rparr>"

text \<open>The identity and the resolver: the part of \<open>newControlPlane\<close> after the state is loaded.\<close>

definition finishControlPlane :: "Config \<Rightarrow> nat list option \<Rightarrow> controlPlane \<Rightarrow> string + controlPlane" where
  "finishControlPlane cfg raw control =
     (let configuredInstanceID = trimSpace (cf_InstanceID cfg);
          current = cs_InstanceID (cp_state control);
          template = trimSpace (ac_GeoIPURL (cf_Admin cfg));
          finish = (\<lambda>c. Inr (if template \<noteq> [] then c\<lparr>cp_resolver := Some template\<rparr> else c))
      in if configuredInstanceID \<noteq> [] \<and> current \<noteq> [] \<and> current \<noteq> configuredInstanceID
         then Inl ''configured instanceId conflicts with the persisted Relay identity''
         else
           (let control = (if configuredInstanceID \<noteq> []
                           then control\<lparr>cp_state := (cp_state control)\<lparr>cs_InstanceID := configuredInstanceID\<rparr>\<rparr>
                           else control)
            in if cs_InstanceID (cp_state control) \<noteq> [] then finish control
               else
                 (case generateInstanceID raw of
                    None \<Rightarrow> Inl ''generate Relay instance identity''
                  | Some instanceID \<Rightarrow>
                      finish (control\<lparr>cp_state := (cp_state control)\<lparr>cs_InstanceID := instanceID\<rparr>\<rparr>))))"

definition newControlPlane ::
  "controlenv \<Rightarrow> Config \<Rightarrow> readFile \<Rightarrow> nat list option \<Rightarrow> string + controlPlane" where
  "newControlPlane C cfg stateFile raw =
     (let control = freshControlPlane cfg
      in if cp_enabled control \<and> cp_statePath control \<noteq> [] then
           (case load C (cp_state control) stateFile of
              Inl e \<Rightarrow> Inl e
            | Inr state \<Rightarrow>
                (let control = control\<lparr>cp_state := state\<rparr>
                 in case validateStateAgainstConfig (ce_go C) control of
                      Some e \<Rightarrow> Inl e
                    | None \<Rightarrow> finishControlPlane cfg raw control))
         else finishControlPlane cfg raw control)"

section \<open>Shutting down\<close>

text \<open>
  The first locked section, with the close functions to call, and the last one after the bounded
  wait; between them sessions may unregister.
\<close>

definition shutdown_begin :: "controlPlane \<Rightarrow> controlPlane \<times> nat list" where
  "shutdown_begin c =
     (c\<lparr>cp_shuttingDown := True\<rparr>,
      concat (map (\<lambda>(t, ss). session_closers (\<lambda>_. True) ss) (cp_active c)))"

definition shutdown_finish ::
  "controlenv \<Rightarrow> controlPlane \<Rightarrow> string option \<Rightarrow> persistIO \<Rightarrow> controlPlane \<times> string option \<times> bool" where
  "shutdown_finish C c disk io =
     (let c = c\<lparr>cp_clientFlush := None\<rparr>
      in if \<not> cp_clientDirty c then (c, disk, False)
         else
           (case persistLocked C c disk io of
              (c, disk, True) \<Rightarrow> (c, disk, True)
            | (c, disk, False) \<Rightarrow> (c\<lparr>cp_clientDirty := False\<rparr>, disk, False)))"

section \<open>The overview\<close>

record tokenView =
  tv_ID :: string
  tv_Name :: string
  tv_CreatedAt :: string
  tv_ActiveDevices :: nat
  tv_KnownDevices :: nat

record clientView =
  cv_TokenID :: string
  cv_DeviceID :: string
  cv_IdentityVersion :: string
  cv_Manufacturer :: string
  cv_Brand :: string
  cv_CanonicalBrand :: string
  cv_Model :: string
  cv_MarketingName :: string
  cv_Device :: string
  cv_Product :: string
  cv_AppVersion :: string
  cv_AppCode :: string
  cv_Android :: string
  cv_Country :: string
  cv_City :: string
  cv_RemoteIP :: string
  cv_FirstSeen :: string
  cv_LastSeen :: string
  cv_ActiveSessions :: nat
  cv_Blocked :: bool
  cv_BlockedAt :: string

definition activeByClient :: "controlPlane \<Rightarrow> string \<Rightarrow> nat" where
  "activeByClient c key = length (filter (\<lambda>k. k = key) (active_client_keys c))"

text \<open>The set \<open>knownByToken[id]\<close>, as the list of its elements.\<close>

definition knownByToken :: "controlPlane \<Rightarrow> string \<Rightarrow> string list" where
  "knownByToken c tokenID =
     remdups (map (\<lambda>(k, client). tc_DeviceID client)
       (filter (\<lambda>(k, client). tc_TokenID client = tokenID) (cs_Clients (cp_state c))))"

definition viewClient :: "controlPlane \<Rightarrow> trackedClient \<Rightarrow> clientView" where
  "viewClient c client =
     \<lparr>cv_TokenID = tc_TokenID client, cv_DeviceID = tc_DeviceID client,
      cv_IdentityVersion = tc_IdentityVersion client, cv_Manufacturer = tc_Manufacturer client,
      cv_Brand = tc_Brand client, cv_CanonicalBrand = tc_CanonicalBrand client, cv_Model = tc_Model client,
      cv_MarketingName = tc_MarketingName client, cv_Device = tc_Device client,
      cv_Product = tc_Product client, cv_AppVersion = tc_AppVersion client, cv_AppCode = tc_AppCode client,
      cv_Android = tc_Android client, cv_Country = tc_Country client, cv_City = tc_City client,
      cv_RemoteIP = tc_RemoteIP client, cv_FirstSeen = tc_FirstSeen client,
      cv_LastSeen = tc_LastSeen client, cv_ActiveSessions = activeByClient c (tc_Key client),
      cv_Blocked = (mget [] (cs_BlockedDevices (cp_state c)) (tc_Key client) \<noteq> []),
      cv_BlockedAt = mget [] (cs_BlockedDevices (cp_state c)) (tc_Key client)\<rparr>"

definition viewToken :: "goenv \<Rightarrow> controlPlane \<Rightarrow> Token \<Rightarrow> tokenView" where
  "viewToken E c token =
     (let tokenID = StableTokenID E token
      in \<lparr>tv_ID = tokenID, tv_Name = tk_Name token, tv_CreatedAt = tk_CreatedAt token,
          tv_ActiveDevices =
            length (filter (\<lambda>key. activeByClient c (tokenID @ '':'' @ key) > 0) (knownByToken c tokenID)),
          tv_KnownDevices = length (knownByToken c tokenID)\<rparr>)"

definition overview :: "goenv \<Rightarrow> controlPlane \<Rightarrow> tokenView list \<times> clientView list" where
  "overview E c =
     (sort_key (\<lambda>v. (tv_CreatedAt v, tv_Name v)) (map (viewToken E c) (allTokens E c)),
      rev (sort_key cv_LastSeen (rev (map (\<lambda>(k, client). viewClient c client) (cs_Clients (cp_state c))))))"

end
