(* ===== verification/Control_Invariant.thy ===== *)
theory Control_Invariant
  imports Control_Lifecycle
begin

text \<open>
  The well-formedness of the owner state and the laws of its codec: what is assumed of JSON is that it
  keeps ASCII strings, numbers, lists and maps; a display string may come back changed.
\<close>

section \<open>Well-formed states\<close>

definition cp_ident :: "string \<Rightarrow> bool" where
  "cp_ident s \<longleftrightarrow> s \<noteq> [] \<and> length s \<le> 96 \<and> list_all cp_ident_char s"

definition rfc_text :: "goenv \<Rightarrow> string \<Rightarrow> bool" where
  "rfc_text E at \<longleftrightarrow> ge_rfc3339 E at \<noteq> None \<and> list_all is_ascii at"

definition client_ok :: "string \<Rightarrow> trackedClient \<Rightarrow> bool" where
  "client_ok k client \<longleftrightarrow>
     tc_Key client = k \<and> k = tc_TokenID client @ '':'' @ tc_DeviceID client
     \<and> cp_ident (tc_TokenID client) \<and> cp_ident (tc_DeviceID client)"

definition clients_ok :: "(string, trackedClient) gomap \<Rightarrow> bool" where
  "clients_ok clients \<longleftrightarrow>
     gomap_ok clients \<and> (\<forall>(k, client) \<in> set clients. client_ok k client)"

definition blocked_ok :: "goenv \<Rightarrow> (string, trackedClient) gomap \<Rightarrow> (string, string) gomap \<Rightarrow> bool" where
  "blocked_ok E clients blocked \<longleftrightarrow>
     gomap_ok blocked \<and> (\<forall>(k, at) \<in> set blocked. mhas clients k \<and> rfc_text E at)"

definition devices_ok :: "goenv \<Rightarrow> controlState \<Rightarrow> bool" where
  "devices_ok E s \<longleftrightarrow>
     clients_ok (cs_Clients s) \<and> blocked_ok E (cs_Clients s) (cs_BlockedDevices s)
     \<and> length (cs_Clients s) \<le> maxTrackedClients"

definition token_hashes :: "goenv \<Rightarrow> Token list \<Rightarrow> string list" where
  "token_hashes E ts = map (\<lambda>t. normalizeHash E (tk_Hash t)) ts"

definition added_ok :: "Token \<Rightarrow> bool" where
  "added_ok t \<longleftrightarrow> canonical_hash (tk_Hash t) \<and> plain_ident (tk_ID t)"

text \<open>
  The owner may create a second token with a known secret, so the list of added tokens has no bound of
  its own and may repeat hashes; what is bounded is the number of hashes it adds to the configured ones.
\<close>

definition tokens_ok :: "goenv \<Rightarrow> Token list \<Rightarrow> controlState \<Rightarrow> bool" where
  "tokens_ok E base s \<longleftrightarrow>
     card (set (token_hashes E (cs_AddedTokens s)) - set (token_hashes E base)) \<le> 1024
     \<and> length (cs_RevokedHashes s) \<le> 2048 \<and> length (cs_DeletedTokenIDs s) \<le> 2048
     \<and> (\<forall>t \<in> set (cs_AddedTokens s). added_ok t)
     \<and> set (cs_RevokedHashes s) \<subseteq> set (token_hashes E base)
     \<and> (\<forall>h \<in> set (cs_RevokedHashes s). canonical_hash h)
     \<and> (\<forall>d \<in> set (cs_DeletedTokenIDs s). plain_ident d \<and> hasPrefix d ''tok_'')"

text \<open>What the next start demands of the configured and added tokens together.\<close>

definition unambiguous :: "goenv \<Rightarrow> Token list \<Rightarrow> bool" where
  "unambiguous E ts \<longleftrightarrow> distinct (token_hashes E ts) \<and> distinct (map (StableTokenID E) ts)"

definition instance_ok :: "string \<Rightarrow> string \<Rightarrow> bool" where
  "instance_ok configured current \<longleftrightarrow>
     ValidInstanceID current \<and> list_all plain_char current
     \<and> (configured \<noteq> [] \<longrightarrow> current = configured)"

definition state_ok :: "goenv \<Rightarrow> Config \<Rightarrow> controlState \<Rightarrow> bool" where
  "state_ok E cfg s \<longleftrightarrow>
     cs_Version s = controlStateVersion \<and> instance_ok (trimSpace (cf_InstanceID cfg)) (cs_InstanceID s)
     \<and> tokens_ok E (cf_Tokens cfg) s \<and> devices_ok E s"

section \<open>The codec\<close>

definition structural :: "controlState \<Rightarrow> bool" where
  "structural s \<longleftrightarrow>
     list_all is_ascii (cs_InstanceID s)
     \<and> (\<forall>t \<in> set (cs_AddedTokens s). list_all is_ascii (tk_ID t) \<and> list_all is_ascii (tk_Hash t))
     \<and> (\<forall>h \<in> set (cs_RevokedHashes s). list_all is_ascii h)
     \<and> (\<forall>d \<in> set (cs_DeletedTokenIDs s). list_all is_ascii d)
     \<and> gomap_ok (cs_Clients s) \<and> gomap_ok (cs_BlockedDevices s)
     \<and> (\<forall>(k, client) \<in> set (cs_Clients s). list_all is_ascii k \<and> list_all is_ascii (tc_Key client)
          \<and> list_all is_ascii (tc_TokenID client) \<and> list_all is_ascii (tc_DeviceID client))
     \<and> (\<forall>(k, at) \<in> set (cs_BlockedDevices s). list_all is_ascii k \<and> list_all is_ascii at)"

definition same_token :: "Token \<Rightarrow> Token \<Rightarrow> bool" where
  "same_token t t' \<longleftrightarrow> tk_ID t' = tk_ID t \<and> tk_Hash t' = tk_Hash t"

definition same_client :: "trackedClient \<Rightarrow> trackedClient \<Rightarrow> bool" where
  "same_client a b \<longleftrightarrow> tc_Key b = tc_Key a \<and> tc_TokenID b = tc_TokenID a \<and> tc_DeviceID b = tc_DeviceID a"

definition same_state :: "controlState \<Rightarrow> controlState \<Rightarrow> bool" where
  "same_state s s' \<longleftrightarrow>
     cs_Version s' = cs_Version s \<and> cs_InstanceID s' = cs_InstanceID s
     \<and> list_all2 same_token (cs_AddedTokens s) (cs_AddedTokens s')
     \<and> cs_RevokedHashes s' = cs_RevokedHashes s \<and> cs_DeletedTokenIDs s' = cs_DeletedTokenIDs s
     \<and> gomap_ok (cs_Clients s') \<and> gomap_ok (cs_BlockedDevices s')
     \<and> map_of (cs_BlockedDevices s') = map_of (cs_BlockedDevices s)
     \<and> (\<forall>k. rel_option same_client (map_of (cs_Clients s) k) (map_of (cs_Clients s') k))"

text \<open>The documented behaviour of \<open>encoding/json\<close> the relay relies on.\<close>

definition codec_ok :: "controlenv \<Rightarrow> bool" where
  "codec_ok C \<longleftrightarrow>
     (\<forall>s d. structural s \<longrightarrow> ce_marshalState C s = Some d \<longrightarrow>
        (\<exists>s'. ce_decodeState C d = Some (s', False, True) \<and> same_state s s'))"

section \<open>Identifiers\<close>

lemma cp_ident_char_plain: "cp_ident_char c \<Longrightarrow> plain_char c"
  by (auto simp: cp_ident_char_def plain_char_def dest: alnum_plain)

lemma plain_all_ascii: "list_all plain_char s \<Longrightarrow> list_all is_ascii s"
  by (auto simp: list_all_iff plain_ascii)

lemma cp_ident_sanitize [simp]: "cp_ident s \<Longrightarrow> sanitizeIdentifier s 96 = s"
proof -
  assume s: "cp_ident s"
  then have "trimSpace s = s"
    by (intro trimSpace_all_plain) (auto simp: cp_ident_def list_all_iff cp_ident_char_plain)
  then show ?thesis using s by (simp add: sanitizeIdentifier_def cp_ident_def)
qed

lemma sanitizeIdentifier_cases: "sanitizeIdentifier v 96 = [] \<or> cp_ident (sanitizeIdentifier v 96)"
  by (auto simp: sanitizeIdentifier_def cp_ident_def Let_def)

lemma plain_ident_cp_ident: "plain_ident s \<Longrightarrow> cp_ident s"
  by (auto simp: plain_ident_def cp_ident_def list_all_iff ident_char_def cp_ident_char_def)

lemma cp_ident_ascii: "cp_ident s \<Longrightarrow> list_all is_ascii s"
  by (auto simp: cp_ident_def list_all_iff intro: plain_ascii cp_ident_char_plain)

lemma plain_ident_ascii: "plain_ident s \<Longrightarrow> list_all is_ascii s"
  by (blast intro: cp_ident_ascii plain_ident_cp_ident)

lemma canonical_ascii: "canonical_hash h \<Longrightarrow> list_all is_ascii h"
  by (auto simp: list_all_iff dest: canonical_hash_chars)

lemma constantHashEqual_canonical:
  assumes "canonical_hash (normalizeHash E h)" and "canonical_hash (normalizeHash E k)"
  shows "constantHashEqual E h k \<longleftrightarrow> normalizeHash E h = normalizeHash E k"
proof -
  obtain x where x: "normalizeHash E h = ''sha256:'' @ x" "length x = 64" "\<forall>c \<in> set x. is_lower_hex c"
    using assms(1) by (rule canonical_hashE)
  obtain y where y: "normalizeHash E k = ''sha256:'' @ y" "length y = 64" "\<forall>c \<in> set y. is_lower_hex c"
    using assms(2) by (rule canonical_hashE)
  obtain bs cs where bc: "hexDecode x = Some bs" "hexDecode y = Some cs" "length bs = 32" "length cs = 32"
    using hexDecode_canonical [OF assms(1)] hexDecode_canonical [OF assms(2)] x(1) y(1)
    by auto
  have "x = y" if "bs = cs"
    using hexDecode_inj_lower [OF x(3) y(3)] bc that by simp
  then show ?thesis
    using bc x(1) y(1) by (auto simp: constantHashEqual_def hash_bytes_def)
qed

text \<open>Whatever the strings, an accepted comparison is between hashes that are canonical once normalised.\<close>

lemma hash_bytes_canonical:
  assumes "lower_ok E" and "hash_bytes E h = Some bs" and "length bs = 32"
  shows "canonical_hash (normalizeHash E h)"
proof -
  let ?n = "normalizeHash E h"
  have len: "length (trimPrefix ?n ''sha256:'') = 64"
    using hexDecode_Some_length assms(2,3) by (fastforce simp: hash_bytes_def)
  have dec: "hexDecode (trimPrefix ?n ''sha256:'') = Some bs"
    using assms(2) by (simp add: hash_bytes_def)
  have "hasPrefix ?n ''sha256:''"
  proof (rule ccontr)
    assume no: "\<not> hasPrefix ?n ''sha256:''"
    then have "length ?n = 64" "hexDecode ?n = Some bs"
      using len dec by (simp_all add: trimPrefix_def)
    with no show False
      unfolding normalizeHash_def Let_def by (auto simp: hasPrefix_def split: if_splits)
  qed
  then show ?thesis by (rule canonical_normalizeHash [OF assms(1) _ len dec])
qed

lemma constantHashEqual_normal:
  assumes "lower_ok E" and "constantHashEqual E h k"
  shows "canonical_hash (normalizeHash E h)" and "normalizeHash E h = normalizeHash E k"
proof -
  have "canonical_hash (normalizeHash E h)" "canonical_hash (normalizeHash E k)"
    using assms by (auto simp: constantHashEqual_def split: option.splits if_splits
      intro: hash_bytes_canonical)
  then show "canonical_hash (normalizeHash E h)" "normalizeHash E h = normalizeHash E k"
    using assms(2) by (simp_all add: constantHashEqual_canonical)
qed

end
