(* ===== verification/Control_Restart.thy ===== *)
theory Control_Restart
  imports Control_Invariant
begin

text \<open>
  A well-formed state is accepted by \<open>load\<close> and by the comparison with the configuration, and the
  codec keeps well-formedness: what the relay writes it can read again.
\<close>

section \<open>The codec keeps well-formedness\<close>

lemma same_stateD:
  assumes "same_state s s'"
  shows "cs_Version s' = cs_Version s" "cs_InstanceID s' = cs_InstanceID s"
    "list_all2 same_token (cs_AddedTokens s) (cs_AddedTokens s')"
    "cs_RevokedHashes s' = cs_RevokedHashes s" "cs_DeletedTokenIDs s' = cs_DeletedTokenIDs s"
    "gomap_ok (cs_Clients s')" "gomap_ok (cs_BlockedDevices s')"
    "map_of (cs_BlockedDevices s') = map_of (cs_BlockedDevices s)"
    "rel_option same_client (map_of (cs_Clients s) k) (map_of (cs_Clients s') k)"
  using assms by (auto simp: same_state_def)

lemma same_token_hash: "same_token t t' \<Longrightarrow> normalizeHash E (tk_Hash t') = normalizeHash E (tk_Hash t)"
  by (simp add: same_token_def)

lemma same_token_id: "same_token t t' \<Longrightarrow> StableTokenID E t' = StableTokenID E t"
  by (simp add: same_token_def StableTokenID_def)

lemma list_all2_map_eq: "list_all2 R xs ys \<Longrightarrow> (\<And>x y. R x y \<Longrightarrow> f y = f x) \<Longrightarrow> map f ys = map f xs"
  by (induction rule: list_all2_induct) auto

lemma list_all2_right: "list_all2 R xs ys \<Longrightarrow> y \<in> set ys \<Longrightarrow> \<exists>x \<in> set xs. R x y"
  by (induction rule: list_all2_induct) auto

lemma same_token_hashes:
  "list_all2 same_token ts ts' \<Longrightarrow> token_hashes E ts' = token_hashes E ts"
  unfolding token_hashes_def by (erule list_all2_map_eq) (rule same_token_hash)

lemma same_token_ids:
  "list_all2 same_token ts ts' \<Longrightarrow> map (StableTokenID E) ts' = map (StableTokenID E) ts"
  by (erule list_all2_map_eq) (rule same_token_id)

lemma unambiguous_same:
  "list_all2 same_token ts ts' \<Longrightarrow> unambiguous E (base @ ts') = unambiguous E (base @ ts)"
  by (simp add: unambiguous_def token_hashes_def [of E "base @ xs" for xs] same_token_ids
      same_token_hashes [unfolded token_hashes_def])

lemma tokens_ok_same:
  assumes "tokens_ok E base s" and "same_state s s'"
  shows "tokens_ok E base s'"
proof -
  note same = same_stateD [OF assms(2)]
  have "token_hashes E (cs_AddedTokens s') = token_hashes E (cs_AddedTokens s)"
    using same(3) by (rule same_token_hashes)
  moreover have "\<forall>t' \<in> set (cs_AddedTokens s'). added_ok t'"
  proof
    fix t' assume "t' \<in> set (cs_AddedTokens s')"
    then obtain t where "t \<in> set (cs_AddedTokens s)" "same_token t t'"
      using list_all2_right [OF same(3)] by blast
    then show "added_ok t'"
      using assms(1) by (auto simp: tokens_ok_def added_ok_def same_token_def)
  qed
  ultimately show ?thesis
    using assms(1) same(4,5) by (simp add: tokens_ok_def)
qed

lemma gomap_ok_length: "gomap_ok m \<Longrightarrow> length m = card (dom (map_of m))"
  by (simp add: gomap_ok_def dom_map_of_conv_image_fst distinct_card flip: set_map) 

lemma client_dom:
  assumes "same_state s s'"
  shows "dom (map_of (cs_Clients s')) = dom (map_of (cs_Clients s))"
proof -
  have "map_of (cs_Clients s') k = None \<longleftrightarrow> map_of (cs_Clients s) k = None" for k
    using same_stateD(9) [OF assms, of k] by (auto elim: option.rel_cases)
  then show ?thesis by (auto simp: dom_def)
qed

lemma devices_ok_same:
  assumes "devices_ok E s" and "same_state s s'"
  shows "devices_ok E s'"
proof -
  note same = same_stateD [OF assms(2)]
  have d: "gomap_ok (cs_Clients s)" "gomap_ok (cs_BlockedDevices s)" "length (cs_Clients s) \<le> maxTrackedClients"
    "\<And>k v. (k, v) \<in> set (cs_Clients s) \<Longrightarrow> client_ok k v"
    "\<And>k v. (k, v) \<in> set (cs_BlockedDevices s) \<Longrightarrow> mhas (cs_Clients s) k \<and> rfc_text E v"
    using assms(1) by (auto simp: devices_ok_def clients_ok_def blocked_ok_def)
  have "client_ok k v'" if "(k, v') \<in> set (cs_Clients s')" for k v'
  proof -
    have "map_of (cs_Clients s') k = Some v'" using that same(6) by (simp add: gomap_ok_map_of)
    then obtain v where "map_of (cs_Clients s) k = Some v" "same_client v v'"
      using same(9) [of k] by (auto elim: option.rel_cases)
    then show ?thesis
      using d(4) [of k v] by (auto simp: client_ok_def same_client_def dest: map_of_SomeD)
  qed
  moreover have "mhas (cs_Clients s') k \<and> rfc_text E at" if "(k, at) \<in> set (cs_BlockedDevices s')" for k at
    using that d(5) [of k at] client_dom [OF assms(2)]
    by (auto simp: gomap_ok_map_of [OF same(7)] gomap_ok_map_of [OF d(2)] same(8) mhas_iff_map_of)
  moreover have "length (cs_Clients s') = length (cs_Clients s)"
    by (simp add: gomap_ok_length d(1) same(6) client_dom [OF assms(2)])
  ultimately show ?thesis
    using d(3) same(6,7) by (auto simp: devices_ok_def clients_ok_def blocked_ok_def)
qed

lemma state_ok_same: "state_ok E cfg s \<Longrightarrow> same_state s s' \<Longrightarrow> state_ok E cfg s'"
  unfolding state_ok_def by (metis same_stateD(1,2) tokens_ok_same devices_ok_same)

section \<open>A well-formed state is structural\<close>

lemma client_ok_ascii:
  "client_ok k v \<Longrightarrow> list_all is_ascii k \<and> list_all is_ascii (tc_Key v) \<and> list_all is_ascii (tc_TokenID v)
     \<and> list_all is_ascii (tc_DeviceID v)"
  by (auto simp: client_ok_def is_ascii_def dest!: cp_ident_ascii)

lemma devices_structural:
  assumes "devices_ok E s"
  shows "gomap_ok (cs_Clients s) \<and> gomap_ok (cs_BlockedDevices s)"
    and "(k, v) \<in> set (cs_Clients s) \<Longrightarrow> list_all is_ascii k \<and> list_all is_ascii (tc_Key v)
          \<and> list_all is_ascii (tc_TokenID v) \<and> list_all is_ascii (tc_DeviceID v)"
    and "(k, at) \<in> set (cs_BlockedDevices s) \<Longrightarrow> list_all is_ascii k \<and> list_all is_ascii at"
proof -
  show "gomap_ok (cs_Clients s) \<and> gomap_ok (cs_BlockedDevices s)"
    using assms by (simp add: devices_ok_def clients_ok_def blocked_ok_def)
  show c: "list_all is_ascii k \<and> list_all is_ascii (tc_Key v)
          \<and> list_all is_ascii (tc_TokenID v) \<and> list_all is_ascii (tc_DeviceID v)"
    if "(k, v) \<in> set (cs_Clients s)" for k v
    using assms that by (intro client_ok_ascii) (auto simp: devices_ok_def clients_ok_def)
  show "list_all is_ascii k \<and> list_all is_ascii at" if "(k, at) \<in> set (cs_BlockedDevices s)"
  proof -
    have "mhas (cs_Clients s) k" "rfc_text E at"
      using assms that by (auto simp: devices_ok_def blocked_ok_def)
    then show ?thesis using c by (auto simp: mhas_def rfc_text_def)
  qed
qed

lemma tokens_structural:
  assumes "tokens_ok E base s"
  shows "\<forall>t \<in> set (cs_AddedTokens s). list_all is_ascii (tk_ID t) \<and> list_all is_ascii (tk_Hash t)"
    and "\<forall>h \<in> set (cs_RevokedHashes s). list_all is_ascii h"
    and "\<forall>d \<in> set (cs_DeletedTokenIDs s). list_all is_ascii d"
  using assms by (simp_all add: tokens_ok_def added_ok_def plain_ident_ascii canonical_ascii)

lemma state_ok_structural:
  assumes "state_ok E cfg s"
  shows "structural s"
proof -
  have "tokens_ok E (cf_Tokens cfg) s" "devices_ok E s" "list_all is_ascii (cs_InstanceID s)"
    using assms by (simp_all add: state_ok_def instance_ok_def plain_all_ascii)
  then show ?thesis
    unfolding structural_def using tokens_structural [of E "cf_Tokens cfg" s] devices_structural [of E s]
    by (simp add: split_def) (metis (no_types, lifting) prod.collapse)
qed

section \<open>Loading\<close>

lemma load_token_ok:
  assumes "added_ok t"
  shows "tk_ID t \<noteq> [] \<and> StableTokenID E t = tk_ID t
    \<and> constantHashEqual E (tk_Hash t) (normalizeHash E (tk_Hash t))"
  using assms by (auto simp: added_ok_def StableTokenID_explicit plain_ident_def constantHashEqual_canonical)

lemma plain_ident_sanitize: "plain_ident s \<Longrightarrow> sanitizeIdentifier s 96 = s \<and> s \<noteq> []"
  using plain_ident_cp_ident [of s] by (simp add: plain_ident_def)

lemma load_hash_ok:
  assumes "canonical_hash h"
  shows "normalizeHash E h \<noteq> [] \<and> constantHashEqual E h (normalizeHash E h)"
  using assms by (auto simp: constantHashEqual_canonical canonical_hash_def)

lemma load_blocked_key_ok:
  assumes "clients_ok (cs_Clients s)" and "mhas (cs_Clients s) k"
  shows "\<not> load_blocked_key_bad s k"
  using assms
  by (auto simp: load_blocked_key_bad_def mhas_iff_map_of clients_ok_def client_ok_def dest!: map_of_SomeD
      split: option.splits)

text \<open>Distinct tokens are few enough: the creation limit counts their hashes.\<close>

lemma unambiguous_length:
  assumes "tokens_ok E base s" and "unambiguous E (base @ cs_AddedTokens s)"
  shows "length (cs_AddedTokens s) \<le> 1024"
proof -
  let ?a = "token_hashes E (cs_AddedTokens s)"
  have "distinct ?a" "set ?a - set (token_hashes E base) = set ?a"
    using assms(2) by (auto simp: unambiguous_def token_hashes_def)
  then show ?thesis using assms(1) distinct_card [of ?a] by (simp add: tokens_ok_def token_hashes_def)
qed

lemma load_checks_state_ok:
  assumes "state_ok E cfg s" and "unambiguous E (cf_Tokens cfg @ cs_AddedTokens s)"
  shows "load_checks E False s = None"
proof -
  have t: "tokens_ok E (cf_Tokens cfg) s" and d: "devices_ok E s"
    using assms by (simp_all add: state_ok_def)
  have blocked: "length (cs_BlockedDevices s) \<le> maxTrackedClients"
  proof -
    have g: "gomap_ok (cs_BlockedDevices s)" "gomap_ok (cs_Clients s)"
      using d by (simp_all add: devices_ok_def blocked_ok_def clients_ok_def)
    have "dom (map_of (cs_BlockedDevices s)) \<subseteq> dom (map_of (cs_Clients s))"
      using d by (fastforce simp: devices_ok_def blocked_ok_def mhas_iff_map_of dest: map_of_SomeD)
    then have "card (dom (map_of (cs_BlockedDevices s))) \<le> card (dom (map_of (cs_Clients s)))"
      by (intro card_mono) (simp_all add: finite_dom_map_of)
    then show ?thesis using d g by (simp add: gomap_ok_length devices_ok_def)
  qed
  have "\<not> load_tokens_bad E s" "\<not> load_revoked_bad E s"
    using t load_token_ok load_hash_ok
    by (auto simp: tokens_ok_def load_tokens_bad_def load_revoked_bad_def list_ex_iff)
  moreover have "\<not> load_deleted_bad s"
    using t plain_ident_sanitize by (auto simp: tokens_ok_def load_deleted_bad_def list_ex_iff)
  moreover have "\<not> list_ex (\<lambda>(key, client). load_client_bad key client) (cs_Clients s)"
    using d by (auto simp: list_ex_iff load_client_bad_def devices_ok_def clients_ok_def client_ok_def cp_ident_def)
  moreover have "\<not> load_blocked_key_bad s k" "ge_rfc3339 E at \<noteq> None"
    if "(k, at) \<in> set (cs_BlockedDevices s)" for k at
    using d that load_blocked_key_ok by (auto simp: devices_ok_def blocked_ok_def rfc_text_def)
  ultimately have "first_error (concat (map (\<lambda>(key, blockedAt).
          [check (load_blocked_key_bad s key) ''control state contains an invalid blocked device'',
           check (ge_rfc3339 E blockedAt = None) ''control state contains an invalid blocked timestamp''])
          (cs_BlockedDevices s))) = None"
    "\<not> load_tokens_bad E s" "\<not> load_revoked_bad E s" "\<not> load_deleted_bad s"
    "\<not> list_ex (\<lambda>(key, client). load_client_bad key client) (cs_Clients s)"
    by (simp_all only: first_error_None set_concat set_map) fastforce+
  moreover have "length (cs_AddedTokens s) \<le> 1024" "length (cs_RevokedHashes s) \<le> 2048"
    "length (cs_DeletedTokenIDs s) \<le> 2048" "length (cs_Clients s) \<le> maxTrackedClients"
    "ValidInstanceID (cs_InstanceID s)" "cs_Version s = controlStateVersion"
    using assms(1) t d unambiguous_length [OF t assms(2)]
    by (simp_all add: state_ok_def instance_ok_def tokens_ok_def devices_ok_def)
  ultimately show ?thesis
    using blocked unfolding load_checks_def by (simp add: not_less)
qed

lemma validateState_loop_None:
  "validateState_loop E ids hs ts = None \<longleftrightarrow>
     distinct (map (StableTokenID E) ts) \<and> distinct (map (\<lambda>t. normalizeHash E (tk_Hash t)) ts)
     \<and> (\<forall>t \<in> set ts. StableTokenID E t \<notin> set ids \<and> normalizeHash E (tk_Hash t) \<notin> set hs)"
  by (induction ts arbitrary: ids hs) (auto 4 4 simp: Let_def image_iff dest: sym)

lemma state_ok_validates:
  assumes "cp_baseTokens c = cf_Tokens cfg"
  shows "validateStateAgainstConfig E c = None \<longleftrightarrow> unambiguous E (cf_Tokens cfg @ cs_AddedTokens (cp_state c))"
  unfolding validateStateAgainstConfig_def validateState_loop_None unambiguous_def token_hashes_def assms by auto

section \<open>Restarting\<close>

text \<open>The configurations under which the owner API and its state file are in use.\<close>

definition owner_config :: "goenv \<Rightarrow> Config \<Rightarrow> bool" where
  "owner_config E cfg \<longleftrightarrow>
     ac_Tokens (cf_Admin cfg) \<noteq> [] \<and> trimSpace (ac_StatePath (cf_Admin cfg)) \<noteq> []
     \<and> (trimSpace (cf_InstanceID cfg) \<noteq> [] \<longrightarrow> ValidInstanceID (trimSpace (cf_InstanceID cfg))
          \<and> list_all plain_char (trimSpace (cf_InstanceID cfg)))
     \<and> (\<forall>t \<in> set (cf_Tokens cfg). canonical_hash (normalizeHash E (tk_Hash t)))
     \<and> distinct (map (\<lambda>t. normalizeHash E (tk_Hash t)) (cf_Tokens cfg))
     \<and> distinct (map (StableTokenID E) (cf_Tokens cfg))"

lemma ValidInstanceID_nonempty: "ValidInstanceID s \<Longrightarrow> s \<noteq> []"
  by (auto simp: ValidInstanceID_def hasPrefix_def)

lemma finishControlPlane_state:
  assumes "instance_ok (trimSpace (cf_InstanceID cfg)) (cs_InstanceID (cp_state c))"
  shows "\<exists>res. finishControlPlane cfg raw c = Inr (c\<lparr>cp_resolver := res\<rparr>)"
proof -
  let ?i = "trimSpace (cf_InstanceID cfg)"
  have n: "cs_InstanceID (cp_state c) \<noteq> []"
    using assms ValidInstanceID_nonempty by (auto simp: instance_ok_def)
  have i: "?i = [] \<or> cs_InstanceID (cp_state c) = ?i"
    using assms by (auto simp: instance_ok_def)
  have "c\<lparr>cp_state := (cp_state c)\<lparr>cs_InstanceID := cs_InstanceID (cp_state c)\<rparr>\<rparr> = c"
    "c\<lparr>cp_resolver := cp_resolver c\<rparr> = c" by simp_all
  then have "finishControlPlane cfg raw c =
      Inr (c\<lparr>cp_resolver := (if trimSpace (ac_GeoIPURL (cf_Admin cfg)) \<noteq> []
        then Some (trimSpace (ac_GeoIPURL (cf_Admin cfg))) else cp_resolver c)\<rparr>)"
    unfolding finishControlPlane_def Let_def using n i by (cases "?i = []") (simp_all add: if_distrib)
  then show ?thesis by blast
qed

lemma load_written:
  assumes "codec_ok C" and "state_ok (ce_go C) cfg s" and "ce_marshalState C s = Some d"
    and "length d \<le> 8 * 1024 * 1024" and "unambiguous (ce_go C) (cf_Tokens cfg @ cs_AddedTokens s)"
  shows "\<exists>s'. same_state s s' \<and> state_ok (ce_go C) cfg s' \<and> load C st (FileData d) = Inr s'"
proof -
  obtain s' where s': "ce_decodeState C d = Some (s', False, True)" "same_state s s'"
    using assms state_ok_structural unfolding codec_ok_def by blast
  then have ok: "state_ok (ce_go C) cfg s'" using assms(2) by (blast intro: state_ok_same)
  moreover have "s'\<lparr>cs_Version := controlStateVersion\<rparr> = s'"
    using ok by (simp add: state_ok_def)
  moreover have "unambiguous (ce_go C) (cf_Tokens cfg @ cs_AddedTokens s')"
    using unambiguous_same [OF same_stateD(3) [OF s'(2)]] assms(5) by simp
  ultimately show ?thesis
    using s' assms(4) load_checks_state_ok [OF ok] by (auto simp: load_def)
qed

lemma restart_accepts:
  assumes "codec_ok C" and "state_ok (ce_go C) cfg s" and "ce_marshalState C s = Some d"
    and "length d \<le> 8 * 1024 * 1024" and "owner_config (ce_go C) cfg"
    and "unambiguous (ce_go C) (cf_Tokens cfg @ cs_AddedTokens s)"
  shows "\<exists>s' res. newControlPlane C cfg (FileData d) raw =
      Inr ((freshControlPlane cfg)\<lparr>cp_state := s', cp_resolver := res\<rparr>)
    \<and> same_state s s' \<and> state_ok (ce_go C) cfg s'"
proof -
  let ?c = "freshControlPlane cfg"
  obtain s' where s': "same_state s s'" "state_ok (ce_go C) cfg s'"
    "load C (cp_state ?c) (FileData d) = Inr s'"
    using load_written [OF assms(1-4,6)] by blast
  have "cp_enabled ?c" "cp_statePath ?c \<noteq> []"
    using assms(5) by (simp_all add: cp_enabled_def freshControlPlane_def owner_config_def)
  moreover have "validateStateAgainstConfig (ce_go C) (?c\<lparr>cp_state := s'\<rparr>) = None"
    using state_ok_validates [of "?c\<lparr>cp_state := s'\<rparr>" cfg] unambiguous_same [OF same_stateD(3) [OF s'(1)]] assms(6)
    by (simp add: freshControlPlane_def)
  ultimately have "newControlPlane C cfg (FileData d) raw = finishControlPlane cfg raw (?c\<lparr>cp_state := s'\<rparr>)"
    using s'(3) by (simp add: newControlPlane_def)
  moreover have "instance_ok (trimSpace (cf_InstanceID cfg)) (cs_InstanceID (cp_state (?c\<lparr>cp_state := s'\<rparr>)))"
    using s'(2) by (simp add: state_ok_def)
  ultimately show ?thesis
    using finishControlPlane_state [of cfg "?c\<lparr>cp_state := s'\<rparr>" raw] s' by auto
qed

text \<open>Whatever starts on a written state has read it and found it unambiguous.\<close>

lemma finishControlPlane_tokens:
  "finishControlPlane cfg raw c = Inr c' \<Longrightarrow> cs_AddedTokens (cp_state c') = cs_AddedTokens (cp_state c)"
  by (auto simp: finishControlPlane_def Let_def split: if_splits option.splits)

lemma restart_unambiguous:
  assumes "codec_ok C" and "structural s" and "ce_marshalState C s = Some d" and "owner_config (ce_go C) cfg"
    and "newControlPlane C cfg (FileData d) raw = Inr c'"
  shows "unambiguous (ce_go C) (cf_Tokens cfg @ cs_AddedTokens s)"
proof -
  let ?c = "freshControlPlane cfg"
  obtain x where x: "ce_decodeState C d = Some (x, False, True)" "same_state s x"
    using assms(1-3) unfolding codec_ok_def by blast
  have en: "cp_enabled ?c \<and> cp_statePath ?c \<noteq> []"
    using assms(4) by (simp add: cp_enabled_def freshControlPlane_def owner_config_def)
  obtain st where l: "load C (cp_state ?c) (FileData d) = Inr st"
    and v: "validateStateAgainstConfig (ce_go C) (?c\<lparr>cp_state := st\<rparr>) = None"
    using assms(5) en by (auto simp: newControlPlane_def Let_def split: sum.splits option.splits)
  have "cs_AddedTokens st = cs_AddedTokens x"
    using l x(1) by (auto simp: load_def split: if_splits option.splits)
  moreover have "unambiguous (ce_go C) (cf_Tokens cfg @ cs_AddedTokens st)"
    using v state_ok_validates [of "?c\<lparr>cp_state := st\<rparr>" cfg] by (simp add: freshControlPlane_def)
  ultimately show ?thesis using unambiguous_same [OF same_stateD(3) [OF x(2)]] by simp
qed

end
