(* ===== verification/Control_Devices.thy ===== *)
theory Control_Devices
  imports Control_Restart
begin

text \<open>
  The device part of the owner state: every operation on clients and blocked devices keeps
  \<open>devices_ok\<close>, and registration never exceeds the client limit.
\<close>

text \<open>Documented behaviour of \<open>time.Parse\<close>: the empty string is no time.\<close>

definition times_ok :: "goenv \<Rightarrow> bool" where
  "times_ok E \<longleftrightarrow> ge_rfc3339 E [] = None"

section \<open>Maps of clients and blocks\<close>

lemma clients_okI:
  "gomap_ok m \<Longrightarrow> (\<And>k v. (k, v) \<in> set m \<Longrightarrow> client_ok k v) \<Longrightarrow> clients_ok m"
  by (auto simp: clients_ok_def)

lemma clients_okD:
  assumes "clients_ok m"
  shows "gomap_ok m" and "(k, v) \<in> set m \<Longrightarrow> client_ok k v" and "map_of m k = Some v \<Longrightarrow> client_ok k v"
  using assms by (auto simp: clients_ok_def dest: map_of_SomeD)

lemma clients_ok_filter [intro]: "clients_ok m \<Longrightarrow> clients_ok (filter P m)"
  by (auto simp: clients_ok_def)

lemma clients_ok_update [intro]: "clients_ok m \<Longrightarrow> client_ok k v \<Longrightarrow> clients_ok (mset_key k v m)"
  by (rule clients_okI) (auto dest!: set_mset_keyD dest: clients_okD)

lemma clients_ok_delete [intro]: "clients_ok m \<Longrightarrow> clients_ok (mdel k m)"
  by (rule clients_okI) (auto dest: clients_okD)

lemma blocked_okI:
  assumes "gomap_ok b" and "\<And>k at. map_of b k = Some at \<Longrightarrow> mhas m k \<and> rfc_text E at"
  shows "blocked_ok E m b"
  using assms by (auto simp: blocked_ok_def gomap_ok_map_of)

lemma blocked_okD:
  assumes "blocked_ok E m b"
  shows "gomap_ok b" and "map_of b k = Some at \<Longrightarrow> mhas m k" and "map_of b k = Some at \<Longrightarrow> rfc_text E at"
  using assms by (auto simp: blocked_ok_def dest!: map_of_SomeD)

text \<open>A blocked device has a time, so reading the empty string means that it is not blocked.\<close>

lemma blocked_nonempty:
  assumes "times_ok E" and "blocked_ok E m b"
  shows "mget [] b k = [] \<longleftrightarrow> map_of b k = None"
  using assms blocked_okD(3) [OF assms(2), of k]
  by (auto simp: mget_def rfc_text_def times_ok_def split: option.splits)

lemma devices_okI:
  assumes "clients_ok (cs_Clients s)" and "blocked_ok E (cs_Clients s) (cs_BlockedDevices s)"
    and "length (cs_Clients s) \<le> maxTrackedClients"
  shows "devices_ok E s"
  using assms by (simp add: devices_ok_def)

lemma devices_okD:
  assumes "devices_ok E s"
  shows "clients_ok (cs_Clients s)" and "blocked_ok E (cs_Clients s) (cs_BlockedDevices s)"
    and "length (cs_Clients s) \<le> maxTrackedClients"
  using assms by (simp_all add: devices_ok_def)

section \<open>Token deletion and blocking\<close>

lemma devices_ok_removeTokenClients:
  assumes "times_ok E" and "devices_ok E s"
  shows "devices_ok E (removeTokenClients tokenID s)"
proof (rule devices_okI)
  let ?m = "cs_Clients s" and ?b = "cs_BlockedDevices s"
  let ?s = "removeTokenClients tokenID s"
  let ?gone = "set (map fst (filter (\<lambda>(k, client). tc_TokenID client = tokenID) ?m))"
  note m = devices_okD(1) [OF assms(2)] and b = devices_okD(2) [OF assms(2)]
  show "clients_ok (cs_Clients ?s)"
    using m by (auto simp: removeTokenClients_def Let_def)
  show "length (cs_Clients ?s) \<le> maxTrackedClients"
    using le_trans [OF length_filter_le devices_okD(3) [OF assms(2)]]
    by (simp add: removeTokenClients_def Let_def)
  show "blocked_ok E (cs_Clients ?s) (cs_BlockedDevices ?s)"
  proof (rule blocked_okI)
    show "gomap_ok (cs_BlockedDevices ?s)"
      using blocked_okD(1) [OF b] by (simp add: removeTokenClients_def Let_def)
    fix k at assume "map_of (cs_BlockedDevices ?s) k = Some at"
    then have *: "map_of ?b k = Some at" "\<not> (k \<in> ?gone \<and> mget [] ?b k \<noteq> [])"
      by (auto simp: removeTokenClients_def Let_def map_of_filter_key split: if_splits)
    then have "k \<notin> ?gone" using blocked_nonempty [OF assms(1) b, of k] by auto
    moreover have "mhas ?m k" using blocked_okD(2) [OF b *(1)] .
    ultimately have "mhas (cs_Clients ?s) k"
      by (force simp: mhas_def removeTokenClients_def Let_def)
    then show "mhas (cs_Clients ?s) k \<and> rfc_text E at"
      using blocked_okD(3) [OF b *(1)] by simp
  qed
qed

lemma blocked_ok_set:
  assumes "blocked_ok E m b" and "mhas m k" and "rfc_text E at"
  shows "blocked_ok E m (mset_key k at b)"
  using assms by (intro blocked_okI) (auto dest: blocked_okD split: if_splits)

lemma blocked_ok_del: "blocked_ok E m b \<Longrightarrow> blocked_ok E m (mdel k b)"
  by (intro blocked_okI) (auto dest: blocked_okD split: if_splits)

lemma blocked_ok_mono:
  assumes "blocked_ok E m b" and "\<And>k. mhas m k \<Longrightarrow> mhas m' k"
  shows "blocked_ok E m' b"
  using assms by (intro blocked_okI) (auto dest: blocked_okD)

section \<open>Pruning\<close>

lemma prune_order_keys:
  assumes "gomap_ok (cs_Clients (cp_state c))"
  shows "distinct (prune_order c)" and "set (prune_order c) = set (map fst (cs_Clients (cp_state c)))"
    and "length (prune_order c) = length (cs_Clients (cp_state c))"
proof -
  let ?items = "map (\<lambda>(key, client). (key, tc_LastSeen client)) (cs_Clients (cp_state c))"
  let ?P = "\<lambda>(key, lastSeen). key \<notin> set (active_client_keys c)"
  have keys: "map fst ?items = map fst (cs_Clients (cp_state c))" by (simp add: split_def)
  have not: "(\<lambda>x. \<not> ?P x) = (\<lambda>(key, lastSeen). key \<in> set (active_client_keys c))"
    by auto
  have order: "prune_order c = map fst (sort_key snd (filter ?P ?items) @ sort_key snd (filter (\<lambda>x. \<not> ?P x) ?items))"
    unfolding prune_order_def Let_def not by simp
  have "mset (prune_order c) = image_mset fst (mset ?items)"
    unfolding order by (simp flip: image_mset_union multiset_partition)
  also have "\<dots> = mset (map fst (cs_Clients (cp_state c)))"
    by (simp only: mset_map [symmetric] keys)
  finally have *: "mset (prune_order c) = mset (map fst (cs_Clients (cp_state c)))" .
  show "distinct (prune_order c)"
    using assms mset_eq_imp_distinct_iff [OF *] by (simp add: gomap_ok_def)
  show "set (prune_order c) = set (map fst (cs_Clients (cp_state c)))"
    using * by (rule mset_eq_setD)
  show "length (prune_order c) = length (cs_Clients (cp_state c))"
    using mset_eq_length [OF *] by simp
qed

lemma length_filter_keys:
  assumes "gomap_ok m" and "K \<subseteq> set (map fst m)"
  shows "length (filter (\<lambda>(k, v). k \<notin> K) m) = length m - card K"
proof -
  let ?f = "filter (\<lambda>(k, v). k \<notin> K) m"
  have "length ?f = card (set (map fst ?f))"
    using gomap_ok_filter [OF assms(1)] distinct_card unfolding gomap_ok_def by (metis length_map)
  also have "set (map fst ?f) = set (map fst m) - K" by force
  also have "card (set (map fst m) - K) = card (set (map fst m)) - card K"
    using assms(2) by (meson card_Diff_subset finite_set finite_subset)
  also have "card (set (map fst m)) = length m"
    using assms(1) distinct_card unfolding gomap_ok_def by (metis length_map)
  finally show ?thesis .
qed

lemma prune_devices:
  assumes "devices_ok E (cp_state c)"
  shows "devices_ok E (cp_state (pruneClients c))"
    and "length (cs_Clients (cp_state (pruneClients c))) < maxTrackedClients"
proof -
  let ?m = "cs_Clients (cp_state c)" and ?b = "cs_BlockedDevices (cp_state c)"
  let ?gone = "take (length ?m - maxTrackedClients + 1) (prune_order c)"
  note m = devices_okD(1) [OF assms] and b = devices_okD(2) [OF assms]
  note order = prune_order_keys [OF clients_okD(1) [OF m]]
  have "length (filter (\<lambda>(k, v). k \<notin> set ?gone) ?m) < maxTrackedClients" if "maxTrackedClients \<le> length ?m"
  proof -
    have "card (set ?gone) = length ?m - maxTrackedClients + 1"
      using order that by (subst distinct_card) (auto simp: maxTrackedClients_def)
    moreover have "set ?gone \<subseteq> set (map fst ?m)"
      using order(2) by (auto dest: in_set_takeD)
    ultimately show ?thesis
      using length_filter_keys [OF clients_okD(1) [OF m]] that by (simp add: maxTrackedClients_def)
  qed
  then show len: "length (cs_Clients (cp_state (pruneClients c))) < maxTrackedClients"
    by (auto simp: pruneClients_def Let_def)
  have "blocked_ok E (filter (\<lambda>(k, v). k \<notin> set ?gone) ?m) (filter (\<lambda>(k, v). k \<notin> set ?gone) ?b)"
    using b by (intro blocked_okI) (auto simp: map_of_filter_key mhas_iff_map_of dest: blocked_okD split: if_splits)
  then show "devices_ok E (cp_state (pruneClients c))"
    using assms len m by (auto simp: pruneClients_def Let_def devices_ok_def)
qed

section \<open>Migration and registration\<close>

lemma mergeTrackedClient_keys [simp]:
  "tc_Key (mergeTrackedClient d s) = tc_Key d" "tc_TokenID (mergeTrackedClient d s) = tc_TokenID d"
  "tc_DeviceID (mergeTrackedClient d s) = tc_DeviceID d"
  by (simp_all add: mergeTrackedClient_def)

lemma length_merge:
  assumes "gomap_ok m" and "mhas m old" and "old \<noteq> new"
  shows "length (mdel old (mset_key new v m)) \<le> length m"
proof -
  have g: "gomap_ok (mdel old (mset_key new v m))" using assms(1) by simp
  have o: "old \<in> dom (map_of m)" using assms(2) by (auto simp: mhas_iff_map_of)
  have "card (insert new (dom (map_of m)) - {old}) \<le> card (dom (map_of m))"
    using o by (subst card_Diff_singleton) (auto simp: finite_dom_map_of card_insert_if)
  moreover have "dom (map_of (mdel old (mset_key new v m))) = insert new (dom (map_of m)) - {old}"
    using assms(3) by auto
  ultimately show ?thesis
    using gomap_ok_length [OF g] gomap_ok_length [OF assms(1)] by simp
qed

lemma map_of_mergeBlocked:
  assumes "old \<noteq> new" and "mget [] b old = [] \<longleftrightarrow> map_of b old = None"
  shows "map_of (mergeBlocked old new b) old = None"
    and "map_of (mergeBlocked old new b) k = Some at \<Longrightarrow>
          map_of b k = Some at \<or> (k = new \<and> map_of b old = Some at)"
    and "gomap_ok b \<Longrightarrow> gomap_ok (mergeBlocked old new b)"
    and "map_of b old \<noteq> None \<or> map_of b new \<noteq> None \<Longrightarrow> map_of (mergeBlocked old new b) new \<noteq> None"
  using assms by (auto simp: mergeBlocked_def Let_def mget_def split: if_splits option.splits)

lemma merge_devices:
  assumes "times_ok E" and "devices_ok E (cp_state c)" and "old \<noteq> tokenID @ '':'' @ deviceID"
    and "cp_ident tokenID" and "cp_ident deviceID"
  shows "devices_ok E (cp_state (mergeClientKey c old (tokenID @ '':'' @ deviceID) tokenID deviceID))
    \<and> length (cs_Clients (cp_state (mergeClientKey c old (tokenID @ '':'' @ deviceID) tokenID deviceID)))
        \<le> length (cs_Clients (cp_state c))"
proof (cases "map_of (cs_Clients (cp_state c)) old")
  case None
  then show ?thesis using assms(2) by (simp add: mergeClientKey_def Let_def)
next
  case (Some source)
  define new where "new = tokenID @ '':'' @ deviceID"
  let ?m = "cs_Clients (cp_state c)" and ?b = "cs_BlockedDevices (cp_state c)"
  define d where "d = (case map_of ?m new of
      None \<Rightarrow> source\<lparr>tc_Key := new, tc_TokenID := tokenID, tc_DeviceID := deviceID\<rparr>
    | Some destination \<Rightarrow> mergeTrackedClient destination source)"
  let ?m' = "mdel old (mset_key new d ?m)" and ?b' = "mergeBlocked old new ?b"
  note m = devices_okD(1) [OF assms(2)] and b = devices_okD(2) [OF assms(2)]
  have state: "cp_state (mergeClientKey c old new tokenID deviceID) =
      (cp_state c)\<lparr>cs_Clients := ?m', cs_BlockedDevices := ?b'\<rparr>"
    using Some by (simp add: mergeClientKey_def Let_def d_def)
  have "client_ok new d"
    using assms(4,5) clients_okD(3) [OF m, of new]
    by (auto simp: d_def client_ok_def new_def split: option.splits)
  then have m': "clients_ok ?m'" using m by blast
  have ne: "old \<noteq> new" using assms(3) by (simp add: new_def)
  note mb = map_of_mergeBlocked [OF ne blocked_nonempty [OF assms(1) b]]
  have "mhas ?m' k \<and> rfc_text E at" if "map_of ?b' k = Some at" for k at
    using mb(1) mb(2) [OF that] that blocked_okD(2,3) [OF b] by (auto simp: mhas_iff_map_of)
  then have "blocked_ok E ?m' ?b'"
    using mb(3) blocked_okD(1) [OF b] by (intro blocked_okI) auto
  moreover have "length ?m' \<le> length ?m"
    using clients_okD(1) [OF m] Some ne by (intro length_merge) (simp_all add: mhas_iff_map_of)
  ultimately show ?thesis
    using m' devices_okD(3) [OF assms(2)] unfolding new_def [symmetric] state by (simp add: devices_ok_def)
qed

text \<open>Every part of an identity is an identifier.\<close>

definition identity_ok :: "requestDeviceIdentity \<Rightarrow> bool" where
  "identity_ok i \<longleftrightarrow> cp_ident (ri_tokenID i) \<and> cp_ident (ri_deviceID i) \<and> cp_ident (ri_legacyDeviceID i)
     \<and> (ri_previousDeviceID i \<noteq> [] \<longrightarrow> cp_ident (ri_previousDeviceID i))"

lemma cp_ident_legacy:
  assumes "sha256_ok E"
  shows "cp_ident (''legacy_'' @ hexEncode (take 8 (ge_sha256 E s)))"
proof -
  have "is_lower_hex c" if "c \<in> set (hexEncode (take 8 (ge_sha256 E s)))" for c
    using assms that by (intro set_hexEncode [rotated]) (auto simp: sha256_ok_def dest: in_set_takeD)
  then have "list_all cp_ident_char (hexEncode (take 8 (ge_sha256 E s)))"
    using lower_hex_ident by (fastforce simp: list_all_iff ident_char_def cp_ident_char_def)
  then show ?thesis
    using assms by (simp add: cp_ident_def sha256_ok_def cp_ident_char_def is_alnum_def is_lower_def)
qed

lemma identity_ok_details:
  assumes "sha256_ok E" and "canonical_hash (normalizeHash E (tk_Hash token))"
  shows "identity_ok (sessionIdentityDetails E token r)"
proof -
  have "cp_ident (StableTokenID E token)"
    using StableTokenID_plain_ident [OF assms(2)] by (rule plain_ident_cp_ident)
  then show ?thesis
    using cp_ident_legacy [OF assms(1)] sanitizeIdentifier_cases
    unfolding identity_ok_def sessionIdentityDetails_def Let_def
    by (auto split: option.splits if_splits prod.splits)
qed

lemma migrate_devices:
  assumes "times_ok E" and "devices_ok E (cp_state c)" and "identity_ok i"
  shows "devices_ok E (cp_state (migrateClientIdentity E c i r ip))
    \<and> length (cs_Clients (cp_state (migrateClientIdentity E c i r ip))) \<le> length (cs_Clients (cp_state c))"
proof -
  let ?new = "ri_tokenID i @ '':'' @ ri_deviceID i"
  let ?f = "\<lambda>c old. if old = ?new \<or> \<not> mhas (cs_Clients (cp_state c)) old then c
                  else mergeClientKey c old ?new (ri_tokenID i) (ri_deviceID i)"
  have "devices_ok E (cp_state (foldl ?f c ks))
      \<and> length (cs_Clients (cp_state (foldl ?f c ks))) \<le> length (cs_Clients (cp_state c))" for ks
    using assms(2)
  proof (induction ks arbitrary: c)
    case (Cons old ks)
    have "devices_ok E (cp_state (?f c old)) \<and> length (cs_Clients (cp_state (?f c old))) \<le> length (cs_Clients (cp_state c))"
      using merge_devices [OF assms(1) Cons.prems] assms(3) Cons.prems by (simp add: identity_ok_def)
    then show ?case using Cons.IH [of "?f c old"] by (auto simp del: if_split)
  qed simp
  then show ?thesis unfolding migrateClientIdentity_def Let_def .
qed

end
