(* ===== verification/Control_Steps.thy ===== *)
theory Control_Steps
  imports Control_Devices
begin

text \<open>
  The invariant of the running control plane and its preservation by every operation: the state is
  well formed, the file is the written form of a well-formed state with the same identity, and
  client data that is newer than the file is marked and has a timer armed to write it.
\<close>

section \<open>The invariant\<close>

text \<open>The tokens of the file are those in memory: they are written before an operation answers.\<close>

definition same_tokens :: "controlState \<Rightarrow> controlState \<Rightarrow> bool" where
  "same_tokens s s' \<longleftrightarrow>
     list_all2 same_token (cs_AddedTokens s) (cs_AddedTokens s')
     \<and> cs_RevokedHashes s' = cs_RevokedHashes s \<and> cs_DeletedTokenIDs s' = cs_DeletedTokenIDs s"

definition file_ok :: "controlenv \<Rightarrow> Config \<Rightarrow> controlPlane \<Rightarrow> string option \<Rightarrow> bool" where
  "file_ok C cfg c disk \<longleftrightarrow>
     (case disk of
        None \<Rightarrow> True
      | Some d \<Rightarrow>
          \<exists>s. ce_marshalState C s = Some d \<and> state_ok (ce_go C) cfg s
            \<and> cs_InstanceID s = cs_InstanceID (cp_state c) \<and> same_tokens s (cp_state c)
            \<and> (cp_clientDirty c \<or> same_state s (cp_state c)))"

definition flush_ok :: "controlPlane \<Rightarrow> bool" where
  "flush_ok c \<longleftrightarrow> (cp_clientDirty c \<longrightarrow> cp_clientFlush c \<noteq> None \<or> cp_shuttingDown c)"

definition settings_ok :: "Config \<Rightarrow> controlPlane \<Rightarrow> bool" where
  "settings_ok cfg c \<longleftrightarrow>
     cp_baseTokens c = cf_Tokens cfg \<and> cp_adminTokens c = ac_Tokens (cf_Admin cfg)
     \<and> cp_statePath c = trimSpace (ac_StatePath (cf_Admin cfg))"

definition control_ok :: "controlenv \<Rightarrow> Config \<Rightarrow> controlPlane \<Rightarrow> string option \<Rightarrow> bool" where
  "control_ok C cfg c disk \<longleftrightarrow>
     settings_ok cfg c \<and> state_ok (ce_go C) cfg (cp_state c) \<and> file_ok C cfg c disk \<and> flush_ok c"

lemma control_okI:
  assumes "settings_ok cfg c" and "state_ok (ce_go C) cfg (cp_state c)" and "file_ok C cfg c disk"
    and "flush_ok c"
  shows "control_ok C cfg c disk"
  using assms by (simp add: control_ok_def)

lemma control_okD:
  assumes "control_ok C cfg c disk"
  shows "settings_ok cfg c" and "state_ok (ce_go C) cfg (cp_state c)" and "file_ok C cfg c disk"
    and "flush_ok c" and "cs_Version (cp_state c) = controlStateVersion"
    and "tokens_ok (ce_go C) (cf_Tokens cfg) (cp_state c)" and "devices_ok (ce_go C) (cp_state c)"
  using assms by (simp_all add: control_ok_def state_ok_def)

lemma list_all2_same_refl: "list_all2 same_token ts ts"
  by (rule list_all2_refl) (simp add: same_token_def)

lemma same_client_refl [simp]: "same_client v v"
  by (simp add: same_client_def)

text \<open>States that differ in the order of their maps only.\<close>

definition same_maps :: "controlState \<Rightarrow> controlState \<Rightarrow> bool" where
  "same_maps s s' \<longleftrightarrow>
     cs_Version s' = cs_Version s \<and> cs_InstanceID s' = cs_InstanceID s
     \<and> cs_AddedTokens s' = cs_AddedTokens s \<and> cs_RevokedHashes s' = cs_RevokedHashes s
     \<and> cs_DeletedTokenIDs s' = cs_DeletedTokenIDs s \<and> cs_Clients s' = cs_Clients s
     \<and> map_of (cs_BlockedDevices s') = map_of (cs_BlockedDevices s)
     \<and> (gomap_ok (cs_BlockedDevices s) \<longrightarrow> gomap_ok (cs_BlockedDevices s'))"

lemma same_maps_refl [simp]: "same_maps s s"
  by (simp add: same_maps_def)

lemma same_state_refl: "devices_ok E s \<Longrightarrow> same_state s s"
  using list_all2_same_refl
  by (auto simp: same_state_def devices_ok_def clients_ok_def blocked_ok_def option.rel_refl)

lemma same_state_maps: "same_state s s' \<Longrightarrow> same_maps s' s'' \<Longrightarrow> same_state s s''"
  by (simp add: same_state_def same_maps_def)

lemma same_maps_state: "devices_ok E s \<Longrightarrow> same_maps s s' \<Longrightarrow> same_state s s'"
  by (rule same_state_maps [OF same_state_refl])

lemma same_tokens_refl [simp]: "same_tokens s s"
  by (simp add: same_tokens_def list_all2_same_refl)

lemma same_tokens_unambiguous:
  "same_tokens s s' \<Longrightarrow> unambiguous E (base @ cs_AddedTokens s') = unambiguous E (base @ cs_AddedTokens s)"
  by (rule unambiguous_same) (simp add: same_tokens_def)

lemma same_tokens_state: "same_state s s' \<Longrightarrow> same_tokens s s'"
  by (simp add: same_state_def same_tokens_def)

section \<open>Writing\<close>

lemma writeStateFile_disk:
  assumes "writeStateFile io disk data = (disk', fl)"
  shows "(fl \<longrightarrow> disk' = disk \<or> io_windows io \<and> disk' = None) \<and> (\<not> fl \<longrightarrow> disk' = Some data)"
  using assms by (auto simp: writeStateFile_def Let_def split: if_splits)

lemma persistLocked_effect:
  assumes "persistLocked C c disk io = (c', disk', fl)"
    and "cs_Version (cp_state c) = controlStateVersion" and "cp_statePath c \<noteq> []"
  shows "c' = c" and "fl \<Longrightarrow> disk' = disk \<or> io_windows io \<and> disk' = None"
    and "\<not> fl \<Longrightarrow> \<exists>d. ce_marshalState C (cp_state c) = Some d \<and> disk' = Some d"
proof -
  have same: "c\<lparr>cp_state := (cp_state c)\<lparr>cs_Version := controlStateVersion\<rparr>\<rparr> = c"
    using assms(2) by (metis (no_types, lifting) controlPlane.surjective controlPlane.update_convs(4)
        controlState.surjective controlState.update_convs(1))
  then show "c' = c" "fl \<Longrightarrow> disk' = disk \<or> io_windows io \<and> disk' = None"
    "\<not> fl \<Longrightarrow> \<exists>d. ce_marshalState C (cp_state c) = Some d \<and> disk' = Some d"
    using assms(1,3) by (auto dest!: writeStateFile_disk simp: persistLocked_def same Let_def split: option.splits prod.splits)
qed

lemma persistCritical_effect:
  assumes "persistCriticalLocked C c disk io = (c', disk', fl)"
    and "cs_Version (cp_state c) = controlStateVersion" and "cp_statePath c \<noteq> []"
  shows "fl \<Longrightarrow> c' = c \<and> (disk' = disk \<or> io_windows io \<and> disk' = None)"
    and "\<not> fl \<Longrightarrow> c' = c\<lparr>cp_clientDirty := False, cp_clientFlush := None\<rparr>
           \<and> (\<exists>d. ce_marshalState C (cp_state c) = Some d \<and> disk' = Some d)"
proof -
  obtain c1 d1 f where p: "persistLocked C c disk io = (c1, d1, f)" by (metis prod_cases3)
  show "fl \<Longrightarrow> c' = c \<and> (disk' = disk \<or> io_windows io \<and> disk' = None)"
    "\<not> fl \<Longrightarrow> c' = c\<lparr>cp_clientDirty := False, cp_clientFlush := None\<rparr>
           \<and> (\<exists>d. ce_marshalState C (cp_state c) = Some d \<and> disk' = Some d)"
    using assms(1) p persistLocked_effect [OF p assms(2,3)]
    by (auto simp: persistCriticalLocked_def split: bool.splits)
qed

lemma file_ok_older: "file_ok C cfg c disk \<Longrightarrow> disk' = disk \<or> disk' = None \<Longrightarrow> file_ok C cfg c disk'"
  by (auto simp: file_ok_def)

lemma file_ok_same:
  assumes "file_ok C cfg c disk" and "same_maps (cp_state c) (cp_state c')"
    and "cp_clientDirty c' = cp_clientDirty c"
  shows "file_ok C cfg c' disk"
proof (cases disk)
  case (Some d)
  obtain s where s: "ce_marshalState C s = Some d" "state_ok (ce_go C) cfg s"
    "cs_InstanceID s = cs_InstanceID (cp_state c)" "same_tokens s (cp_state c)"
    "cp_clientDirty c \<or> same_state s (cp_state c)"
    using assms(1) Some by (auto simp: file_ok_def)
  have "same_tokens s (cp_state c')" "cs_InstanceID s = cs_InstanceID (cp_state c')"
    using s(3,4) assms(2) by (simp_all add: same_tokens_def same_maps_def)
  moreover have "cp_clientDirty c' \<or> same_state s (cp_state c')"
    using s(5) assms(2,3) same_state_maps by auto
  ultimately show ?thesis using s(1,2) Some by (auto simp: file_ok_def)
qed (simp add: file_ok_def)

lemma file_ok_dirty:
  assumes "file_ok C cfg c disk" and "cs_InstanceID (cp_state c') = cs_InstanceID (cp_state c)"
    and "cs_AddedTokens (cp_state c') = cs_AddedTokens (cp_state c)"
    and "cs_RevokedHashes (cp_state c') = cs_RevokedHashes (cp_state c)"
    and "cs_DeletedTokenIDs (cp_state c') = cs_DeletedTokenIDs (cp_state c)"
    and "cp_clientDirty c'"
  shows "file_ok C cfg c' disk"
  using assms by (auto simp: file_ok_def same_tokens_def split: option.splits)

lemma file_ok_written:
  assumes "state_ok (ce_go C) cfg (cp_state c)" and "ce_marshalState C (cp_state c) = Some d"
    and "cp_state c' = cp_state c"
  shows "file_ok C cfg c' (Some d)"
  using assms same_state_refl [of "ce_go C" "cp_state c"] by (auto simp: file_ok_def state_ok_def)

text \<open>
  The shape shared by the owner's mutations: change the state, write it, and put it back when the
  write failed.
\<close>

lemma critical_mutation:
  assumes ok: "control_ok C cfg c disk" and path: "cp_statePath c \<noteq> []"
    and new: "state_ok (ce_go C) cfg s"
    and p: "persistCriticalLocked C (c\<lparr>cp_state := s\<rparr>) disk io = (c', disk', fl)"
  shows "fl \<Longrightarrow> same_maps (cp_state c) s' \<Longrightarrow> state_ok (ce_go C) cfg s' \<Longrightarrow>
           control_ok C cfg (c'\<lparr>cp_state := s'\<rparr>) disk'"
    and "fl \<Longrightarrow> c' = c\<lparr>cp_state := s\<rparr> \<and> (disk' = disk \<or> io_windows io \<and> disk' = None)"
    and "\<not> fl \<Longrightarrow> control_ok C cfg c' disk'"
    and "\<not> fl \<Longrightarrow> c' = c\<lparr>cp_state := s, cp_clientDirty := False, cp_clientFlush := None\<rparr>
           \<and> (\<exists>d. ce_marshalState C s = Some d \<and> disk' = Some d)"
proof -
  have v: "cs_Version (cp_state (c\<lparr>cp_state := s\<rparr>)) = controlStateVersion" and q: "cp_statePath (c\<lparr>cp_state := s\<rparr>) \<noteq> []"
    using new path by (simp_all add: state_ok_def)
  note e = persistCritical_effect [OF p v q]
  note k = control_okD [OF ok]
  show reverted: "fl \<Longrightarrow> c' = c\<lparr>cp_state := s\<rparr> \<and> (disk' = disk \<or> io_windows io \<and> disk' = None)"
    using e(1) by simp
  show wrote: "\<not> fl \<Longrightarrow> c' = c\<lparr>cp_state := s, cp_clientDirty := False, cp_clientFlush := None\<rparr>
           \<and> (\<exists>d. ce_marshalState C s = Some d \<and> disk' = Some d)"
    using e(2) by simp
  show "control_ok C cfg (c'\<lparr>cp_state := s'\<rparr>) disk'"
    if "fl" "same_maps (cp_state c) s'" "state_ok (ce_go C) cfg s'"
  proof (rule control_okI)
    have c': "c'\<lparr>cp_state := s'\<rparr> = c\<lparr>cp_state := s'\<rparr>" using reverted that(1) by simp
    show "settings_ok cfg (c'\<lparr>cp_state := s'\<rparr>)" "flush_ok (c'\<lparr>cp_state := s'\<rparr>)"
      using k(1,4) unfolding c' by (simp_all add: settings_ok_def flush_ok_def)
    show "state_ok (ce_go C) cfg (cp_state (c'\<lparr>cp_state := s'\<rparr>))" using that(3) by simp
    have "file_ok C cfg c disk'" using k(3) reverted that(1) file_ok_older by blast
    then show "file_ok C cfg (c'\<lparr>cp_state := s'\<rparr>) disk'"
      by (rule file_ok_same) (simp_all add: that(2) c')
  qed
  show "control_ok C cfg c' disk'" if "\<not> fl"
  proof (rule control_okI)
    show "settings_ok cfg c'" "flush_ok c'" "state_ok (ce_go C) cfg (cp_state c')"
      using k(1) wrote that new by (auto simp: settings_ok_def flush_ok_def)
    show "file_ok C cfg c' disk'"
      using wrote that new file_ok_written [of C cfg "c\<lparr>cp_state := s\<rparr>"] by auto
  qed
qed

section \<open>Client data\<close>

text \<open>What the operations on client data leave alone.\<close>

definition same_owner :: "controlPlane \<Rightarrow> controlPlane \<Rightarrow> bool" where
  "same_owner c c' \<longleftrightarrow>
     cp_baseTokens c' = cp_baseTokens c \<and> cp_adminTokens c' = cp_adminTokens c
     \<and> cp_statePath c' = cp_statePath c \<and> cp_shuttingDown c' = cp_shuttingDown c
     \<and> cs_Version (cp_state c') = cs_Version (cp_state c)
     \<and> cs_InstanceID (cp_state c') = cs_InstanceID (cp_state c)
     \<and> cs_AddedTokens (cp_state c') = cs_AddedTokens (cp_state c)
     \<and> cs_RevokedHashes (cp_state c') = cs_RevokedHashes (cp_state c)
     \<and> cs_DeletedTokenIDs (cp_state c') = cs_DeletedTokenIDs (cp_state c)"

lemma same_owner_refl [simp]: "same_owner c c"
  by (simp add: same_owner_def)

lemma same_owner_trans: "same_owner a b \<Longrightarrow> same_owner b c \<Longrightarrow> same_owner a c"
  by (simp add: same_owner_def)

lemma same_owner_basic [simp]:
  "same_owner c (setClient c k v)" "same_owner c (addSession c t x)" "same_owner c (scheduleClientPersist c)"
  "same_owner c (pruneClients c)" "same_owner c (mergeClientKey c old new t d)"
  "same_owner c (touchClient c k now)" "same_owner c (removeSession c t n)"
  "same_owner c (storeLocation c ip l nowT)" "same_owner c (resolveLocation_done c ip)"
  by (auto simp: same_owner_def setClient_def addSession_def scheduleClientPersist_def pruneClients_def
      mergeClientKey_def touchClient_def removeSession_def storeLocation_def resolveLocation_done_def Let_def
      split: option.splits)

lemma same_owner_migrate: "same_owner c (migrateClientIdentity E c i r ip)"
proof -
  have "same_owner c (foldl (\<lambda>c old. if old = new \<or> \<not> mhas (cs_Clients (cp_state c)) old then c
                  else mergeClientKey c old new t d) c ks)" for new t d ks
    by (induction ks arbitrary: c) (auto intro: same_owner_trans [OF same_owner_basic(5)])
  then show ?thesis by (simp add: migrateClientIdentity_def Let_def)
qed

lemma schedule_simps [simp]:
  "cp_state (scheduleClientPersist c) = cp_state c"
  "cp_active (scheduleClientPersist c) = cp_active c"
  "cp_nextSessionID (scheduleClientPersist c) = cp_nextSessionID c"
  "cp_statePath c \<noteq> [] \<Longrightarrow> cp_clientDirty (scheduleClientPersist c)"
  "flush_ok c \<Longrightarrow> flush_ok (scheduleClientPersist c)"
  by (auto simp: scheduleClientPersist_def Let_def flush_ok_def)

lemma schedule_armed: "cp_statePath c \<noteq> [] \<Longrightarrow> flush_ok (scheduleClientPersist c)"
  by (auto simp: scheduleClientPersist_def Let_def flush_ok_def)

lemma client_change:
  assumes "control_ok C cfg c disk" and "same_owner c c'" and "devices_ok (ce_go C) (cp_state c')"
    and "cp_clientDirty c'" and "flush_ok c'"
  shows "control_ok C cfg c' disk"
proof (rule control_okI)
  note k = control_okD [OF assms(1)]
  show "settings_ok cfg c'" using k(1) assms(2) by (simp add: settings_ok_def same_owner_def)
  show "state_ok (ce_go C) cfg (cp_state c')"
    using k(2) assms(2,3) by (simp add: state_ok_def same_owner_def tokens_ok_def)
  show "file_ok C cfg c' disk"
    using k(3) assms(2,4) by (intro file_ok_dirty [OF k(3)]) (simp_all add: same_owner_def)
  show "flush_ok c'" by fact
qed

lemma setClient_devices:
  assumes "devices_ok E (cp_state c)" and "client_ok k v"
    and "mhas (cs_Clients (cp_state c)) k \<or> length (cs_Clients (cp_state c)) < maxTrackedClients"
  shows "devices_ok E (cp_state (setClient c k v))"
  using assms clients_ok_update [OF devices_okD(1) [OF assms(1)] assms(2)]
  by (auto simp: devices_ok_def setClient_def length_mset_key intro: blocked_ok_mono)

lemma devices_client: "devices_ok E s \<Longrightarrow> map_of (cs_Clients s) k = Some v \<Longrightarrow> client_ok k v"
  by (blast dest: devices_okD clients_okD(3))

lemma client_ok_fields [simp]:
  "client_ok k (v\<lparr>tc_LastSeen := x\<rparr>) = client_ok k v"
  "client_ok k (v\<lparr>tc_Country := x, tc_City := y\<rparr>) = client_ok k v"
  "client_ok k (updateClient v r ip now) = client_ok k v"
  by (simp_all add: client_ok_def updateClient_def)

lemma touch_devices: "devices_ok E (cp_state c) \<Longrightarrow> devices_ok E (cp_state (touchClient c k now))"
  by (auto simp: touchClient_def mhas_iff_map_of intro!: setClient_devices dest: devices_client split: option.splits)

lemma setClient_clients [simp]: "cs_Clients (cp_state (setClient c k v)) = mset_key k v (cs_Clients (cp_state c))"
  by (simp add: setClient_def)

lemma addSession_state [simp]: "cp_state (addSession c t x) = cp_state c"
  by (simp add: addSession_def Let_def)

lemma removeSession_state [simp]: "cp_state (removeSession c t n) = cp_state c"
  by (simp add: removeSession_def split: option.splits)

lemma storeLocation_state [simp]: "cp_state (storeLocation c ip l nowT) = cp_state c"
  by (simp add: storeLocation_def Let_def)

text \<open>Starting a lookup touches at most the client's place.\<close>

lemma startLocation_cases:
  assumes "startLocation c k v ip nowT = (c', lookup)"
  obtains "c' = c" | l where "c' = c\<lparr>cp_locationBusy := l\<rparr>"
    | x y where "c' = scheduleClientPersist (setClient c k (v\<lparr>tc_Country := x, tc_City := y\<rparr>))"
  using assms by (auto simp: startLocation_def Let_def split: if_splits option.splits)

lemma startLocation_lookup: "startLocation c k v ip nowT = (c', lookup) \<Longrightarrow> lookup = None \<or> lookup = Some (k, ip)"
  by (auto simp: startLocation_def Let_def split: if_splits option.splits)

lemma startLocation_effect:
  assumes "startLocation c k v ip nowT = (c', lookup)"
  shows "same_owner c c' \<and> (cp_clientDirty c \<longrightarrow> cp_clientDirty c') \<and> (flush_ok c \<longrightarrow> flush_ok c')
    \<and> cp_active c' = cp_active c
    \<and> (cp_state c' = cp_state c \<or> (\<exists>x y. cp_state c' = cp_state (setClient c k (v\<lparr>tc_Country := x, tc_City := y\<rparr>))))"
proof -
  have f: "flush_ok (setClient c k w) = flush_ok c" for w by (simp add: flush_ok_def setClient_def)
  have a: "cp_active (setClient c k w) = cp_active c" for w by (simp add: setClient_def)
  have d: "cp_clientDirty c \<Longrightarrow> cp_clientDirty (scheduleClientPersist (setClient c k w))" for w
    by (simp add: scheduleClientPersist_def setClient_def Let_def)
  have o: "same_owner c (scheduleClientPersist (setClient c k w))" for w
    by (rule same_owner_trans [OF same_owner_basic(1) same_owner_basic(3)])
  have b: "same_owner c (c\<lparr>cp_locationBusy := l\<rparr>)" "flush_ok (c\<lparr>cp_locationBusy := l\<rparr>) = flush_ok c" for l
    by (simp_all add: same_owner_def flush_ok_def)
  from assms show ?thesis
  proof (cases rule: startLocation_cases)
    case (3 x y)
    then have "cp_state c' = cp_state (setClient c k (v\<lparr>tc_Country := x, tc_City := y\<rparr>))" by simp
    then show ?thesis using 3 d o a f by fastforce
  qed (simp_all add: b)
qed

section \<open>Sessions\<close>

lemma newTrackedClient_ok:
  "cp_ident t \<Longrightarrow> cp_ident d \<Longrightarrow> client_ok (t @ '':'' @ d) (newTrackedClient (t @ '':'' @ d) t d now)"
  by (simp add: client_ok_def newTrackedClient_def)

lemma sessionClient_ok:
  assumes "devices_ok E (cp_state c)" and "identity_ok i"
  shows "client_ok (ri_tokenID i @ '':'' @ ri_deviceID i) (sessionClient c i r ip now)"
proof (cases "map_of (cs_Clients (cp_state c)) (ri_tokenID i @ '':'' @ ri_deviceID i)")
  case None
  have "cp_ident (ri_tokenID i)" "cp_ident (ri_deviceID i)"
    using assms(2) by (simp_all add: identity_ok_def)
  from newTrackedClient_ok [OF this, of now] None show ?thesis
    by (simp add: sessionClient_def)
next
  case (Some v)
  then show ?thesis using devices_client [OF assms(1) Some] by (simp add: sessionClient_def)
qed

text \<open>The state a new session leaves, before its location is looked at.\<close>

definition entered ::
  "goenv \<Rightarrow> controlPlane \<Rightarrow> requestDeviceIdentity \<Rightarrow> request \<Rightarrow> nat \<Rightarrow> string \<Rightarrow> controlPlane" where
  "entered E c i r cl now =
     (let c1 = migrateClientIdentity E (pruneClients c) i r (clientRemoteIP (Some r));
          k = ri_tokenID i @ '':'' @ ri_deviceID i
      in scheduleClientPersist (addSession (setClient c1 k (sessionClient c1 i r (clientRemoteIP (Some r)) now))
           (ri_tokenID i) \<lparr>ts_clientKey = k, ts_close = Some cl\<rparr>))"

lemma enterSession_entered:
  assumes "enterSession E c i r cl now nowT = (c', h, lookup)"
  shows "\<exists>v. startLocation (entered E c i r cl now) (ri_tokenID i @ '':'' @ ri_deviceID i) v
              (clientRemoteIP (Some r)) nowT = (c', lookup)
            \<and> map_of (cs_Clients (cp_state (entered E c i r cl now))) (ri_tokenID i @ '':'' @ ri_deviceID i) = Some v"
    and "h = \<lparr>sh_tokenID = ri_tokenID i, sh_sessionID = cp_nextSessionID (entered E c i r cl now),
              sh_clientKey = ri_tokenID i @ '':'' @ ri_deviceID i, sh_done = False\<rparr>"
  using assms
  by (auto simp: enterSession_def entered_def Let_def split: prod.splits)

lemma entered_owner: "same_owner c (entered E c i r cl now)"
  unfolding entered_def Let_def
  by (rule same_owner_trans [OF same_owner_basic(4)], rule same_owner_trans [OF same_owner_migrate],
      rule same_owner_trans [OF same_owner_basic(1)], rule same_owner_trans [OF same_owner_basic(2)],
      rule same_owner_basic(3))

lemma entered_devices:
  assumes "times_ok E" and "devices_ok E (cp_state c)" and "identity_ok i"
  shows "devices_ok E (cp_state (entered E c i r cl now))"
proof -
  let ?c = "migrateClientIdentity E (pruneClients c) i r (clientRemoteIP (Some r))"
  have "devices_ok E (cp_state ?c)" "length (cs_Clients (cp_state ?c)) < maxTrackedClients"
    using migrate_devices [OF assms(1) prune_devices(1) [OF assms(2)] assms(3)] prune_devices(2) [OF assms(2)]
    by (auto intro: le_less_trans)
  then show ?thesis
    unfolding entered_def Let_def schedule_simps(1) addSession_state
    by (intro setClient_devices sessionClient_ok assms(3)) simp_all
qed

lemma entered_scheduled:
  assumes "cp_statePath c \<noteq> []"
  shows "cp_clientDirty (entered E c i r cl now)" and "flush_ok (entered E c i r cl now)"
proof -
  obtain x where x: "entered E c i r cl now = scheduleClientPersist x"
    unfolding entered_def Let_def by blast
  have "cp_statePath x \<noteq> []"
    using entered_owner [of c E i r cl now] same_owner_basic(3) [of x] assms
    by (simp add: x same_owner_def)
  then show "cp_clientDirty (entered E c i r cl now)" "flush_ok (entered E c i r cl now)"
    unfolding x by (simp_all add: schedule_armed)
qed

text \<open>Tokens that authorisation returns carry their canonical hash and their stable id.\<close>

lemma authorizeClient_token:
  assumes "lower_ok E" and "authorizeClient E c header = Some token"
  shows "canonical_hash (tk_Hash token) \<and> plain_ident (tk_ID token) \<and> StableTokenID E token = tk_ID token"
proof -
  obtain t h where t: "constantHashEqual E (tk_Hash t) h"
    "token = t\<lparr>tk_Hash := normalizeHash E (tk_Hash t),
       tk_ID := StableTokenID E (t\<lparr>tk_Hash := normalizeHash E (tk_Hash t)\<rparr>)\<rparr>"
    using assms(2) by (auto simp: authorizeClient_def Let_def find_Some_iff split: if_splits option.splits)
  have c: "canonical_hash (normalizeHash E (tk_Hash t))"
    using constantHashEqual_normal(1) [OF assms(1) t(1)] .
  then have "plain_ident (StableTokenID E (t\<lparr>tk_Hash := normalizeHash E (tk_Hash t)\<rparr>))"
    by (intro StableTokenID_plain_ident) simp
  then show ?thesis using c t(2) by (simp add: StableTokenID_explicit)
qed

lemma registerSession_ok:
  assumes "control_ok C cfg c disk" and "cp_statePath c \<noteq> []" and "times_ok (ce_go C)" and "goenv_ok (ce_go C)"
    and "authorizeClient (ce_go C) c0 header = Some token"
    and "registerSession (ce_go C) c token r cl now nowT = (c', h, ok, lookup)"
  shows "control_ok C cfg c' disk"
proof -
  let ?E = "ce_go C" and ?i = "sessionIdentityDetails (ce_go C) token (Some r)"
  have i: "identity_ok ?i"
    using assms(4) authorizeClient_token [OF _ assms(5)] by (intro identity_ok_details) (auto simp: goenv_ok_def)
  consider "c' = c" | h' where "enterSession ?E c ?i r cl now nowT = (c', h', lookup)"
    using assms(6) by (auto simp: registerSession_def Let_def split: if_splits prod.splits)
  then show ?thesis
  proof cases
    case 2
    let ?k = "ri_tokenID ?i @ '':'' @ ri_deviceID ?i" and ?e = "entered ?E c ?i r cl now"
    obtain v where v: "startLocation ?e ?k v (clientRemoteIP (Some r)) nowT = (c', lookup)"
      "map_of (cs_Clients (cp_state ?e)) ?k = Some v"
      using enterSession_entered(1) [OF 2] by blast
    note s = startLocation_effect [OF v(1)]
    have d: "devices_ok ?E (cp_state ?e)"
      using entered_devices [OF assms(3) control_okD(7) [OF assms(1)] i] .
    show ?thesis
    proof (rule client_change [OF assms(1)])
      show "same_owner c c'" using entered_owner conjunct1 [OF s] by (rule same_owner_trans)
      show "devices_ok ?E (cp_state c')"
        using s d devices_client [OF d v(2)] v(2)
        by (auto intro!: setClient_devices simp: mhas_iff_map_of)
      show "cp_clientDirty c'" "flush_ok c'"
        using s entered_scheduled [OF assms(2)] by auto
    qed
  qed (use assms(1) in simp)
qed

end
