(* ===== verification/Control_System.thy ===== *)
theory Control_System
  imports Control_Steps
begin

text \<open>
  The remaining operations of the control plane keep its invariant: the bookkeeping of locations,
  unregistering a session, the flush of client data, shutdown and the preparation of the identity.
\<close>

section \<open>Timers, locations and shutdown\<close>

lemma schedule_ok:
  assumes "control_ok C cfg c disk" and "cp_statePath c \<noteq> []" and "same_owner c c1"
    and "devices_ok (ce_go C) (cp_state c1)"
  shows "control_ok C cfg (scheduleClientPersist c1) disk"
proof (rule client_change [OF assms(1)])
  show "same_owner c (scheduleClientPersist c1)"
    by (rule same_owner_trans [OF assms(3) same_owner_basic(3)])
  have "cp_statePath c1 \<noteq> []" using assms(2,3) by (simp add: same_owner_def)
  then show "cp_clientDirty (scheduleClientPersist c1)" "flush_ok (scheduleClientPersist c1)"
    by (simp_all add: schedule_armed)
  show "devices_ok (ce_go C) (cp_state (scheduleClientPersist c1))" using assms(4) by simp
qed

lemma unregister_ok:
  assumes "control_ok C cfg c disk" and "cp_statePath c \<noteq> []" and "unregister c h now = (c', h')"
  shows "control_ok C cfg c' disk"
proof (cases "sh_done h")
  case False
  let ?c1 = "touchClient (removeSession c (sh_tokenID h) (sh_sessionID h)) (sh_clientKey h) now"
  have "c' = scheduleClientPersist ?c1" using assms(3) False by (simp add: unregister_def)
  moreover have "same_owner c ?c1"
    by (rule same_owner_trans [OF same_owner_basic(7) same_owner_basic(6)])
  moreover have "devices_ok (ce_go C) (cp_state ?c1)"
    using control_okD(7) [OF assms(1)] by (intro touch_devices) simp
  ultimately show ?thesis using schedule_ok [OF assms(1,2)] by simp
qed (use assms(1,3) in \<open>simp add: unregister_def\<close>)

lemma place_devices:
  assumes "devices_ok E (cp_state c)" and "map_of (cs_Clients (cp_state c)) k = Some v"
  shows "devices_ok E (cp_state (setClient c k (v\<lparr>tc_Country := x, tc_City := y\<rparr>)))"
  using assms devices_client [OF assms] by (intro setClient_devices) (simp_all add: mhas_iff_map_of)

lemma resolveLocation_cached_ok:
  assumes "control_ok C cfg c disk" and "cp_statePath c \<noteq> []" and "resolveLocation_cached c k ip nowT = (c', b)"
  shows "control_ok C cfg c' disk"
proof -
  consider (same) "c' = c" | (placed) v x y where "map_of (cs_Clients (cp_state c)) k = Some v"
    "c' = scheduleClientPersist (setClient c k (v\<lparr>tc_Country := x, tc_City := y\<rparr>))"
  proof (cases "map_of (cp_locationCache c) ip")
    case None
    then show ?thesis using assms(3) by (intro same) (simp add: resolveLocation_cached_def)
  next
    case (Some cached)
    then show ?thesis
      using assms(3)
      by (cases "map_of (cs_Clients (cp_state c)) k")
        (auto simp: resolveLocation_cached_def intro: same placed split: if_splits)
  qed
  then show ?thesis
  proof cases
    case (placed v x y)
    then show ?thesis
      using place_devices [OF control_okD(7) [OF assms(1)] placed(1)] schedule_ok [OF assms(1,2)] by simp
  qed (use assms(1) in simp)
qed

text \<open>Changes of the location bookkeeping alone.\<close>

lemma quiet_change:
  assumes "control_ok C cfg c disk" and "same_owner c c'" and "cp_state c' = cp_state c"
    and "cp_clientDirty c' = cp_clientDirty c" and "cp_clientFlush c' = cp_clientFlush c"
  shows "control_ok C cfg c' disk"
proof (rule control_okI)
  note k = control_okD [OF assms(1)]
  show "settings_ok cfg c'" using k(1) assms(2) by (simp add: settings_ok_def same_owner_def)
  show "state_ok (ce_go C) cfg (cp_state c')" using k(2) assms(3) by simp
  show "file_ok C cfg c' disk" using k(3) assms(3,4) by (intro file_ok_same [OF k(3)]) simp_all
  show "flush_ok c'" using k(4) assms(2,4,5) by (simp add: flush_ok_def same_owner_def)
qed

lemma storeLocation_fields [simp]:
  "cp_clientDirty (storeLocation c ip l nowT) = cp_clientDirty c"
  "cp_clientFlush (storeLocation c ip l nowT) = cp_clientFlush c"
  "cp_statePath (storeLocation c ip l nowT) = cp_statePath c"
  by (simp_all add: storeLocation_def Let_def)

lemma resolveLocation_store_ok:
  assumes "control_ok C cfg c disk" and "cp_statePath c \<noteq> []"
  shows "control_ok C cfg (resolveLocation_store c k ip answer nowT) disk"
proof -
  let ?r = "resolveLocation_store c k ip answer nowT"
  consider (same) "?r = c" | (stored) l where "?r = storeLocation c ip l nowT"
    | (placed) l v x y where "map_of (cs_Clients (cp_state c)) k = Some v"
      "?r = scheduleClientPersist (setClient (storeLocation c ip l nowT) k (v\<lparr>tc_Country := x, tc_City := y\<rparr>))"
  proof (cases answer)
    case None
    then show ?thesis by (intro same) (simp add: resolveLocation_store_def)
  next
    case (Some l)
    show ?thesis
    proof (cases "lo_Country l = [] \<and> lo_City l = []")
      case True
      then show ?thesis using Some by (intro same) (simp add: resolveLocation_store_def)
    next
      case False
      have r: "?r = (let c = storeLocation c ip l nowT
          in case map_of (cs_Clients (cp_state c)) k of
               None \<Rightarrow> c
             | Some client \<Rightarrow>
                 if tc_RemoteIP client \<noteq> ip then c
                 else scheduleClientPersist (setClient c k
                        (client\<lparr>tc_Country := sanitizeDisplay (lo_Country l) 128,
                                tc_City := sanitizeDisplay (lo_City l) 128\<rparr>)))"
        unfolding resolveLocation_store_def Some option.case if_not_P [OF False] ..
      show ?thesis
      proof (cases "map_of (cs_Clients (cp_state c)) k")
        case None
        then show ?thesis using r by (intro stored [of l]) simp
      next
        case (Some v)
        then show ?thesis
          using r stored [of l] placed [of v l] by (cases "tc_RemoteIP v = ip") (simp_all add: Let_def)
      qed
    qed
  qed
  then show ?thesis
  proof cases
    case (stored l)
    then show ?thesis using quiet_change [OF assms(1), of "storeLocation c ip l nowT"] by simp
  next
    case (placed l v x y)
    let ?c1 = "setClient (storeLocation c ip l nowT) k (v\<lparr>tc_Country := x, tc_City := y\<rparr>)"
    have "devices_ok (ce_go C) (cp_state ?c1)"
      using place_devices [of "ce_go C" "storeLocation c ip l nowT" k v] control_okD(7) [OF assms(1)] placed(1) by simp
    moreover have "same_owner c ?c1"
      by (rule same_owner_trans [OF same_owner_basic(8) same_owner_basic(1)])
    ultimately show ?thesis unfolding placed(2) using schedule_ok [OF assms(1,2)] by simp
  qed (use assms(1) in simp)
qed

lemma resolveLocation_done_ok:
  assumes "control_ok C cfg c disk"
  shows "control_ok C cfg (resolveLocation_done c ip) disk"
  using same_owner_basic(9) [of c ip]
  by (rule quiet_change [OF assms]) (simp_all add: resolveLocation_done_def)

text \<open>Writing client data: the timer's flush, the last flush of \<open>shutdown\<close>, and \<open>prepareIdentity\<close>.\<close>

lemma saved_ok:
  assumes "control_ok C cfg c disk" and "ce_marshalState C (cp_state c) = Some d" and "same_owner c c'"
    and "cp_state c' = cp_state c" and "\<not> cp_clientDirty c'"
  shows "control_ok C cfg c' (Some d)"
proof (rule control_okI)
  note k = control_okD [OF assms(1)]
  show "settings_ok cfg c'" using k(1) assms(3) by (simp add: settings_ok_def same_owner_def)
  show "state_ok (ce_go C) cfg (cp_state c')" using k(2) assms(4) by simp
  show "file_ok C cfg c' (Some d)" using k(2) assms(2,4) by (rule file_ok_written)
  show "flush_ok c'" using assms(5) by (simp add: flush_ok_def)
qed

lemma unsaved_ok:
  assumes "control_ok C cfg c disk" and "disk' = disk \<or> disk' = None"
    and "cp_baseTokens c' = cp_baseTokens c" "cp_adminTokens c' = cp_adminTokens c"
    and "cp_statePath c' = cp_statePath c" "cp_state c' = cp_state c" "cp_clientDirty c' = cp_clientDirty c"
    and "flush_ok c'"
  shows "control_ok C cfg c' disk'"
proof (rule control_okI)
  note k = control_okD [OF assms(1)]
  show "settings_ok cfg c'" using k(1) assms(3-5) by (simp add: settings_ok_def)
  show "state_ok (ce_go C) cfg (cp_state c')" using k(2) assms(6) by simp
  show "file_ok C cfg c' disk'"
    using file_ok_older [OF k(3) assms(2)] by (rule file_ok_same) (simp_all add: assms(6,7))
  show "flush_ok c'" by fact
qed

lemma flushClientState_ok:
  assumes "control_ok C cfg c disk" and "cp_statePath c \<noteq> []" and "flushClientState C c disk io = (c', disk')"
  shows "control_ok C cfg c' disk'"
proof -
  let ?c = "c\<lparr>cp_clientFlush := None\<rparr>"
  obtain c1 d1 f where p: "persistLocked C ?c disk io = (c1, d1, f)" by (metis prod_cases3)
  have v: "cs_Version (cp_state ?c) = controlStateVersion" "cp_statePath ?c \<noteq> []"
    using control_okD(5) [OF assms(1)] assms(2) by simp_all
  note e = persistLocked_effect [OF p v]
  consider "\<not> cp_clientDirty c" "c' = ?c" "disk' = disk"
    | "cp_clientDirty c" f "c' = ?c\<lparr>cp_clientFlush := Some clientPersistRetry\<rparr>" "disk' = d1"
    | "cp_clientDirty c" "\<not> f" "c' = ?c\<lparr>cp_clientDirty := False\<rparr>" "disk' = d1"
    using assms(3) p e(1) by (auto simp: flushClientState_def Let_def split: bool.splits if_splits)
  then show ?thesis
  proof cases
    case 1
    then show ?thesis by (intro unsaved_ok [OF assms(1)]) (simp_all add: flush_ok_def)
  next
    case 2
    then show ?thesis using e(2) by (intro unsaved_ok [OF assms(1)]) (auto simp: flush_ok_def)
  next
    case 3
    then show ?thesis using e(3) by (auto intro!: saved_ok [OF assms(1)] simp: same_owner_def)
  qed
qed

lemma shutdown_finish_ok:
  assumes "control_ok C cfg c disk" and "cp_statePath c \<noteq> []" and "cp_shuttingDown c"
    and "shutdown_finish C c disk io = (c', disk', e)"
  shows "control_ok C cfg c' disk'"
proof -
  let ?c = "c\<lparr>cp_clientFlush := None\<rparr>"
  obtain c1 d1 f where p: "persistLocked C ?c disk io = (c1, d1, f)" by (metis prod_cases3)
  have v: "cs_Version (cp_state ?c) = controlStateVersion" "cp_statePath ?c \<noteq> []"
    using control_okD(5) [OF assms(1)] assms(2) by simp_all
  note e = persistLocked_effect [OF p v]
  consider "\<not> cp_clientDirty c" "c' = ?c" "disk' = disk" | f "c' = ?c" "disk' = d1"
    | "\<not> f" "c' = ?c\<lparr>cp_clientDirty := False\<rparr>" "disk' = d1"
    using assms(4) p e(1) by (auto simp: shutdown_finish_def Let_def split: bool.splits if_splits)
  then show ?thesis
  proof cases
    case 1
    then show ?thesis by (intro unsaved_ok [OF assms(1)]) (simp_all add: flush_ok_def)
  next
    case 2
    then show ?thesis using e(2) assms(3) by (intro unsaved_ok [OF assms(1)]) (auto simp: flush_ok_def)
  next
    case 3
    then show ?thesis using e(3) by (auto intro!: saved_ok [OF assms(1)] simp: same_owner_def)
  qed
qed

lemma shutdown_begin_ok: "control_ok C cfg c disk \<Longrightarrow> control_ok C cfg (fst (shutdown_begin c)) disk"
  by (rule unsaved_ok [of C cfg c disk disk]) (simp_all add: shutdown_begin_def flush_ok_def)

lemma prepareIdentity_ok:
  assumes "control_ok C cfg c disk" and "prepareIdentity C c disk io = (c', disk', e)"
  shows "control_ok C cfg c' disk'"
proof (cases "\<not> cp_enabled c \<or> cp_statePath c = []")
  case False
  then have p: "persistCriticalLocked C (c\<lparr>cp_state := cp_state c\<rparr>) disk io = (c', disk', e)"
    and path: "cp_statePath c \<noteq> []"
    using assms(2) by (simp_all add: prepareIdentity_def)
  note k = control_okD(2) [OF assms(1)]
  note m = critical_mutation [OF assms(1) path k p]
  show ?thesis
  proof (cases e)
    case True
    then have "c' = c" using m(2) by simp
    then show ?thesis using m(1) [OF True same_maps_refl k] by simp
  next
    case False
    then show ?thesis using m(3) by simp
  qed
qed (use assms in \<open>simp add: prepareIdentity_def\<close>)

end
