(* ===== verification/Control_Tokens.thy ===== *)
theory Control_Tokens
  imports Control_System
begin

text \<open>
  The token part of the owner API: what \<open>allTokens\<close> and authorisation compute, and the effect of
  creating, deleting and blocking on the abstract set of accepted hashes and on the invariant.
\<close>

section \<open>The accepted hashes\<close>

text \<open>The abstract state of the token component: the hashes a client may authenticate with.\<close>

definition active_hashes :: "goenv \<Rightarrow> controlPlane \<Rightarrow> string set" where
  "active_hashes E c =
     set (token_hashes E (cp_baseTokens c @ cs_AddedTokens (cp_state c))) - set (cs_RevokedHashes (cp_state c))"

definition listed :: "goenv \<Rightarrow> Token \<Rightarrow> Token" where
  "listed E t = t\<lparr>tk_Hash := normalizeHash E (tk_Hash t), tk_ID := StableTokenID E t\<rparr>"

definition hashes_ok :: "goenv \<Rightarrow> Token list \<Rightarrow> bool" where
  "hashes_ok E ts \<longleftrightarrow> (\<forall>t \<in> set ts. canonical_hash (normalizeHash E (tk_Hash t)))"

text \<open>The first token of each hash, except those of the hashes in \<open>out\<close>.\<close>

fun firsts :: "goenv \<Rightarrow> string set \<Rightarrow> Token list \<Rightarrow> Token list" where
  "firsts E out [] = []"
| "firsts E out (t # ts) =
     (let h = normalizeHash E (tk_Hash t)
      in if h \<in> out then firsts E out ts else t # firsts E (insert h out) ts)"

lemma firsts_subset: "set (firsts E out ts) \<subseteq> set ts"
  by (induction ts arbitrary: out) (auto simp: Let_def)

lemma firsts_hashes: "set (token_hashes E (firsts E out ts)) = set (token_hashes E ts) - out"
  by (induction ts arbitrary: out) (auto simp: Let_def token_hashes_def)

lemma firsts_distinct: "distinct (token_hashes E (firsts E out ts))"
proof (induction ts arbitrary: out)
  case (Cons t ts)
  then show ?case
    using firsts_hashes [of E "insert (normalizeHash E (tk_Hash t)) out" ts]
    by (auto simp: Let_def token_hashes_def)
qed (simp add: token_hashes_def)

lemma firsts_snoc:
  "firsts E out (ts @ [t]) =
     firsts E out ts @ (if normalizeHash E (tk_Hash t) \<in> out \<union> set (token_hashes E ts) then [] else [t])"
  by (induction ts arbitrary: out) (auto simp: Let_def token_hashes_def)

lemma firsts_filter:
  assumes "distinct (token_hashes E ts)" and "set (token_hashes E ts) \<inter> seen = {}"
  shows "firsts E (out \<union> seen) ts = filter (\<lambda>t. normalizeHash E (tk_Hash t) \<notin> out) ts"
  using assms
proof (induction ts arbitrary: seen)
  case (Cons t ts)
  let ?h = "normalizeHash E (tk_Hash t)"
  have "firsts E (out \<union> seen) ts = filter (\<lambda>t. normalizeHash E (tk_Hash t) \<notin> out) ts"
    "firsts E (out \<union> insert ?h seen) ts = filter (\<lambda>t. normalizeHash E (tk_Hash t) \<notin> out) ts"
    using Cons.prems by (intro Cons.IH; auto simp: token_hashes_def)+
  then show ?case using Cons.prems by (auto simp: Let_def token_hashes_def)
qed simp

lemma canonical_nonempty [simp]: "canonical_hash h \<Longrightarrow> h \<noteq> []"
  by (auto simp: canonical_hash_def)

lemma StableTokenID_normal:
  assumes "canonical_hash (normalizeHash E (tk_Hash t))"
  shows "StableTokenID E (t\<lparr>tk_Hash := normalizeHash E (tk_Hash t)\<rparr>) = StableTokenID E t"
  using assms by (simp add: StableTokenID_def)

lemma allTokens_loop_eq:
  assumes "hashes_ok E ts"
  shows "allTokens_loop E c seen ts = map (listed E) (firsts E (set (cs_RevokedHashes (cp_state c)) \<union> set seen) ts)"
  using assms
proof (induction ts arbitrary: seen)
  case (Cons t ts)
  let ?h = "normalizeHash E (tk_Hash t)"
  have h: "canonical_hash ?h" "hashes_ok E ts" using Cons.prems by (auto simp: hashes_ok_def)
  show ?case
    using h(1) Cons.IH [OF h(2)] by (simp add: revoked_def Let_def listed_def StableTokenID_normal)
qed simp

lemma allTokens_eq:
  assumes "hashes_ok E (cp_baseTokens c @ cs_AddedTokens (cp_state c))"
  shows "allTokens E c = map (listed E) (firsts E (set (cs_RevokedHashes (cp_state c)))
           (cp_baseTokens c @ cs_AddedTokens (cp_state c)))"
  using allTokens_loop_eq [OF assms, of c "[]"] by (simp add: allTokens_def)

lemma hashes_ok_control:
  assumes "control_ok C cfg c disk" and "owner_config (ce_go C) cfg"
  shows "hashes_ok (ce_go C) (cp_baseTokens c @ cs_AddedTokens (cp_state c))"
  using control_okD(1,6) [OF assms(1)] assms(2)
  by (auto simp: hashes_ok_def token_hashes_def tokens_ok_def settings_ok_def owner_config_def added_ok_def)

lemma listed_simps [simp]:
  "tk_Hash (listed E t) = normalizeHash E (tk_Hash t)" "tk_ID (listed E t) = StableTokenID E t"
  "tk_Name (listed E t) = tk_Name t" "tk_CreatedAt (listed E t) = tk_CreatedAt t"
  by (simp_all add: listed_def)

lemma listed_id:
  assumes "canonical_hash (normalizeHash E (tk_Hash t))"
  shows "StableTokenID E (listed E t) = StableTokenID E t"
  using StableTokenID_idem [OF assms] by (simp add: listed_def)

lemma set_allTokens:
  assumes "hashes_ok E (cp_baseTokens c @ cs_AddedTokens (cp_state c))" and "u \<in> set (allTokens E c)"
  obtains t where "t \<in> set (cp_baseTokens c @ cs_AddedTokens (cp_state c))" and "u = listed E t"
  using assms(2) firsts_subset unfolding allTokens_eq [OF assms(1)] by fastforce

lemma active_hashes_allTokens:
  assumes "hashes_ok E (cp_baseTokens c @ cs_AddedTokens (cp_state c))"
  shows "active_hashes E c = tk_Hash ` set (allTokens E c)"
proof -
  have "tk_Hash ` listed E ` A = (\<lambda>t. normalizeHash E (tk_Hash t)) ` A" for A by (simp add: image_image)
  then show ?thesis
    unfolding allTokens_eq [OF assms] active_hashes_def set_map firsts_hashes [symmetric] by (simp add: token_hashes_def)
qed

lemma distinct_allTokens:
  assumes "hashes_ok E (cp_baseTokens c @ cs_AddedTokens (cp_state c))"
  shows "distinct (map tk_Hash (allTokens E c))"
proof -
  have "map tk_Hash (map (listed E) ts) = token_hashes E ts" for ts by (simp add: token_hashes_def)
  then show ?thesis unfolding allTokens_eq [OF assms] using firsts_distinct by metis
qed

lemma length_allTokens:
  assumes "hashes_ok E (cp_baseTokens c @ cs_AddedTokens (cp_state c))"
  shows "length (allTokens E c) = card (active_hashes E c)"
  using distinct_card [OF distinct_allTokens [OF assms]] by (simp add: active_hashes_allTokens [OF assms])

lemma active_hash_canonical:
  assumes "hashes_ok E (cp_baseTokens c @ cs_AddedTokens (cp_state c))" and "h \<in> active_hashes E c"
  shows "canonical_hash h"
  using assms by (auto simp: active_hashes_def token_hashes_def hashes_ok_def)

lemma find_SomeD: "find P xs = Some x \<Longrightarrow> x \<in> set xs \<and> P x"
  by (auto simp: find_Some_iff)

lemma bex_image_eq: "(\<And>u. u \<in> A \<Longrightarrow> P u \<longleftrightarrow> f u = h) \<Longrightarrow> (\<exists>u \<in> A. P u) \<longleftrightarrow> h \<in> f ` A"
  by auto

lemma equal_active:
  assumes "hashes_ok E (cp_baseTokens c @ cs_AddedTokens (cp_state c))" and "canonical_hash h"
    and "u \<in> set (allTokens E c)"
  shows "constantHashEqual E (tk_Hash u) h \<longleftrightarrow> tk_Hash u = h"
proof -
  have "canonical_hash (tk_Hash u)"
    using assms(1,3) active_hash_canonical active_hashes_allTokens by blast
  then show ?thesis using assms(2) by (simp add: constantHashEqual_canonical)
qed

lemma authorizeClient_active:
  assumes "hashes_ok E (cp_baseTokens c @ cs_AddedTokens (cp_state c))" and "sha256_ok E"
  shows "(\<exists>token. authorizeClient E c header = Some token) \<longleftrightarrow>
    bearerToken header \<noteq> [] \<and> TokenHash E (bearerToken header) \<in> active_hashes E c"
proof -
  let ?h = "TokenHash E (bearerToken header)"
  have h: "canonical_hash ?h" using assms(2) by (rule canonical_TokenHash)
  have r: "revoked E c ?h \<Longrightarrow> ?h \<notin> active_hashes E c"
    using h by (simp add: revoked_def active_hashes_def)
  have "?h \<in> active_hashes E c \<longleftrightarrow> find (\<lambda>token. constantHashEqual E (tk_Hash token) ?h) (allTokens E c) \<noteq> None"
    unfolding active_hashes_allTokens [OF assms(1)] find_None_iff not_not
    using bex_image_eq [OF equal_active [OF assms(1) h], symmetric] by (simp only: Bex_def)
  then show ?thesis
    using r unfolding authorizeClient_def Let_def by (auto split: option.splits)
qed

lemma authorizeClient_hash:
  assumes "hashes_ok E (cp_baseTokens c @ cs_AddedTokens (cp_state c))" and "sha256_ok E"
    and "authorizeClient E c header = Some token"
  shows "tk_Hash token = TokenHash E (bearerToken header)" and "token \<in> set (allTokens E c)"
proof -
  let ?h = "TokenHash E (bearerToken header)"
  have h: "canonical_hash ?h" using assms(2) by (rule canonical_TokenHash)
  obtain u where u: "u \<in> set (allTokens E c)" "constantHashEqual E (tk_Hash u) ?h"
    "token = u\<lparr>tk_Hash := normalizeHash E (tk_Hash u), tk_ID := StableTokenID E (u\<lparr>tk_Hash := normalizeHash E (tk_Hash u)\<rparr>)\<rparr>"
    using assms(3) by (auto simp: authorizeClient_def Let_def dest: find_SomeD split: if_splits option.splits)
  then have hu: "tk_Hash u = ?h" using equal_active [OF assms(1) h] by simp
  obtain t where t: "t \<in> set (cp_baseTokens c @ cs_AddedTokens (cp_state c))" "u = listed E t"
    using set_allTokens [OF assms(1) u(1)] by blast
  have "canonical_hash (normalizeHash E (tk_Hash t))" using assms(1) t(1) by (auto simp: hashes_ok_def)
  then have "StableTokenID E u = tk_ID u" using t(2) listed_id by simp
  moreover have "u\<lparr>tk_Hash := normalizeHash E (tk_Hash u)\<rparr> = u" using hu h by (cases u) simp
  ultimately have "token = u\<lparr>tk_ID := tk_ID u\<rparr>" using u(3) by simp
  then have "token = u" by simp
  then show "tk_Hash token = ?h" "token \<in> set (allTokens E c)" using hu u(1) by simp_all
qed

lemma clientTokenActive_iff:
  assumes "hashes_ok E (cp_baseTokens c @ cs_AddedTokens (cp_state c))" and "canonical_hash (tk_Hash t)"
  shows "clientTokenActive E c t \<longleftrightarrow> tk_Hash t \<in> active_hashes E c"
proof -
  have "list_ex (\<lambda>u. constantHashEqual E (tk_Hash u) (tk_Hash t)) (allTokens E c) \<longleftrightarrow> tk_Hash t \<in> active_hashes E c"
    unfolding active_hashes_allTokens [OF assms(1)] list_ex_iff by (rule bex_image_eq [OF equal_active [OF assms]])
  moreover have "revoked E c (tk_Hash t) \<Longrightarrow> tk_Hash t \<notin> active_hashes E c"
    using assms(2) by (simp add: revoked_def active_hashes_def)
  ultimately show ?thesis using assms(2) by (auto simp: clientTokenActive_def)
qed

section \<open>Creating a token\<close>

lemma createToken_locked_cases:
  assumes "createToken_locked C c disk io cleanName raw cleanKey token = (c', disk', res)"
  obtains (none) e where "c' = c" "disk' = disk" "res = Inl e"
    | (replay) u where "c' = c" "disk' = disk" "res = Inr (u\<lparr>tk_ID := tk_ID token\<rparr>, raw, True)"
        "cleanKey \<noteq> []" "u \<in> set (allTokens (ce_go C) c)" "StableTokenID (ce_go C) u = tk_ID token"
        "constantHashEqual (ce_go C) (tk_Hash u) (tk_Hash token)"
    | (create) c1 fl where
        "persistCriticalLocked C (c\<lparr>cp_state := (cp_state c)\<lparr>cs_AddedTokens := cs_AddedTokens (cp_state c) @ [token]\<rparr>\<rparr>)
           disk io = (c1, disk', fl)"
        "length (allTokens (ce_go C) c) < 1024"
        "cleanKey \<noteq> [] \<Longrightarrow> tk_ID token \<notin> StableTokenID (ce_go C) ` set (allTokens (ce_go C) c)
           \<and> tk_ID token \<notin> set (cs_DeletedTokenIDs (cp_state c))"
        "fl \<Longrightarrow> c' = c1\<lparr>cp_state := (cp_state c1)\<lparr>cs_AddedTokens := butlast (cs_AddedTokens (cp_state c1))\<rparr>\<rparr>
           \<and> res = Inl ErrIO"
        "\<not> fl \<Longrightarrow> c' = c1 \<and> res = Inr (token, raw, False)"
proof -
  let ?all = "allTokens (ce_go C) c"
  let ?c = "c\<lparr>cp_state := (cp_state c)\<lparr>cs_AddedTokens := cs_AddedTokens (cp_state c) @ [token]\<rparr>\<rparr>"
  obtain c1 d1 fl where p: "persistCriticalLocked C ?c disk io = (c1, d1, fl)" by (metis prod_cases3)
  let ?create = "if length ?all \<ge> 1024 then (c, disk, Inl (ErrText ''too many tokens''))
    else (case persistCriticalLocked C ?c disk io of
           (c, disk, True) \<Rightarrow>
             (c\<lparr>cp_state := (cp_state c)\<lparr>cs_AddedTokens := butlast (cs_AddedTokens (cp_state c))\<rparr>\<rparr>, disk, Inl ErrIO)
         | (c, disk, False) \<Rightarrow> (c, disk, Inr (token, raw, False)))"
  have make: thesis if "(c', disk', res) = ?create"
    "cleanKey \<noteq> [] \<Longrightarrow> tk_ID token \<notin> StableTokenID (ce_go C) ` set ?all
       \<and> tk_ID token \<notin> set (cs_DeletedTokenIDs (cp_state c))"
    using that none create [of c1 fl] p by (cases fl) (auto split: if_splits)
  let ?find = "find (\<lambda>existing. StableTokenID (ce_go C) existing = tk_ID token) ?all"
  note def = assms [unfolded createToken_locked_def Let_def]
  show thesis
  proof (cases "cleanKey = []")
    case True
    then show ?thesis using make def by simp
  next
    case key: False
    show ?thesis
    proof (cases "tk_ID token \<in> set (cs_DeletedTokenIDs (cp_state c))")
      case True
      then show ?thesis using def key none by auto
    next
      case False
      show ?thesis
      proof (cases ?find)
        case None
        then have "tk_ID token \<notin> StableTokenID (ce_go C) ` set ?all" by (auto simp: find_None_iff)
        then show ?thesis using def key False None make by simp
      next
        case (Some u)
        then show ?thesis
          using def key False none replay [of u] find_SomeD [OF Some] by (auto split: if_splits)
      qed
    qed
  qed
qed

definition twelve_bytes :: "nat list option \<Rightarrow> bool" where
  "twelve_bytes b \<longleftrightarrow> (\<forall>bs. b = Some bs \<longrightarrow> length bs = 12 \<and> (\<forall>x \<in> set bs. x < 256))"

lemma plain_ident_tok:
  assumes "length bs = 12" and "\<forall>b \<in> set bs. b < 256"
  shows "plain_ident (''tok_'' @ hexEncode bs)"
proof -
  have "list_all ident_char (hexEncode bs)"
    using set_hexEncode [OF assms(2)] lower_hex_ident by (auto simp: list_all_iff)
  then show ?thesis
    using assms(1) by (simp add: plain_ident_def ident_char_def is_alnum_def is_lower_def)
qed

lemma createToken_id_plain:
  assumes "sha256_ok E" and "twelve_bytes b" and "createToken_id E key b = Some tokenID"
  shows "plain_ident tokenID \<and> hasPrefix tokenID ''tok_''"
proof -
  obtain bs where bs: "tokenID = ''tok_'' @ hexEncode bs" "length bs = 12" "\<forall>b \<in> set bs. b < 256"
  proof (cases "key = []")
    case True
    then show ?thesis using assms(2,3) that by (auto simp: createToken_id_def twelve_bytes_def)
  next
    case False
    let ?bs = "take 12 (ge_sha256 E (''tgproxy-token-request:'' @ key))"
    have "length ?bs = 12" "\<forall>b \<in> set ?bs. b < 256"
      using assms(1) by (auto simp: sha256_ok_def dest: in_set_takeD)
    then show ?thesis using assms(3) False that [of ?bs] by (simp add: createToken_id_def)
  qed
  show ?thesis unfolding bs(1) using plain_ident_tok [OF bs(2,3)] hasPrefix_append by blast
qed

text \<open>The creation limit counts the accepted hashes, so a token with a new hash finds room.\<close>

lemma tokens_ok_add:
  assumes "tokens_ok E (cp_baseTokens c) (cp_state c)"
    and "hashes_ok E (cp_baseTokens c @ cs_AddedTokens (cp_state c))" and "length (allTokens E c) < 1024"
    and "canonical_hash (tk_Hash token)" and "plain_ident (tk_ID token)"
  shows "tokens_ok E (cp_baseTokens c) ((cp_state c)\<lparr>cs_AddedTokens := cs_AddedTokens (cp_state c) @ [token]\<rparr>)"
proof -
  let ?base = "set (token_hashes E (cp_baseTokens c))" and ?added = "set (token_hashes E (cs_AddedTokens (cp_state c)))"
  have "?added - ?base \<subseteq> active_hashes E c"
    using assms(1) by (auto simp: active_hashes_def tokens_ok_def token_hashes_def)
  then have "card (?added - ?base) < 1024"
    using assms(3) card_mono [of "active_hashes E c" "?added - ?base"]
    by (simp add: length_allTokens [OF assms(2)] active_hashes_def)
  moreover have "set (token_hashes E (cs_AddedTokens (cp_state c) @ [token])) - ?base
      \<subseteq> insert (tk_Hash token) (?added - ?base)"
    using assms(4) by (auto simp: token_hashes_def)
  then have "card (set (token_hashes E (cs_AddedTokens (cp_state c) @ [token])) - ?base)
      \<le> card (insert (tk_Hash token) (?added - ?base))"
    by (intro card_mono) simp_all
  moreover have "card (insert (tk_Hash token) (?added - ?base)) \<le> Suc (card (?added - ?base))"
    by (rule card_insert_le_m1) simp_all
  ultimately have "card (set (token_hashes E (cs_AddedTokens (cp_state c) @ [token])) - ?base) \<le> 1024" by simp
  then show ?thesis using assms by (auto simp: tokens_ok_def added_ok_def)
qed

lemma createToken_ok:
  assumes ok: "control_ok C cfg c disk" and path: "cp_statePath c \<noteq> []" and env: "goenv_ok (ce_go C)"
    and cfg: "owner_config (ce_go C) cfg" and ib: "twelve_bytes idBytes"
    and step: "createToken C c disk io name secret key secretBytes idBytes now = (c', disk', res)"
  shows "control_ok C cfg c' disk'"
proof (cases "cp_enabled c \<and> (\<exists>x. createToken_inputs name secret key secretBytes = Inr x
      \<and> createToken_id (ce_go C) (snd (snd x)) idBytes \<noteq> None)")
  case False
  then have "c' = c \<and> disk' = disk"
    using step by (auto simp: createToken_def split: sum.splits option.splits prod.splits if_splits)
  then show ?thesis using ok by simp
next
  case True
  then obtain cleanName raw cleanKey tokenID where
    i: "createToken_inputs name secret key secretBytes = Inr (cleanName, raw, cleanKey)"
      "createToken_id (ce_go C) cleanKey idBytes = Some tokenID" "cp_enabled c" by auto
  define token where "token = \<lparr>tk_ID = tokenID, tk_Name = cleanName, tk_Hash = TokenHash (ce_go C) raw, tk_CreatedAt = now\<rparr>"
  have "createToken_locked C c disk io cleanName raw cleanKey token = (c', disk', res)"
    using step i by (simp add: createToken_def token_def)
  then show ?thesis
  proof (cases rule: createToken_locked_cases)
    case (create c1 fl)
    let ?s = "(cp_state c)\<lparr>cs_AddedTokens := cs_AddedTokens (cp_state c) @ [token]\<rparr>"
    have base: "cp_baseTokens c = cf_Tokens cfg" using control_okD(1) [OF ok] by (simp add: settings_ok_def)
    have "canonical_hash (tk_Hash token)" "plain_ident (tk_ID token)"
      using env createToken_id_plain [OF _ ib i(2)]
      by (simp_all add: token_def canonical_TokenHash goenv_ok_def)
    then have "tokens_ok (ce_go C) (cf_Tokens cfg) ?s"
      using tokens_ok_add [OF _ hashes_ok_control [OF ok cfg] create(2), of token] control_okD(6) [OF ok]
      by (simp add: base)
    moreover have "devices_ok (ce_go C) ?s" using control_okD(7) [OF ok] by (simp add: devices_ok_def)
    ultimately have new: "state_ok (ce_go C) cfg ?s"
      using control_okD(2) [OF ok] by (simp add: state_ok_def)
    note m = critical_mutation [OF ok path new create(1)]
    show ?thesis
    proof (cases fl)
      case True
      have "cp_state c' = cp_state c" "c' = c1\<lparr>cp_state := cp_state c\<rparr>"
        using m(2) [OF True] create(4) [OF True] by simp_all
      then show ?thesis using m(1) [OF True same_maps_refl control_okD(2) [OF ok]] by simp
    next
      case False
      then show ?thesis using m(3) create(5) by simp
    qed
  qed (use ok in simp_all)
qed

end
