(* ===== verification/Control_Owner.thy ===== *)
theory Control_Owner
  imports Control_Tokens
begin

text \<open>
  Deleting a token and blocking a device: their effect, their failure, and that they keep the
  invariant.
\<close>

section \<open>Deleting a token\<close>

definition delete_room :: "goenv \<Rightarrow> controlPlane \<Rightarrow> string \<Rightarrow> string \<Rightarrow> bool" where
  "delete_room E c h tokenID \<longleftrightarrow>
     \<not> (revokes E c h \<and> length (cs_RevokedHashes (cp_state c)) \<ge> 2048)
     \<and> \<not> (buries c tokenID \<and> length (cs_DeletedTokenIDs (cp_state c)) \<ge> 2048)"

lemma deleteToken_cases:
  assumes "deleteToken C c disk io tokenID = (c', disk', e, closers)"
  obtains (none) err where "c' = c" "disk' = disk" "e = Some err" "closers = []"
    | (delete) u c1 fl where
        "u \<in> set (allTokens (ce_go C) c)" "StableTokenID (ce_go C) u = trimSpace tokenID"
        "delete_room (ce_go C) c (normalizeHash (ce_go C) (tk_Hash u)) (trimSpace tokenID)"
        "persistCriticalLocked C (c\<lparr>cp_state := deleted_state (ce_go C) c (normalizeHash (ce_go C) (tk_Hash u)) (trimSpace tokenID)\<rparr>)
           disk io = (c1, disk', fl)"
        "fl \<Longrightarrow> c' = c1\<lparr>cp_state := (cp_state c)\<lparr>cs_Version := cs_Version (cp_state c1)\<rparr>\<rparr> \<and> e = Some ErrIO \<and> closers = []"
        "\<not> fl \<Longrightarrow> c' = c1 \<and> e = None
           \<and> closers = session_closers (\<lambda>_. True) (mget [] (cp_active c1) (trimSpace tokenID))"
proof (cases "find (\<lambda>token. StableTokenID (ce_go C) token = trimSpace tokenID) (allTokens (ce_go C) c)")
  case None
  then show ?thesis using assms none by (auto simp: deleteToken_def Let_def split: if_splits)
next
  case (Some u)
  let ?h = "normalizeHash (ce_go C) (tk_Hash u)" and ?id = "trimSpace tokenID"
  obtain c1 d1 fl where p: "persistCriticalLocked C (c\<lparr>cp_state := deleted_state (ce_go C) c ?h ?id\<rparr>) disk io = (c1, d1, fl)"
    by (metis prod_cases3)
  let ?R = "revokes (ce_go C) c ?h \<and> length (cs_RevokedHashes (cp_state c)) \<ge> 2048"
  let ?B = "buries c ?id \<and> length (cs_DeletedTokenIDs (cp_state c)) \<ge> 2048"
  let ?P = "case persistCriticalLocked C (c\<lparr>cp_state := deleted_state (ce_go C) c ?h ?id\<rparr>) disk io of
      (c', disk', True) \<Rightarrow>
        (c'\<lparr>cp_state := (cp_state c)\<lparr>cs_Version := cs_Version (cp_state c')\<rparr>\<rparr>, disk', Some ErrIO, [])
    | (c', disk', False) \<Rightarrow> (c', disk', None, session_closers (\<lambda>_. True) (mget [] (cp_active c') ?id))"
  have def: "(c', disk', e, closers) =
      (if ?id = [] then (c, disk, Some (ErrText ''token id is required''), [])
       else if ?R then (c, disk, Some (ErrText ''too many persisted token revocations''), [])
       else if ?B then (c, disk, Some (ErrText ''too many persisted deleted token ids''), []) else ?P)"
    using assms [symmetric] unfolding deleteToken_def Let_def Some option.case .
  consider "?id = []" | "?id \<noteq> []" ?R | "?id \<noteq> []" "\<not> ?R" ?B | "?id \<noteq> []" "\<not> ?R" "\<not> ?B" by blast
  then show ?thesis
  proof cases
    case 1
    then show ?thesis using def by (intro none) simp_all
  next
    case 2
    then have "(c', disk', e, closers) = (c, disk, Some (ErrText ''too many persisted token revocations''), [])"
      using def by (simp only: if_True if_False simp_thms)
    then show ?thesis by (intro none) simp_all
  next
    case 3
    then have "(c', disk', e, closers) = (c, disk, Some (ErrText ''too many persisted deleted token ids''), [])"
      using def by (simp only: if_True if_False simp_thms)
    then show ?thesis by (intro none) simp_all
  next
    case 4
    then have "(c', disk', e, closers) = ?P"
      using def by (simp only: if_True if_False simp_thms)
    moreover have "delete_room (ce_go C) c ?h ?id" using 4(2,3) by (simp only: delete_room_def simp_thms)
    ultimately show ?thesis
      using delete [of u c1 fl] find_SomeD [OF Some] p by (cases fl) auto
  qed
qed

lemma removeTokenClients_tokens [simp]:
  "cs_Version (removeTokenClients i s) = cs_Version s" "cs_InstanceID (removeTokenClients i s) = cs_InstanceID s"
  "cs_AddedTokens (removeTokenClients i s) = cs_AddedTokens s"
  "cs_RevokedHashes (removeTokenClients i s) = cs_RevokedHashes s"
  "cs_DeletedTokenIDs (removeTokenClients i s) = cs_DeletedTokenIDs s"
  by (simp_all add: removeTokenClients_def Let_def)

lemma deleted_tokens_ok:
  assumes t: "tokens_ok E (cp_baseTokens c) (cp_state c)" and h: "canonical_hash h" and i: "plain_ident tokenID"
    and room: "delete_room E c h tokenID"
  shows "tokens_ok E (cp_baseTokens c) (deleted_state E c h tokenID)"
proof -
  let ?s = "cp_state c" and ?s' = "deleted_state E c h tokenID" and ?base = "token_hashes E (cp_baseTokens c)"
  have d: "cs_AddedTokens ?s' = filter (\<lambda>token. normalizeHash E (tk_Hash token) \<noteq> h) (cs_AddedTokens ?s)"
    "set (cs_RevokedHashes ?s') \<subseteq> insert h (set (cs_RevokedHashes ?s)) \<inter> set ?base"
    "set (cs_DeletedTokenIDs ?s') \<subseteq> insert tokenID (set (cs_DeletedTokenIDs ?s))"
    "tokenID \<in> set (cs_DeletedTokenIDs ?s') \<Longrightarrow> tokenID \<notin> set (cs_DeletedTokenIDs ?s) \<Longrightarrow> hasPrefix tokenID ''tok_''"
    "length (cs_RevokedHashes ?s') \<le> 2048" "length (cs_DeletedTokenIDs ?s') \<le> 2048"
    using t room
    by (auto simp: deleted_state_def Let_def delete_room_def buries_def revokes_def tokens_ok_def token_hashes_def
        list_ex_iff split: if_splits)
  have "set (token_hashes E (cs_AddedTokens ?s')) - set ?base \<subseteq> set (token_hashes E (cs_AddedTokens ?s)) - set ?base"
    unfolding d(1) by (auto simp: token_hashes_def)
  then have "card (set (token_hashes E (cs_AddedTokens ?s')) - set ?base)
      \<le> card (set (token_hashes E (cs_AddedTokens ?s)) - set ?base)"
    by (intro card_mono) simp_all
  then have "card (set (token_hashes E (cs_AddedTokens ?s')) - set ?base) \<le> 1024"
    using t unfolding tokens_ok_def by linarith
  moreover have "\<forall>u \<in> set (cs_AddedTokens ?s'). added_ok u"
    using t unfolding d(1) by (auto simp: tokens_ok_def)
  moreover have "\<forall>x \<in> set (cs_RevokedHashes ?s'). canonical_hash x"
    using t d(2) h by (auto simp: tokens_ok_def)
  moreover have "\<forall>x \<in> set (cs_DeletedTokenIDs ?s'). plain_ident x \<and> hasPrefix x ''tok_''"
    using t d(3,4) i unfolding tokens_ok_def by blast
  ultimately show ?thesis using d(2,5,6) by (simp add: tokens_ok_def)
qed

lemma listed_token_facts:
  assumes "hashes_ok E (cp_baseTokens c @ cs_AddedTokens (cp_state c))" and "u \<in> set (allTokens E c)"
  shows "canonical_hash (tk_Hash u)" and "plain_ident (StableTokenID E u)"
proof -
  show "canonical_hash (tk_Hash u)"
    using active_hash_canonical [OF assms(1)] assms(2) active_hashes_allTokens [OF assms(1)] by blast
  then show "plain_ident (StableTokenID E u)" by (intro StableTokenID_plain_ident) simp
qed

lemma devices_ok_cong:
  "cs_Clients s' = cs_Clients s \<Longrightarrow> cs_BlockedDevices s' = cs_BlockedDevices s \<Longrightarrow> devices_ok E s' = devices_ok E s"
  by (simp add: devices_ok_def)

lemma deleteToken_new_state:
  assumes ok: "control_ok C cfg c disk" and times: "times_ok (ce_go C)" and cfg: "owner_config (ce_go C) cfg"
    and u: "u \<in> set (allTokens (ce_go C) c)" "StableTokenID (ce_go C) u = i"
    and room: "delete_room (ce_go C) c (normalizeHash (ce_go C) (tk_Hash u)) i"
  shows "state_ok (ce_go C) cfg (deleted_state (ce_go C) c (normalizeHash (ce_go C) (tk_Hash u)) i)"
proof -
  let ?h = "normalizeHash (ce_go C) (tk_Hash u)"
  note f = listed_token_facts [OF hashes_ok_control [OF ok cfg] u(1)]
  have "tokens_ok (ce_go C) (cf_Tokens cfg) (deleted_state (ce_go C) c ?h i)"
    using deleted_tokens_ok [of "ce_go C" c ?h i] control_okD(1,6) [OF ok] f u(2) room by (simp add: settings_ok_def)
  moreover have "devices_ok (ce_go C) (deleted_state (ce_go C) c ?h i)"
    unfolding deleted_state_def Let_def
    by (rule devices_ok_removeTokenClients [OF times]) (use control_okD(7) [OF ok] in \<open>simp add: devices_ok_def\<close>)
  ultimately show ?thesis
    using control_okD(2) [OF ok] by (simp add: state_ok_def deleted_state_def Let_def)
qed

lemma deleteToken_ok:
  assumes ok: "control_ok C cfg c disk" and path: "cp_statePath c \<noteq> []" and times: "times_ok (ce_go C)"
    and cfg: "owner_config (ce_go C) cfg"
    and step: "deleteToken C c disk io tokenID = (c', disk', e, closers)"
  shows "control_ok C cfg c' disk'"
  using step
proof (cases rule: deleteToken_cases)
  case (delete u c1 fl)
  note m = critical_mutation [OF ok path deleteToken_new_state [OF ok times cfg delete(1-3)] delete(4)]
  show ?thesis
  proof (cases fl)
    case True
    have "(cp_state c)\<lparr>cs_Version := cs_Version (cp_state c1)\<rparr> = cp_state c"
      using m(2) [OF True] by (simp add: deleted_state_def Let_def)
    then show ?thesis
      using m(1) [OF True same_maps_refl control_okD(2) [OF ok]] delete(5) [OF True] by simp
  next
    case False
    then show ?thesis using m(3) delete(6) by simp
  qed
qed (use ok in simp)

section \<open>Blocking a device\<close>

definition unblocked_state :: "controlPlane \<Rightarrow> string \<Rightarrow> bool \<Rightarrow> string \<Rightarrow> controlState" where
  "unblocked_state c key blocked now =
     (cp_state c)\<lparr>cs_BlockedDevices :=
        restore_block c key (cs_BlockedDevices (blocked_state c key blocked now))\<rparr>"

lemma unblocked_same_maps:
  "same_maps (cp_state c) (unblocked_state c key blocked now)"
  by (auto simp: same_maps_def unblocked_state_def blocked_state_def restore_block_def fun_upd_idem split: option.splits)

lemma setDeviceBlocked_cases:
  assumes "setDeviceBlocked C c disk io t d blocked now = (c', disk', e, closers)"
  obtains (none) err where "c' = c" "disk' = disk" "e = Some err" "closers = []"
    | (block) key c1 fl where
        "deviceKey t d = Inr key" "mhas (cs_Clients (cp_state c)) key"
        "persistCriticalLocked C (c\<lparr>cp_state := blocked_state c key blocked now\<rparr>) disk io = (c1, disk', fl)"
        "fl \<Longrightarrow> c' = c1\<lparr>cp_state := (cp_state c1)\<lparr>cs_BlockedDevices :=
             restore_block c key (cs_BlockedDevices (cp_state c1))\<rparr>\<rparr>
           \<and> e = Some ErrIO \<and> closers = []"
        "\<not> fl \<Longrightarrow> c' = c1 \<and> e = None \<and> closers = (if blocked then deviceClosers c1 key else [])"
proof (cases "deviceKey t d")
  case (Inl err)
  then show ?thesis using assms by (intro none [of err]) (simp_all add: setDeviceBlocked_def)
next
  case (Inr key)
  obtain c1 d1 fl where p: "persistCriticalLocked C (c\<lparr>cp_state := blocked_state c key blocked now\<rparr>) disk io = (c1, d1, fl)"
    by (metis prod_cases3)
  show ?thesis
  proof (cases "mhas (cs_Clients (cp_state c)) key")
    case False
    then show ?thesis using assms Inr by (intro none [of ErrNotExist]) (simp_all add: setDeviceBlocked_def)
  next
    case True
    have "(c', disk', e, closers) =
        (if fl then (c1\<lparr>cp_state := (cp_state c1)\<lparr>cs_BlockedDevices :=
             restore_block c key (cs_BlockedDevices (cp_state c1))\<rparr>\<rparr>, d1, Some ErrIO, [])
         else (c1, d1, None, if blocked then deviceClosers c1 key else []))"
      using assms [symmetric] True unfolding setDeviceBlocked_def Inr sum.case p prod.case
      by (cases fl) simp_all
    then show ?thesis
      using p True by (intro block [of key c1 fl] Inr) (simp_all split: if_splits)
  qed
qed

lemma setDeviceBlocked_ok:
  assumes ok: "control_ok C cfg c disk" and path: "cp_statePath c \<noteq> []"
    and now: "rfc_text (ce_go C) now"
    and step: "setDeviceBlocked C c disk io t d blocked now = (c', disk', e, closers)"
  shows "control_ok C cfg c' disk'"
  using step
proof (cases rule: setDeviceBlocked_cases)
  case (block key c1 fl)
  let ?s = "blocked_state c key blocked now" and ?u = "unblocked_state c key blocked now"
  note k = control_okD(2) [OF ok] and b = devices_okD(2) [OF control_okD(7) [OF ok]]
  have "blocked_ok (ce_go C) (cs_Clients (cp_state c)) (cs_BlockedDevices ?s)"
    using blocked_ok_set [OF b block(2) now] blocked_ok_del [OF b] by (simp add: blocked_state_def)
  then have new: "state_ok (ce_go C) cfg ?s"
    using k by (simp add: state_ok_def blocked_state_def devices_ok_def tokens_ok_def)
  note m = critical_mutation [OF ok path new block(3)]
  show ?thesis
  proof (cases fl)
    case True
    have "c' = c1\<lparr>cp_state := ?u\<rparr>"
      using m(2) [OF True] block(4) [OF True] by (simp add: blocked_state_def unblocked_state_def)
    moreover have "state_ok (ce_go C) cfg ?u"
      using k same_maps_state [OF control_okD(7) [OF ok] unblocked_same_maps] by (blast intro: state_ok_same)
    ultimately show ?thesis using m(1) [OF True unblocked_same_maps] by simp
  next
    case False
    then show ?thesis using m(3) block(5) by simp
  qed
qed (use ok in simp)

end
