(* ===== verification/Control_Runs.thy ===== *)
theory Control_Runs
  imports Control_Owner
begin

text \<open>
  The control plane as a transition system: one step per operation, with any outcome of the file
  system, the clock and the random generator, and a restart at any moment from the file as it is.
  \<open>invariant_system\<close> is interpreted on it.
\<close>

definition file_of :: "string option \<Rightarrow> readFile" where
  "file_of disk = (case disk of None \<Rightarrow> FileAbsent | Some d \<Rightarrow> FileData d)"

definition sixteen_bytes :: "nat list option \<Rightarrow> bool" where
  "sixteen_bytes b \<longleftrightarrow> (\<forall>bs. b = Some bs \<longrightarrow> length bs = 16 \<and> (\<forall>x \<in> set bs. x < 256))"

text \<open>What a run assumes of the libraries and of the accepted configuration.\<close>

definition control_env :: "controlenv \<Rightarrow> Config \<Rightarrow> bool" where
  "control_env C cfg \<longleftrightarrow>
     codec_ok C \<and> goenv_ok (ce_go C) \<and> times_ok (ce_go C) \<and> owner_config (ce_go C) cfg"

type_synonym world = "controlPlane \<times> string option"

definition control_init :: "controlenv \<Rightarrow> Config \<Rightarrow> world \<Rightarrow> bool" where
  "control_init C cfg w \<longleftrightarrow>
     control_env C cfg \<and> snd w = None
     \<and> (\<exists>raw. sixteen_bytes raw \<and> newControlPlane C cfg FileAbsent raw = Inr (fst w))"

inductive control_step :: "controlenv \<Rightarrow> Config \<Rightarrow> world \<Rightarrow> world \<Rightarrow> bool" for C cfg where
  step_prepare: "prepareIdentity C c disk io = (c', disk', e) \<Longrightarrow> control_step C cfg (c, disk) (c', disk')"
| step_create: "createToken C c disk io name secret key sb ib now = (c', disk', res) \<Longrightarrow> twelve_bytes ib \<Longrightarrow>
    control_step C cfg (c, disk) (c', disk')"
| step_delete: "deleteToken C c disk io tokenID = (c', disk', e, closers) \<Longrightarrow> control_step C cfg (c, disk) (c', disk')"
| step_block: "setDeviceBlocked C c disk io t d b now = (c', disk', e, closers) \<Longrightarrow> rfc_text (ce_go C) now \<Longrightarrow>
    control_step C cfg (c, disk) (c', disk')"
| step_register: "authorizeClient (ce_go C) c0 header = Some token \<Longrightarrow>
    registerSession (ce_go C) c token r cl now nowT = (c', h, ok, lookup) \<Longrightarrow>
    control_step C cfg (c, disk) (c', disk)"
| step_unregister: "unregister c h now = (c', h') \<Longrightarrow> control_step C cfg (c, disk) (c', disk)"
| step_cached: "resolveLocation_cached c k ip nowT = (c', b) \<Longrightarrow> control_step C cfg (c, disk) (c', disk)"
| step_store: "control_step C cfg (c, disk) (resolveLocation_store c k ip answer nowT, disk)"
| step_done: "control_step C cfg (c, disk) (resolveLocation_done c ip, disk)"
| step_flush: "flushClientState C c disk io = (c', disk') \<Longrightarrow> control_step C cfg (c, disk) (c', disk')"
| step_shutdown: "control_step C cfg (c, disk) (fst (shutdown_begin c), disk)"
| step_finish: "cp_shuttingDown c \<Longrightarrow> shutdown_finish C c disk io = (c', disk', e) \<Longrightarrow>
    control_step C cfg (c, disk) (c', disk')"
| step_restart: "newControlPlane C cfg (file_of disk) raw = Inr c' \<Longrightarrow> sixteen_bytes raw \<Longrightarrow>
    control_step C cfg (c, disk) (c', disk)"

definition control_inv :: "controlenv \<Rightarrow> Config \<Rightarrow> world \<Rightarrow> bool" where
  "control_inv C cfg w \<longleftrightarrow> control_env C cfg \<and> control_ok C cfg (fst w) (snd w)"

section \<open>Starting\<close>

lemma generateInstanceID_valid:
  assumes "sixteen_bytes raw" and "generateInstanceID raw = Some i"
  shows "ValidInstanceID i \<and> list_all plain_char i"
proof -
  obtain bs where bs: "i = ''ri_'' @ hexEncode bs" "length bs = 16" "\<forall>b \<in> set bs. b < 256"
    using assms by (auto simp: generateInstanceID_def sixteen_bytes_def)
  have hex: "list_all is_lower_hex (hexEncode bs)"
    using set_hexEncode [OF bs(3)] by (auto simp: list_all_iff)
  then have plain: "list_all plain_char i"
    unfolding bs(1) using lower_hex_plain by (auto simp: list_all_iff plain_char_def)
  then have "trimSpace i = i" by (auto intro!: trimSpace_all_plain simp: list_all_iff)
  moreover have "trimPrefix i ''ri_'' = hexEncode bs" "hasPrefix i ''ri_''"
    unfolding bs(1) by (rule trimPrefix_append, rule hasPrefix_append)
  ultimately show ?thesis using plain hex bs(2) by (simp add: ValidInstanceID_def)
qed

lemma same_resolver: "\<exists>res. c = c\<lparr>cp_resolver := res\<rparr>"
  by (rule exI [of _ "cp_resolver c"]) simp

lemma finishControlPlane_cases:
  assumes "finishControlPlane cfg raw c = Inr c'" and "sixteen_bytes raw" and "owner_config E cfg"
    and "cs_InstanceID (cp_state c) = []"
  shows "\<exists>i res. c' = c\<lparr>cp_state := (cp_state c)\<lparr>cs_InstanceID := i\<rparr>, cp_resolver := res\<rparr>
    \<and> instance_ok (trimSpace (cf_InstanceID cfg)) i"
proof (cases "trimSpace (cf_InstanceID cfg) = []")
  case True
  then obtain i where i: "generateInstanceID raw = Some i"
    using assms(1,4) by (auto simp: finishControlPlane_def Let_def split: option.splits)
  then have v: "ValidInstanceID i \<and> list_all plain_char i" by (rule generateInstanceID_valid [OF assms(2)])
  then have "\<exists>res. c' = c\<lparr>cp_state := (cp_state c)\<lparr>cs_InstanceID := i\<rparr>, cp_resolver := res\<rparr>"
    using assms(1,4) True i same_resolver [of "c\<lparr>cp_state := (cp_state c)\<lparr>cs_InstanceID := i\<rparr>\<rparr>"]
    by (cases "trimSpace (ac_GeoIPURL (cf_Admin cfg)) = []") (auto simp: finishControlPlane_def Let_def)
  then show ?thesis using v True by (auto simp: instance_ok_def)
next
  case False
  then have "\<exists>res. c' = c\<lparr>cp_state := (cp_state c)\<lparr>cs_InstanceID := trimSpace (cf_InstanceID cfg)\<rparr>, cp_resolver := res\<rparr>"
    using assms(1,4) False
      same_resolver [of "c\<lparr>cp_state := (cp_state c)\<lparr>cs_InstanceID := trimSpace (cf_InstanceID cfg)\<rparr>\<rparr>"]
    by (cases "trimSpace (ac_GeoIPURL (cf_Admin cfg)) = []") (auto simp: finishControlPlane_def Let_def)
  then show ?thesis using False assms(3) by (auto simp: instance_ok_def owner_config_def)
qed

lemma empty_state_ok:
  assumes "owner_config E cfg" and "instance_ok (trimSpace (cf_InstanceID cfg)) i"
  shows "state_ok E cfg (emptyState\<lparr>cs_InstanceID := i\<rparr>)"
  using assms
  by (simp add: state_ok_def emptyState_def tokens_ok_def token_hashes_def devices_ok_def clients_ok_def blocked_ok_def owner_config_def)

lemma fresh_start_ok:
  assumes "control_env C cfg" and "sixteen_bytes raw" and "newControlPlane C cfg FileAbsent raw = Inr c"
  shows "control_ok C cfg c None"
proof -
  have cfg: "owner_config (ce_go C) cfg" using assms(1) by (simp add: control_env_def)
  have "validateStateAgainstConfig (ce_go C) (freshControlPlane cfg) = None"
    using cfg by (simp add: validateStateAgainstConfig_def validateState_loop_None owner_config_def
        freshControlPlane_def emptyState_def)
  then have "finishControlPlane cfg raw (freshControlPlane cfg) = Inr c"
    using assms(3) cfg by (simp add: newControlPlane_def load_def cp_enabled_def owner_config_def freshControlPlane_def)
  from finishControlPlane_cases [OF this assms(2) cfg] obtain i res where
    "c = (freshControlPlane cfg)\<lparr>cp_state := emptyState\<lparr>cs_InstanceID := i\<rparr>, cp_resolver := res\<rparr>"
    "instance_ok (trimSpace (cf_InstanceID cfg)) i"
    by (auto simp: freshControlPlane_def emptyState_def)
  then show ?thesis
    using empty_state_ok [OF cfg] by (simp add: control_ok_def settings_ok_def flush_ok_def file_ok_def freshControlPlane_def)
qed

lemma restart_ok:
  assumes env: "control_env C cfg" and raw: "sixteen_bytes raw" and ok: "control_ok C cfg c disk"
    and new: "newControlPlane C cfg (file_of disk) raw = Inr c'"
  shows "control_ok C cfg c' disk"
proof (cases disk)
  case None
  then show ?thesis using fresh_start_ok [OF env raw] new by (simp add: file_of_def)
next
  case (Some d)
  have cfg: "owner_config (ce_go C) cfg" using env by (simp add: control_env_def)
  obtain s where s: "ce_marshalState C s = Some d" "state_ok (ce_go C) cfg s"
    using control_okD(3) [OF ok] Some by (auto simp: file_ok_def)
  have en: "cp_enabled (freshControlPlane cfg) \<and> cp_statePath (freshControlPlane cfg) \<noteq> []"
    using cfg by (simp add: cp_enabled_def freshControlPlane_def owner_config_def)
  have codec: "codec_ok C" using env by (simp add: control_env_def)
  have u: "unambiguous (ce_go C) (cf_Tokens cfg @ cs_AddedTokens s)"
    using restart_unambiguous [OF codec state_ok_structural [OF s(2)] s(1) cfg] new Some by (simp add: file_of_def)
  have "length d \<le> 8 * 1024 * 1024"
  proof (rule ccontr)
    assume "\<not> length d \<le> 8 * 1024 * 1024"
    then show False using new en Some by (simp add: newControlPlane_def load_def file_of_def)
  qed
  then obtain s' res where s': "newControlPlane C cfg (FileData d) raw =
      Inr ((freshControlPlane cfg)\<lparr>cp_state := s', cp_resolver := res\<rparr>)" "same_state s s'" "state_ok (ce_go C) cfg s'"
    using restart_accepts [OF codec s(2,1) _ cfg u, of raw] by blast
  then have "c' = (freshControlPlane cfg)\<lparr>cp_state := s', cp_resolver := res\<rparr>"
    using new Some by (simp add: file_of_def)
  then show ?thesis
    using s s'(2,3) same_stateD(2) [OF s'(2)] same_tokens_state [OF s'(2)] Some
    by (auto simp: control_ok_def settings_ok_def flush_ok_def file_ok_def freshControlPlane_def)
qed

section \<open>Every step keeps the invariant\<close>

lemma control_step_inv:
  assumes "control_inv C cfg w" and "control_step C cfg w w'"
  shows "control_inv C cfg w'"
proof -
  obtain c disk where w: "w = (c, disk)" by (cases w)
  have env: "control_env C cfg" and ok: "control_ok C cfg c disk"
    using assms(1) by (simp_all add: control_inv_def w)
  then have cfg: "owner_config (ce_go C) cfg" and times: "times_ok (ce_go C)" and go: "goenv_ok (ce_go C)"
    by (simp_all add: control_env_def)
  have path: "cp_statePath c \<noteq> []"
    using control_okD(1) [OF ok] cfg by (simp add: settings_ok_def owner_config_def)
  from assms(2) have "control_ok C cfg (fst w') (snd w')"
    unfolding w
  proof cases
    case step_create
    then show ?thesis using createToken_ok [OF ok path go cfg] by simp
  next
    case step_delete
    then show ?thesis using deleteToken_ok [OF ok path times cfg] by simp
  next
    case step_block
    then show ?thesis using setDeviceBlocked_ok [OF ok path] by simp
  next
    case step_register
    then show ?thesis using registerSession_ok [OF ok path times go] by simp
  next
    case step_restart
    then show ?thesis using restart_ok [OF env _ ok] by simp
  qed (use ok path in \<open>auto intro: prepareIdentity_ok unregister_ok resolveLocation_cached_ok
      resolveLocation_store_ok resolveLocation_done_ok flushClientState_ok shutdown_begin_ok shutdown_finish_ok\<close>)
  then show ?thesis using env by (simp add: control_inv_def)
qed

interpretation control: invariant_system "control_init C cfg" "control_step C cfg" "control_inv C cfg" for C cfg
proof
  show "control_inv C cfg w" if "control_init C cfg w" for w
    using that fresh_start_ok by (cases w) (auto simp: control_init_def control_inv_def)
  show "control_inv C cfg w'" if "control_inv C cfg w" "control_step C cfg w w'" for w w'
    using that by (rule control_step_inv)
qed

text \<open>What a reachable world offers to the properties.\<close>

lemma reachable_control:
  assumes "reachable (control_init C cfg) (control_step C cfg) (c, disk)"
  shows "control_ok C cfg c disk" and "control_env C cfg"
    and "hashes_ok (ce_go C) (cp_baseTokens c @ cs_AddedTokens (cp_state c))"
    and "cp_statePath c \<noteq> []" and "cp_enabled c"
proof -
  have "control_inv C cfg (c, disk)" using assms by (rule control.inv_reachable)
  then show ok: "control_ok C cfg c disk" "control_env C cfg" by (simp_all add: control_inv_def)
  then have cfg: "owner_config (ce_go C) cfg" by (simp add: control_env_def)
  show "hashes_ok (ce_go C) (cp_baseTokens c @ cs_AddedTokens (cp_state c))"
    by (rule hashes_ok_control [OF ok(1) cfg])
  show "cp_statePath c \<noteq> []" "cp_enabled c"
    using control_okD(1) [OF ok(1)] cfg by (simp_all add: settings_ok_def owner_config_def cp_enabled_def)
qed

end
