(* ===== verification/Control_Props.thy ===== *)
theory Control_Props
  imports Control_Runs
begin

text \<open>
  Properties of the owner control plane: restarts, authorisation, and the token operations as
  operations on the set of accepted hashes.
\<close>

section \<open>Restarting\<close>

lemma active_hashes_same:
  assumes "same_tokens s (cp_state c)" and "same_tokens s (cp_state c')" and "cp_baseTokens c' = cp_baseTokens c"
  shows "active_hashes E c' = active_hashes E c"
proof -
  have "token_hashes E (cs_AddedTokens (cp_state c)) = token_hashes E (cs_AddedTokens s)"
    "token_hashes E (cs_AddedTokens (cp_state c')) = token_hashes E (cs_AddedTokens s)"
    using assms(1,2) by (simp_all add: same_tokens_def same_token_hashes)
  then show ?thesis
    using assms unfolding active_hashes_def by (simp add: same_tokens_def token_hashes_def)
qed

text \<open>What the next start makes of the state file, from any reachable state.\<close>

lemma restart_state:
  assumes "reachable (control_init C cfg) (control_step C cfg) (c, Some d)" and "length d \<le> 8 * 1024 * 1024"
    and "unambiguous (ce_go C) (cp_baseTokens c @ cs_AddedTokens (cp_state c))"
  shows "\<exists>c'. newControlPlane C cfg (FileData d) raw = Inr c'
    \<and> cs_InstanceID (cp_state c') = cs_InstanceID (cp_state c)
    \<and> active_hashes (ce_go C) c' = active_hashes (ce_go C) c
    \<and> cs_DeletedTokenIDs (cp_state c') = cs_DeletedTokenIDs (cp_state c)
    \<and> (\<not> cp_clientDirty c \<longrightarrow>
         map_of (cs_BlockedDevices (cp_state c')) = map_of (cs_BlockedDevices (cp_state c))
         \<and> dom (map_of (cs_Clients (cp_state c'))) = dom (map_of (cs_Clients (cp_state c))))"
proof -
  note r = reachable_control [OF assms(1)]
  then have env: "codec_ok C" "owner_config (ce_go C) cfg" by (simp_all add: control_env_def)
  have base: "cp_baseTokens c = cf_Tokens cfg" using control_okD(1) [OF r(1)] by (simp add: settings_ok_def)
  obtain s where s: "ce_marshalState C s = Some d" "state_ok (ce_go C) cfg s"
    "cs_InstanceID s = cs_InstanceID (cp_state c)" "same_tokens s (cp_state c)"
    "cp_clientDirty c \<or> same_state s (cp_state c)"
    using control_okD(3) [OF r(1)] by (auto simp: file_ok_def)
  have "unambiguous (ce_go C) (cf_Tokens cfg @ cs_AddedTokens s)"
    using assms(3) same_tokens_unambiguous [OF s(4)] by (simp add: base)
  then obtain s' res where s': "newControlPlane C cfg (FileData d) raw =
      Inr ((freshControlPlane cfg)\<lparr>cp_state := s', cp_resolver := res\<rparr>)" "same_state s s'"
    using restart_accepts [OF env(1) s(2,1) assms(2) env(2)] by blast
  let ?c = "(freshControlPlane cfg)\<lparr>cp_state := s', cp_resolver := res\<rparr>"
  have "active_hashes (ce_go C) ?c = active_hashes (ce_go C) c"
    using s(4) same_tokens_state [OF s'(2)] base
    by (intro active_hashes_same [of s]) (simp_all add: freshControlPlane_def)
  moreover have "cs_DeletedTokenIDs s' = cs_DeletedTokenIDs (cp_state c)"
    using s(4) same_stateD(5) [OF s'(2)] by (simp add: same_tokens_def)
  moreover have "cs_InstanceID s' = cs_InstanceID (cp_state c)"
    using s(3) same_stateD(2) [OF s'(2)] by simp
  moreover have "map_of (cs_BlockedDevices s') = map_of (cs_BlockedDevices (cp_state c))
      \<and> dom (map_of (cs_Clients s')) = dom (map_of (cs_Clients (cp_state c)))" if "\<not> cp_clientDirty c"
    using that s(5) same_stateD(8) [OF s'(2)] same_stateD(8) client_dom [OF s'(2)] client_dom by auto
  ultimately show ?thesis using s'(1) by (intro exI [of _ ?c]) simp
qed

lemma restart_refused:
  assumes "reachable (control_init C cfg) (control_step C cfg) (c, Some d)"
    and "\<not> unambiguous (ce_go C) (cp_baseTokens c @ cs_AddedTokens (cp_state c))"
  shows "\<exists>e. newControlPlane C cfg (FileData d) raw = Inl e"
proof (cases "newControlPlane C cfg (FileData d) raw")
  case (Inr c')
  note r = reachable_control [OF assms(1)]
  have env: "codec_ok C" "owner_config (ce_go C) cfg" using r(2) by (simp_all add: control_env_def)
  have base: "cp_baseTokens c = cf_Tokens cfg" using control_okD(1) [OF r(1)] by (simp add: settings_ok_def)
  obtain s where s: "ce_marshalState C s = Some d" "state_ok (ce_go C) cfg s" "same_tokens s (cp_state c)"
    using control_okD(3) [OF r(1)] by (auto simp: file_ok_def)
  have "unambiguous (ce_go C) (cf_Tokens cfg @ cs_AddedTokens s)"
    using restart_unambiguous [OF env(1) state_ok_structural [OF s(2)] s(1) env(2) Inr] .
  then show ?thesis using assms(2) same_tokens_unambiguous [OF s(3)] by (simp add: base)
qed simp

text \<open>
  C4. What the next start makes of the state file. Whatever operations ran (creations with known secrets
  included), whichever of them failed, and wherever the process stopped: a state file of at most 8 MiB is
  accepted by the next start exactly when no two of the configured and added tokens share a hash or an
  identifier. It then has the same identity and accepts exactly the same client tokens; if no client data
  was waiting to be written it has the same devices and blocks too.
\<close>

theorem restart_succeeds:
  assumes "reachable (control_init C cfg) (control_step C cfg) (c, Some d)" and "length d \<le> 8 * 1024 * 1024"
  shows "if distinct (map (\<lambda>t. normalizeHash (ce_go C) (tk_Hash t)) (cp_baseTokens c @ cs_AddedTokens (cp_state c)))
      \<and> distinct (map (StableTokenID (ce_go C)) (cp_baseTokens c @ cs_AddedTokens (cp_state c)))
    then \<exists>c'. newControlPlane C cfg (FileData d) raw = Inr c'
    \<and> cs_InstanceID (cp_state c') = cs_InstanceID (cp_state c)
    \<and> active_hashes (ce_go C) c' = active_hashes (ce_go C) c
    \<and> cs_DeletedTokenIDs (cp_state c') = cs_DeletedTokenIDs (cp_state c)
    \<and> (\<not> cp_clientDirty c \<longrightarrow>
         map_of (cs_BlockedDevices (cp_state c')) = map_of (cs_BlockedDevices (cp_state c))
         \<and> dom (map_of (cs_Clients (cp_state c'))) = dom (map_of (cs_Clients (cp_state c))))
    else \<exists>e. newControlPlane C cfg (FileData d) raw = Inl e"
  using restart_state [OF assms] restart_refused [OF assms(1)]
  unfolding unambiguous_def token_hashes_def by presburger

section \<open>Authorisation\<close>

text \<open>
  C18. Authorisation is membership in the abstract set: in a reachable state a request is
  authorised exactly when its bearer token is not empty and the token's hash is configured or added
  and not revoked; the token handed on carries that hash, and \<open>registerSession\<close>'s second check
  decides the same question in the state of that moment.
\<close>

theorem authorize_iff_active:
  assumes "reachable (control_init C cfg) (control_step C cfg) (c, disk)"
  shows "(authorizeClient (ce_go C) c header \<noteq> None \<longleftrightarrow>
      bearerToken header \<noteq> [] \<and> TokenHash (ce_go C) (bearerToken header) \<in> active_hashes (ce_go C) c)
    \<and> (\<forall>token. authorizeClient (ce_go C) c header = Some token \<longrightarrow>
          tk_Hash token = TokenHash (ce_go C) (bearerToken header))
    \<and> (\<forall>token. canonical_hash (tk_Hash token) \<longrightarrow>
          clientTokenActive (ce_go C) c token = (tk_Hash token \<in> active_hashes (ce_go C) c))"
proof -
  note r = reachable_control [OF assms(1)]
  have E: "sha256_ok (ce_go C)" using r(2) by (simp add: control_env_def goenv_ok_def)
  show ?thesis
    using authorizeClient_active [OF r(3) E] authorizeClient_hash(1) [OF r(3) E] clientTokenActive_iff [OF r(3)]
    by simp
qed

section \<open>Creating and deleting, as operations on the set of hashes\<close>

lemma active_hashes_add:
  assumes "cp_baseTokens c' = cp_baseTokens c" and "canonical_hash (tk_Hash token)"
    and "cs_AddedTokens (cp_state c') = cs_AddedTokens (cp_state c) @ [token]"
    and "cs_RevokedHashes (cp_state c') = cs_RevokedHashes (cp_state c)"
  shows "active_hashes E c' = insert (tk_Hash token) (active_hashes E c) - set (cs_RevokedHashes (cp_state c))"
  unfolding active_hashes_def token_hashes_def assms(1,3,4)
  using normalizeHash_canonical [OF assms(2)] by (simp add: Un_Diff insert_Diff_if)

lemma active_hashes_delete:
  assumes "cp_baseTokens c' = cp_baseTokens c" and "cp_state c' = deleted_state E c h tokenID"
  shows "active_hashes E c' = active_hashes E c - {h}"
  using assms
  by (auto simp: active_hashes_def token_hashes_def deleted_state_def Let_def revokes_def list_ex_iff split: if_splits)

lemma persist_critical_written:
  assumes "control_ok C cfg c disk" and "cp_statePath c \<noteq> []" and "cs_Version s = controlStateVersion"
    and "persistCriticalLocked C (c\<lparr>cp_state := s\<rparr>) disk io = (c1, disk', fl)"
  shows "fl \<Longrightarrow> c1 = c\<lparr>cp_state := s\<rparr> \<and> (disk' = disk \<or> io_windows io \<and> disk' = None)"
    and "\<not> fl \<Longrightarrow> c1 = c\<lparr>cp_state := s, cp_clientDirty := False, cp_clientFlush := None\<rparr>
      \<and> ce_marshalState C s \<noteq> None \<and> disk' = ce_marshalState C s"
proof -
  have "cs_Version (cp_state (c\<lparr>cp_state := s\<rparr>)) = controlStateVersion" "cp_statePath (c\<lparr>cp_state := s\<rparr>) \<noteq> []"
    using assms(2,3) by simp_all
  note e = persistCritical_effect [OF assms(4) this]
  show "fl \<Longrightarrow> c1 = c\<lparr>cp_state := s\<rparr> \<and> (disk' = disk \<or> io_windows io \<and> disk' = None)" by (rule e(1))
  show "c1 = c\<lparr>cp_state := s, cp_clientDirty := False, cp_clientFlush := None\<rparr>
      \<and> ce_marshalState C s \<noteq> None \<and> disk' = ce_marshalState C s" if "\<not> fl"
    using e(2) [OF that] by auto
qed

lemma createToken_locked_of:
  assumes "createToken C c disk io name secret key sb ib now = (c', disk', res)"
  obtains (none) e where "c' = c" "disk' = disk" "res = Inl e"
    | (locked) cleanName raw cleanKey tokenID where
        "createToken_inputs name secret key sb = Inr (cleanName, raw, cleanKey)"
        "createToken_id (ce_go C) cleanKey ib = Some tokenID"
        "createToken_locked C c disk io cleanName raw cleanKey
           \<lparr>tk_ID = tokenID, tk_Name = cleanName, tk_Hash = TokenHash (ce_go C) raw, tk_CreatedAt = now\<rparr> = (c', disk', res)"
  using assms by (auto simp: createToken_def split: sum.splits option.splits prod.splits if_splits)

text \<open>What a creation does to a well-formed control plane.\<close>

definition created :: "controlPlane \<Rightarrow> Token \<Rightarrow> controlPlane" where
  "created c t = c\<lparr>cp_state := (cp_state c)\<lparr>cs_AddedTokens := cs_AddedTokens (cp_state c) @ [t]\<rparr>,
     cp_clientDirty := False, cp_clientFlush := None\<rparr>"

lemma createToken_effect:
  assumes "createToken C c disk io name secret key sb ib now = (c', disk', res)"
    and "control_ok C cfg c disk" and "cp_statePath c \<noteq> []"
  obtains (none) e where "c' = c" "disk' = disk \<or> io_windows io \<and> disk' = None" "res = Inl e"
    | (replay) u t raw where "c' = c" "disk' = disk" "res = Inr (t, raw, True)"
        "u \<in> set (allTokens (ce_go C) c)" "tk_Hash t = tk_Hash u"
        "constantHashEqual (ce_go C) (tk_Hash u) (TokenHash (ce_go C) raw)"
    | (create) t raw where "c' = created c t" "res = Inr (t, raw, False)" "tk_Hash t = TokenHash (ce_go C) raw"
        "disk' = ce_marshalState C (cp_state c')" "disk' \<noteq> None" "\<exists>k. createToken_id (ce_go C) k ib = Some (tk_ID t)"
  using assms(1)
proof (cases rule: createToken_locked_of)
  case (locked cleanName raw cleanKey tokenID)
  let ?t = "\<lparr>tk_ID = tokenID, tk_Name = cleanName, tk_Hash = TokenHash (ce_go C) raw, tk_CreatedAt = now\<rparr>"
  from locked(3) show ?thesis
  proof (cases rule: createToken_locked_cases)
    case (replay u)
    then show ?thesis by (intro that(2) [of "u\<lparr>tk_ID := tokenID\<rparr>" raw u]) simp_all
  next
    case (create c1 fl)
    let ?s = "(cp_state c)\<lparr>cs_AddedTokens := cs_AddedTokens (cp_state c) @ [?t]\<rparr>"
    have v: "cs_Version ?s = controlStateVersion" using control_okD(5) [OF assms(2)] by simp
    note p = persist_critical_written [OF assms(2,3) v create(1)]
    show ?thesis
    proof (cases fl)
      case True
      then show ?thesis using create(4) p(1) by (intro that(1)) simp_all
    next
      case False
      then have "c' = created c ?t" "res = Inr (?t, raw, False)" "disk' = ce_marshalState C ?s" "disk' \<noteq> None"
        using create(5) p(2) by (auto simp: created_def)
      then show ?thesis using locked(2) by (intro that(3) [of ?t raw]) (auto simp: created_def)
    qed
  qed (use that(1) in simp)
qed (use that(1) in simp)

text \<open>
  C10. Creating a token: a success that is not a replay adds the hash of the returned secret to the
  accepted hashes (unless it was revoked), writes the new state before it answers, and changes no
  device, block or session; a replay answers with a token that has the secret's hash and changes
  nothing; an error changes nothing in memory.
\<close>

theorem createToken_spec:
  assumes "reachable (control_init C cfg) (control_step C cfg) (c, disk)"
    and "createToken C c disk io name secret key sb ib now = (c', disk', res)"
  shows "case res of
      Inl e \<Rightarrow> c' = c \<and> (disk' = disk \<or> io_windows io \<and> disk' = None)
    | Inr (t, raw, True) \<Rightarrow>
        c' = c \<and> disk' = disk \<and> tk_Hash t = TokenHash (ce_go C) raw \<and> tk_Hash t \<in> active_hashes (ce_go C) c
    | Inr (t, raw, False) \<Rightarrow>
        tk_Hash t = TokenHash (ce_go C) raw
        \<and> active_hashes (ce_go C) c' =
            insert (tk_Hash t) (active_hashes (ce_go C) c) - set (cs_RevokedHashes (cp_state c))
        \<and> disk' = ce_marshalState C (cp_state c') \<and> disk' \<noteq> None
        \<and> cs_Clients (cp_state c') = cs_Clients (cp_state c)
        \<and> cs_BlockedDevices (cp_state c') = cs_BlockedDevices (cp_state c) \<and> cp_active c' = cp_active c"
proof -
  note r = reachable_control [OF assms(1)]
  have sha: "sha256_ok (ce_go C)" using r(2) by (simp add: control_env_def goenv_ok_def)
  from assms(2) r(1,4) show ?thesis
  proof (cases rule: createToken_effect)
    case (replay u t raw)
    then have "tk_Hash t = TokenHash (ce_go C) raw"
      using equal_active [OF r(3) canonical_TokenHash [OF sha]] by simp
    moreover have "tk_Hash t \<in> active_hashes (ce_go C) c"
      using replay(4,5) active_hashes_allTokens [OF r(3)] by auto
    ultimately show ?thesis using replay by simp
  next
    case (create t raw)
    have "active_hashes (ce_go C) c' = insert (tk_Hash t) (active_hashes (ce_go C) c) - set (cs_RevokedHashes (cp_state c))"
      by (rule active_hashes_add) (simp_all add: create(1,3) created_def canonical_TokenHash [OF sha])
    then show ?thesis using create by (simp add: created_def)
  qed simp
qed

text \<open>What a successful deletion does.\<close>

definition deleted :: "goenv \<Rightarrow> controlPlane \<Rightarrow> string \<Rightarrow> string \<Rightarrow> controlPlane" where
  "deleted E c h tokenID = c\<lparr>cp_state := deleted_state E c h tokenID,
     cp_clientDirty := False, cp_clientFlush := None\<rparr>"

lemma deleteToken_effect:
  assumes "deleteToken C c disk io tokenID = (c', disk', e, closers)"
    and ok: "control_ok C cfg c disk" "cp_statePath c \<noteq> []"
    and hashes: "hashes_ok (ce_go C) (cp_baseTokens c @ cs_AddedTokens (cp_state c))"
  obtains (none) err where "c' = c" "disk' = disk \<or> io_windows io \<and> disk' = None" "e = Some err" "closers = []"
    | (delete) u where "u \<in> set (allTokens (ce_go C) c)" "StableTokenID (ce_go C) u = trimSpace tokenID"
        "canonical_hash (tk_Hash u)" "c' = deleted (ce_go C) c (tk_Hash u) (trimSpace tokenID)" "e = None"
        "disk' = ce_marshalState C (cp_state c')" "disk' \<noteq> None"
        "closers = session_closers (\<lambda>_. True) (mget [] (cp_active c) (trimSpace tokenID))"
  using assms(1)
proof (cases rule: deleteToken_cases)
  case (delete u c1 fl)
  have canonical: "canonical_hash (tk_Hash u)" using listed_token_facts [OF hashes delete(1)] by simp
  let ?s = "deleted_state (ce_go C) c (tk_Hash u) (trimSpace tokenID)"
  have v: "cs_Version ?s = cs_Version (cp_state c)" "cs_Version ?s = controlStateVersion"
    using control_okD(5) [OF ok(1)] by (simp_all add: deleted_state_def Let_def)
  have p: "persistCriticalLocked C (c\<lparr>cp_state := ?s\<rparr>) disk io = (c1, disk', fl)"
    using delete(4) canonical by simp
  note w = persist_critical_written [OF ok v(2) p]
  show ?thesis
  proof (cases fl)
    case True
    then show ?thesis using w(1) delete(5) v(1) by (intro that(1) [of ErrIO]) simp_all
  next
    case False
    have c1: "c1 = deleted (ce_go C) c (tk_Hash u) (trimSpace tokenID)"
      and d: "disk' = ce_marshalState C ?s" "disk' \<noteq> None"
      using w(2) [OF False] by (auto simp: deleted_def)
    show ?thesis
      using delete(6) [OF False] d
      by (intro that(2) [of u] delete canonical) (simp_all add: c1, simp_all add: deleted_def)
  qed
qed (use that(1) in simp)

text \<open>
  C7. Deleting a token revokes it at once: on success exactly the hash of the deleted token leaves
  the accepted hashes, so that no request with it is authorised and no connection already
  authorised with it is registered; the new state is on disk before the answer; no device of the
  token stays; and the answer closes every session registered under it.
\<close>

theorem deleteToken_spec:
  assumes "reachable (control_init C cfg) (control_step C cfg) (c, disk)"
    and "deleteToken C c disk io tokenID = (c', disk', None, closers)"
  shows "\<exists>u \<in> set (allTokens (ce_go C) c). StableTokenID (ce_go C) u = trimSpace tokenID
    \<and> active_hashes (ce_go C) c' = active_hashes (ce_go C) c - {tk_Hash u}
    \<and> (\<forall>header. TokenHash (ce_go C) (bearerToken header) = tk_Hash u \<longrightarrow>
         authorizeClient (ce_go C) c' header = None)
    \<and> (\<forall>t r cl at nowT. canonical_hash (tk_Hash t) \<and> tk_Hash t = tk_Hash u \<longrightarrow>
         registerSession (ce_go C) c' t r cl at nowT = (c', None, False, None))
    \<and> (\<forall>(k, client) \<in> set (cs_Clients (cp_state c')). tc_TokenID client \<noteq> trimSpace tokenID)
    \<and> disk' = ce_marshalState C (cp_state c') \<and> disk' \<noteq> None
    \<and> closers = session_closers (\<lambda>_. True) (mget [] (cp_active c) (trimSpace tokenID))"
proof -
  note r = reachable_control [OF assms(1)]
  have "reachable (control_init C cfg) (control_step C cfg) (c', disk')"
    using assms by (blast intro: reachable_step step_delete)
  note r' = reachable_control [OF this]
  have sha: "sha256_ok (ce_go C)" using r(2) by (simp add: control_env_def goenv_ok_def)
  from assms(2) r(1,4,3) show ?thesis
  proof (cases rule: deleteToken_effect)
    case (delete u)
    have gone: "active_hashes (ce_go C) c' = active_hashes (ce_go C) c - {tk_Hash u}"
      by (rule active_hashes_delete) (simp_all add: delete(4) deleted_def)
    have "authorizeClient (ce_go C) c' header = None"
      if "TokenHash (ce_go C) (bearerToken header) = tk_Hash u" for header
      using authorizeClient_active [OF r'(3) sha, of header] gone that by auto
    moreover have "registerSession (ce_go C) c' t q cl at nowT = (c', None, False, None)"
      if "canonical_hash (tk_Hash t)" "tk_Hash t = tk_Hash u" for t q cl at nowT
      using clientTokenActive_iff [OF r'(3), of t] gone that r'(5)
      by (simp add: registerSession_def refuseSession_def Let_def)
    moreover have "\<forall>(k, client) \<in> set (cs_Clients (cp_state c')). tc_TokenID client \<noteq> trimSpace tokenID"
      by (auto simp: delete(4) deleted_def deleted_state_def removeTokenClients_def Let_def)
    ultimately show ?thesis using delete(1,2,6,7,8) gone by blast
  qed simp
qed

end
