(* ===== verification/Revocation_Props.thy ===== *)
theory Revocation_Props
  imports Control_Props
begin

text \<open>
  The owner's mutations under failure and repetition: a failed mutation changes nothing, a repeated
  creation is answered from the first one, a revocation is permanent, and the one way to a state
  the next start rejects.
\<close>

section \<open>Failures\<close>

lemma setDeviceBlocked_effect:
  assumes "setDeviceBlocked C c disk io t d b now = (c', disk', e, closers)"
    and ok: "control_ok C cfg c disk" "cp_statePath c \<noteq> []"
  obtains (none) err s where "c' = c\<lparr>cp_state := s\<rparr>" "same_maps (cp_state c) s" "disk' = disk \<or> io_windows io \<and> disk' = None"
        "e = Some err" "closers = []"
    | (block) key where "deviceKey t d = Inr key" "mhas (cs_Clients (cp_state c)) key"
        "c' = c\<lparr>cp_state := blocked_state c key b now, cp_clientDirty := False, cp_clientFlush := None\<rparr>"
        "e = None" "disk' = ce_marshalState C (cp_state c')" "disk' \<noteq> None"
        "closers = (if b then deviceClosers c key else [])"
  using assms(1)
proof (cases rule: setDeviceBlocked_cases)
  case (none err)
  then show ?thesis by (intro that(1) [of "cp_state c" err]) simp_all
next
  case (block key c1 fl)
  have v: "cs_Version (blocked_state c key b now) = controlStateVersion"
    using control_okD(5) [OF ok(1)] by (simp add: blocked_state_def)
  note w = persist_critical_written [OF ok v block(3)]
  show ?thesis
  proof (cases fl)
    case True
    have "c' = c\<lparr>cp_state := unblocked_state c key b now\<rparr>"
      using w(1) [OF True] block(4) [OF True] by (simp add: unblocked_state_def blocked_state_def)
    then show ?thesis
      using w(1) block(4) True by (intro that(1) [OF _ unblocked_same_maps [of c key b now]]) simp_all
  next
    case False
    then show ?thesis
      using w(2) block(5) by (intro that(2) [of key] block(1,2)) (auto simp: deviceClosers_def)
  qed
qed

text \<open>
  Failed mutations are undone: when creating or deleting a token or blocking a device answers
  with an error, memory is as before (the map of blocked devices up to its order), no session is
  closed, and the file is as before, or gone where Windows removed it before the failing rename.
\<close>

theorem failed_mutation_undone:
  assumes "reachable (control_init C cfg) (control_step C cfg) (c, disk)"
    and "(\<exists>name secret key sb ib now. createToken C c disk io name secret key sb ib now = (c', disk', Inl e) \<and> cl = [])
      \<or> (\<exists>tokenID. deleteToken C c disk io tokenID = (c', disk', Some e, cl))
      \<or> (\<exists>t d b now. setDeviceBlocked C c disk io t d b now = (c', disk', Some e, cl))"
  shows "c'\<lparr>cp_state := cp_state c\<rparr> = c \<and> same_maps (cp_state c) (cp_state c')
    \<and> active_hashes (ce_go C) c' = active_hashes (ce_go C) c \<and> cl = [] \<and> (disk' = disk \<or> io_windows io \<and> disk' = None)"
proof -
  note r = reachable_control [OF assms(1)]
  obtain s where s: "c' = c\<lparr>cp_state := s\<rparr>" "same_maps (cp_state c) s" "disk' = disk \<or> io_windows io \<and> disk' = None" "cl = []"
  proof -
    consider (create) name secret key sb ib now where "createToken C c disk io name secret key sb ib now = (c', disk', Inl e)" "cl = []"
      | (delete) tokenID where "deleteToken C c disk io tokenID = (c', disk', Some e, cl)"
      | (block) t d b now where "setDeviceBlocked C c disk io t d b now = (c', disk', Some e, cl)"
      using assms(2) by blast
    then show ?thesis
    proof cases
      case create
      from create(1) r(1,4) show ?thesis
        using that [of "cp_state c"] create(2) by (cases rule: createToken_effect) simp_all
    next
      case delete
      from delete r(1,4,3) show ?thesis
        using that [of "cp_state c"] by (cases rule: deleteToken_effect) simp_all
    next
      case block
      from block r(1,4) show ?thesis
        using that by (cases rule: setDeviceBlocked_effect) simp_all
    qed
  qed
  then have "active_hashes (ce_go C) c' = active_hashes (ce_go C) c"
    by (simp add: active_hashes_def same_maps_def)
  then show ?thesis using s by simp
qed

section \<open>Repeating a creation\<close>

lemma find_append: "find P (xs @ ys) = (case find P xs of None \<Rightarrow> find P ys | Some x \<Rightarrow> Some x)"
  by (induction xs) auto

text \<open>What a creation adds to the listed tokens: nothing when the hash is known.\<close>

lemma allTokens_created:
  assumes "hashes_ok E (cp_baseTokens c @ cs_AddedTokens (cp_state c))"
    and "canonical_hash (tk_Hash t)" and "plain_ident (tk_ID t)"
    and "set (cs_RevokedHashes (cp_state c)) \<subseteq> set (token_hashes E (cp_baseTokens c))"
  shows "allTokens E (created c t) = allTokens E c @
    (if tk_Hash t \<in> set (token_hashes E (cp_baseTokens c @ cs_AddedTokens (cp_state c))) then [] else [t])"
proof -
  let ?ts = "cp_baseTokens c @ cs_AddedTokens (cp_state c)"
  have t: "listed E t = t" "normalizeHash E (tk_Hash t) = tk_Hash t"
    using assms(2,3) by (simp_all add: listed_def StableTokenID_explicit)
  have "hashes_ok E (?ts @ [t])" using assms(1,2) by (auto simp: hashes_ok_def)
  then have "allTokens E (created c t) = map (listed E) (firsts E (set (cs_RevokedHashes (cp_state c))) (?ts @ [t]))"
    using allTokens_eq [of E "created c t"] by (simp add: created_def)
  moreover have "set (cs_RevokedHashes (cp_state c)) \<subseteq> set (token_hashes E ?ts)"
    using assms(4) by (auto simp: token_hashes_def)
  ultimately show ?thesis
    unfolding firsts_snoc allTokens_eq [OF assms(1)] by (auto simp: t)
qed

text \<open>A keyed creation uses neither random source.\<close>

lemma keyed_inputs:
  assumes "createToken_inputs name secret key sb = Inr (cleanName, raw, cleanKey)" and "cleanKey \<noteq> []"
  shows "createToken_inputs name secret key sb' = Inr (cleanName, raw, cleanKey)"
    and "createToken_id E cleanKey ib' = createToken_id E cleanKey ib"
  using assms by (auto simp: createToken_inputs_def createToken_id_def Let_def split: if_splits option.splits)

text \<open>
  C36. A creation with a new secret is idempotent: repeating a successful keyed creation with the same
  name, secret and key, whatever the clock and the random source say, changes nothing and answers with
  the same token, provided that cleaning the cleaned name once more leaves it as it is; if it does not,
  the exact repetition is refused as a conflict of names. When the secret was already known (configured
  or added, its token revoked or not), the repetition is never answered from the first creation.
\<close>

theorem createToken_repeat:
  assumes "reachable (control_init C cfg) (control_step C cfg) (c, disk)" and "twelve_bytes ib"
    and "createToken C c disk io name secret key sb ib now = (c1, d1, Inr (t, raw, False))"
    and "sanitizeIdentifier key 96 \<noteq> []"
  shows "if tk_Hash t \<notin> set (token_hashes (ce_go C) (cp_baseTokens c @ cs_AddedTokens (cp_state c)))
    then createToken C c1 d1 io' name secret key sb' ib' now' =
      (if sanitizeDisplay (tk_Name t) 128 = tk_Name t then (c1, d1, Inr (t, raw, True))
       else (c1, d1, Inl (ErrText ''idempotency key is already associated with another token name'')))
    else \<forall>c2 d2 u r. createToken C c1 d1 io' name secret key sb' ib' now' \<noteq> (c2, d2, Inr (u, r, True))"
proof -
  let ?E = "ce_go C" and ?known = "token_hashes (ce_go C) (cp_baseTokens c @ cs_AddedTokens (cp_state c))"
  note r = reachable_control [OF assms(1)]
  have sha: "sha256_ok ?E" using r(2) by (simp add: control_env_def goenv_ok_def)
  from assms(3) obtain cleanName cleanKey tokenID where
    i: "createToken_inputs name secret key sb = Inr (cleanName, raw, cleanKey)"
      "createToken_id ?E cleanKey ib = Some tokenID" and
    l: "createToken_locked C c disk io cleanName raw cleanKey
      \<lparr>tk_ID = tokenID, tk_Name = cleanName, tk_Hash = TokenHash ?E raw, tk_CreatedAt = now\<rparr> = (c1, d1, Inr (t, raw, False))"
    by (cases rule: createToken_locked_of) (auto elim: createToken_locked_cases)
  have key: "cleanKey \<noteq> []"
    using i(1) assms(4) by (auto simp: createToken_inputs_def Let_def split: if_splits option.splits)
  define t0 where "t0 = \<lparr>tk_ID = tokenID, tk_Name = cleanName, tk_Hash = TokenHash ?E raw, tk_CreatedAt = now\<rparr>"
  have t: "t = t0" "tokenID \<notin> set (cs_DeletedTokenIDs (cp_state c))"
    "tokenID \<notin> StableTokenID ?E ` set (allTokens ?E c)"
    using l [folded t0_def] key by (cases rule: createToken_locked_cases; auto simp: t0_def)+
  have c1: "c1 = created c t" "cp_enabled c1"
    using assms(3) r(1,4,5) by (cases rule: createToken_effect; simp add: created_def cp_enabled_def)+
  have can: "canonical_hash (tk_Hash t)" by (simp add: t t0_def canonical_TokenHash [OF sha])
  have plain: "plain_ident (tk_ID t)" using createToken_id_plain [OF sha assms(2) i(2)] by (simp add: t t0_def)
  have id_t: "StableTokenID ?E t = tokenID" using plain by (simp add: t t0_def StableTokenID_explicit)
  have rev: "set (cs_RevokedHashes (cp_state c)) \<subseteq> set (token_hashes ?E (cp_baseTokens c))"
    using control_okD(1,6) [OF r(1)] by (simp add: tokens_ok_def settings_ok_def)
  have "find (\<lambda>u. StableTokenID ?E u = tokenID) (allTokens ?E c1) = (if tk_Hash t \<in> set ?known then None else Some t)"
  proof -
    have "find (\<lambda>u. StableTokenID ?E u = tokenID) (allTokens ?E c) = None"
      using t(3) by (auto simp: find_None_iff)
    then show ?thesis
      unfolding c1(1) allTokens_created [OF r(3) can plain rev] by (simp add: find_append id_t)
  qed
  moreover have "constantHashEqual ?E (tk_Hash t) (TokenHash ?E raw)"
    using can by (simp add: constantHashEqual_canonical t t0_def)
  moreover have "tokenID \<notin> set (cs_DeletedTokenIDs (cp_state c1))" using t(2) by (simp add: c1 created_def)
  moreover have "tk_Name t = cleanName" "tk_ID t = tokenID" by (simp_all add: t t0_def)
  ultimately show ?thesis
    using i(2) keyed_inputs(1) [OF i(1) key, of sb'] keyed_inputs(2) [OF i(1) key, of ?E ib' ib] key c1(2)
    by (auto simp: createToken_def createToken_locked_def Let_def split: prod.splits bool.splits if_splits)
qed

section \<open>Revocations are permanent\<close>

text \<open>The lists that only grow: revoked hashes and deleted ids.\<close>

definition keeps :: "controlState \<Rightarrow> controlState \<Rightarrow> bool" where
  "keeps s s' \<longleftrightarrow>
     set (cs_RevokedHashes s) \<subseteq> set (cs_RevokedHashes s') \<and> set (cs_DeletedTokenIDs s) \<subseteq> set (cs_DeletedTokenIDs s')"

lemma keepsI:
  "cs_RevokedHashes s' = cs_RevokedHashes s \<Longrightarrow> cs_DeletedTokenIDs s' = cs_DeletedTokenIDs s \<Longrightarrow> keeps s s'"
  by (simp add: keeps_def)

lemma keeps_owner: "same_owner c c' \<Longrightarrow> keeps (cp_state c) (cp_state c')"
  by (simp add: keeps_def same_owner_def)

lemma keeps_trans: "keeps a b \<Longrightarrow> keeps b c \<Longrightarrow> keeps a c"
  by (auto simp: keeps_def)

lemma registerSession_owner:
  assumes "registerSession E c token r cl now nowT = (c', h, ok, lookup)"
  shows "same_owner c c'"
proof -
  let ?i = "sessionIdentityDetails E token (Some r)"
  consider "c' = c" | h' where "enterSession E c ?i r cl now nowT = (c', h', lookup)"
    using assms by (auto simp: registerSession_def Let_def split: if_splits prod.splits)
  then show ?thesis
  proof cases
    case 2
    then show ?thesis
      using enterSession_entered(1) [OF 2] startLocation_effect entered_owner same_owner_trans by blast
  qed simp
qed

text \<open>Steps on client data that leave the lists alone, whatever they do to the rest.\<close>

lemma keeps_quiet:
  "unregister c h now = (c', h') \<Longrightarrow> keeps (cp_state c) (cp_state c')"
  "resolveLocation_cached c k ip nowT = (c', b) \<Longrightarrow> keeps (cp_state c) (cp_state c')"
  "keeps (cp_state c) (cp_state (resolveLocation_store c k ip answer nowT))"
  "keeps (cp_state c) (cp_state (resolveLocation_done c ip))"
  "keeps (cp_state c) (cp_state (fst (shutdown_begin c)))"
  by (auto intro!: keepsI simp: unregister_def touchClient_def setClient_def resolveLocation_cached_def
      resolveLocation_store_def resolveLocation_done_def shutdown_begin_def Let_def split: if_splits option.splits)

lemma persistLocked_tokens:
  assumes "persistLocked C c disk io = (c', disk', fl)"
  shows "cs_RevokedHashes (cp_state c') = cs_RevokedHashes (cp_state c)
    \<and> cs_DeletedTokenIDs (cp_state c') = cs_DeletedTokenIDs (cp_state c)"
  using assms by (auto simp: persistLocked_def Let_def split: if_splits option.splits prod.splits)

lemma keeps_write:
  "prepareIdentity C c disk io = (c', disk', e) \<Longrightarrow> keeps (cp_state c) (cp_state c')"
  "flushClientState C c disk io = (c', disk') \<Longrightarrow> keeps (cp_state c) (cp_state c')"
  "shutdown_finish C c disk io = (c', disk', e) \<Longrightarrow> keeps (cp_state c) (cp_state c')"
  by (auto intro!: keepsI simp: prepareIdentity_def persistCriticalLocked_def flushClientState_def
      shutdown_finish_def Let_def dest!: persistLocked_tokens split: if_splits prod.splits bool.splits)

lemma codec_tokens:
  assumes "codec_ok C" and "file_ok C cfg c (Some d)" and "file_ok C cfg c' (Some d)"
  shows "keeps (cp_state c) (cp_state c')"
proof -
  obtain s where s: "ce_marshalState C s = Some d" "state_ok (ce_go C) cfg s" "same_tokens s (cp_state c)"
    using assms(2) by (auto simp: file_ok_def)
  obtain s' where s': "ce_marshalState C s' = Some d" "state_ok (ce_go C) cfg s'" "same_tokens s' (cp_state c')"
    using assms(3) by (auto simp: file_ok_def)
  obtain x where x: "ce_decodeState C d = Some (x, False, True)" "same_state s x"
    using assms(1) s(1) state_ok_structural [OF s(2)] unfolding codec_ok_def by blast
  obtain y where y: "ce_decodeState C d = Some (y, False, True)" "same_state s' y"
    using assms(1) s'(1) state_ok_structural [OF s'(2)] unfolding codec_ok_def by blast
  then have "y = x" using x(1) by simp
  then show ?thesis
    using s(3) s'(3) same_stateD(4,5) [OF x(2)] same_stateD(4,5) [OF y(2)]
    by (intro keepsI) (simp_all add: same_tokens_def)
qed

lemma step_keeps:
  assumes "control_inv C cfg w" and "control_step C cfg w w'" and "snd w \<noteq> None"
  shows "keeps (cp_state (fst w)) (cp_state (fst w'))"
proof -
  obtain c disk where w: "w = (c, disk)" by (cases w)
  obtain d where d: "disk = Some d" using assms(3) w by auto
  have env: "control_env C cfg" and ok: "control_ok C cfg c disk"
    using assms(1) by (simp_all add: control_inv_def w)
  then have cfg: "owner_config (ce_go C) cfg" by (simp add: control_env_def)
  have path: "cp_statePath c \<noteq> []"
    using control_okD(1) [OF ok] cfg by (simp add: settings_ok_def owner_config_def)
  have "control_inv C cfg w'" using assms(1,2) by (rule control_step_inv)
  then have ok': "control_ok C cfg (fst w') (snd w')" by (simp add: control_inv_def)
  from assms(2) [unfolded w] show ?thesis
  proof cases
    case (step_create io name secret key sb ib now c' disk' res)
    from step_create(2) ok path show ?thesis
      by (cases rule: createToken_effect) (simp_all add: w step_create(1) keeps_def created_def)
  next
    case (step_delete io tokenID c' disk' e cl)
    from step_delete(2) ok path hashes_ok_control [OF ok cfg] show ?thesis
      by (cases rule: deleteToken_effect) (auto simp: w step_delete(1) keeps_def deleted_def deleted_state_def Let_def)
  next
    case (step_block io t d b now c' disk' e cl)
    from step_block(2) ok path show ?thesis
      by (cases rule: setDeviceBlocked_effect)
        (auto simp: w step_block(1) keeps_def blocked_state_def same_maps_def)
  next
    case (step_register c0 header token r cl now nowT c' h res lookup)
    then show ?thesis using registerSession_owner keeps_owner w by simp
  next
    case (step_restart raw c')
    then show ?thesis
      using codec_tokens [of C cfg c d c'] control_okD(3) [OF ok] control_okD(3) [OF ok'] env d
      by (simp add: control_env_def w)
  qed (simp_all add: w keeps_quiet keeps_write)
qed

text \<open>Steps after which the state file exists: all but those where Windows loses it.\<close>

definition kept_step :: "controlenv \<Rightarrow> Config \<Rightarrow> world \<Rightarrow> world \<Rightarrow> bool" where
  "kept_step C cfg w w' \<longleftrightarrow> control_step C cfg w w' \<and> snd w' \<noteq> None"

lemma kept_steps:
  assumes "(kept_step C cfg)\<^sup>*\<^sup>* w w'" and "control_inv C cfg w" and "snd w \<noteq> None"
  shows "control_inv C cfg w' \<and> snd w' \<noteq> None \<and> keeps (cp_state (fst w)) (cp_state (fst w'))"
  using assms(1)
proof (induction rule: rtranclp_induct)
  case base
  then show ?case using assms(2,3) by (simp add: keeps_def)
next
  case (step y z)
  then have s: "control_step C cfg y z" "snd z \<noteq> None" by (simp_all add: kept_step_def)
  then have "keeps (cp_state (fst w)) (cp_state (fst z))"
    using step_keeps [OF _ s(1)] step.IH keeps_trans by blast
  then show ?case using control_step_inv [OF _ s(1)] s(2) step.IH by blast
qed

text \<open>
  C3. A deletion is permanent: after the owner deleted a token, through any further operations
  (creations with the deleted secret included), failures, crashes and restarts after which the state
  file exists (it is lost only where Windows removes it before a failing rename), the hash of a
  configured token is never accepted again, and the idempotency key of a created token never creates a
  token again.
\<close>

theorem deletion_is_permanent:
  assumes "reachable (control_init C cfg) (control_step C cfg) (c, disk)"
    and "deleteToken C c disk io tokenID = (c1, d1, None, closers)"
    and "(kept_step C cfg)\<^sup>*\<^sup>* (c1, d1) (c2, d2)"
  shows "\<exists>u \<in> set (allTokens (ce_go C) c). StableTokenID (ce_go C) u = trimSpace tokenID
    \<and> (tk_Hash u \<in> set (token_hashes (ce_go C) (cp_baseTokens c)) \<longrightarrow> tk_Hash u \<notin> active_hashes (ce_go C) c2)
    \<and> (\<forall>io name secret key sb ib now. sanitizeIdentifier key 96 \<noteq> []
         \<and> createToken_id (ce_go C) (sanitizeIdentifier key 96) ib = Some (trimSpace tokenID)
         \<longrightarrow> (\<exists>e. createToken C c2 d2 io name secret key sb ib now = (c2, d2, Inl e)))"
proof -
  let ?E = "ce_go C"
  note r = reachable_control [OF assms(1)]
  have "reachable (control_init C cfg) (control_step C cfg) (c1, d1)"
    using assms(1,2) by (blast intro: reachable_step step_delete)
  note r1 = reachable_control [OF this]
  have sha: "sha256_ok ?E" using r(2) by (simp add: control_env_def goenv_ok_def)
  from assms(2) r(1,4,3) show ?thesis
  proof (cases rule: deleteToken_effect)
    case (delete u)
    let ?i = "trimSpace tokenID"
    have k: "keeps (cp_state c1) (cp_state c2)" "control_inv C cfg (c2, d2)"
      using kept_steps [OF assms(3)] r1(1,2) delete(7) by (simp_all add: control_inv_def)
    have "tk_Hash u \<notin> active_hashes ?E c2" if "tk_Hash u \<in> set (token_hashes ?E (cp_baseTokens c))"
    proof -
      have "tk_Hash u \<in> set (cs_RevokedHashes (cp_state c1))"
        using that by (auto simp: delete(4) deleted_def deleted_state_def revokes_def token_hashes_def list_ex_iff Let_def)
      then show ?thesis using k(1) by (auto simp: keeps_def active_hashes_def)
    qed
    moreover have "\<exists>e. createToken C c2 d2 io name secret key sb ib now = (c2, d2, Inl e)"
      if key: "sanitizeIdentifier key 96 \<noteq> []" "createToken_id ?E (sanitizeIdentifier key 96) ib = Some ?i"
      for io name secret key sb ib now
    proof -
      have "?i = ''tok_'' @ hexEncode (take 12 (ge_sha256 ?E (''tgproxy-token-request:'' @ sanitizeIdentifier key 96)))"
        using key by (simp add: createToken_id_def)
      then have "hasPrefix ?i ''tok_''" using hasPrefix_append by metis
      then have "?i \<in> set (cs_DeletedTokenIDs (cp_state c1))"
        by (auto simp: delete(4) deleted_def deleted_state_def buries_def Let_def)
      then have buried: "?i \<in> set (cs_DeletedTokenIDs (cp_state c2))" using k(1) by (auto simp: keeps_def)
      show ?thesis
      proof (cases "cp_enabled c2")
        case True
        show ?thesis
        proof (cases "createToken_inputs name secret key sb")
          case (Inr x)
          then have "snd (snd x) = sanitizeIdentifier key 96"
            by (auto simp: createToken_inputs_def Let_def split: if_splits option.splits)
          then show ?thesis
            using True Inr key buried by (cases x) (simp add: createToken_def createToken_locked_def Let_def)
        qed (use True in \<open>simp add: createToken_def\<close>)
      qed (simp add: createToken_def)
    qed
    ultimately show ?thesis using delete(1,2) by blast
  qed simp
qed

section \<open>The state the next start rejects\<close>

text \<open>
  C37. Creation does not compare the secret with the known ones: if the owner API is given the valid
  secret of a token that is configured or already added, with no key and below the limit of tokens, then
  unless a system call fails it answers with success, and the Relay does not start from the state file it
  wrote.
\<close>

theorem duplicate_secret_blocks_restart:
  assumes "reachable (control_init C cfg) (control_step C cfg) (c, disk)"
    and "validClientSecret (trimSpace secret)" and "length (allTokens (ce_go C) c) < 1024" and "twelve_bytes ib"
    and "TokenHash (ce_go C) (trimSpace secret)
      \<in> set (token_hashes (ce_go C) (cp_baseTokens c @ cs_AddedTokens (cp_state c)))"
    and "createToken C c disk io name secret [] sb ib now = (c', disk', res)" and "res \<noteq> Inl ErrIO"
  shows "\<exists>t d. res = Inr (t, trimSpace secret, False) \<and> disk' = Some d
    \<and> (\<forall>rnd. \<exists>e. newControlPlane C cfg (FileData d) rnd = Inl e)"
proof -
  let ?E = "ce_go C"
  note r = reachable_control [OF assms(1)]
  have r': "reachable (control_init C cfg) (control_step C cfg) (c', disk')"
    using assms(1,4,6) by (blast intro: reachable_step step_create)
  obtain t where t: "res = Inr (t, trimSpace secret, False)"
    using assms(2,3,6,7) r(5)
    by (auto simp: createToken_def createToken_inputs_def createToken_locked_def validClientSecret_def
        sanitizeIdentifier_def Let_def split: if_splits option.splits prod.splits bool.splits)
  from assms(6) r(1,4) show ?thesis
  proof (cases rule: createToken_effect)
    case (create u raw)
    have u: "u = t" "tk_Hash t = TokenHash ?E (trimSpace secret)" using create(2,3) t by simp_all
    have "\<not> unambiguous ?E (cp_baseTokens c' @ cs_AddedTokens (cp_state c'))"
      using assms(5) u(2) normalizeHash_canonical [OF canonical_TokenHash] r(2)
      by (auto simp: create(1) u(1) created_def unambiguous_def token_hashes_def control_env_def goenv_ok_def)
    then show ?thesis
      using restart_refused [of C cfg c'] r' create(5) t by auto
  qed (use t in simp_all)
qed

end
