(* ===== verification/Device_Props.thy ===== *)
theory Device_Props
  imports Revocation_Props
begin

text \<open>
  Properties of devices and sessions: blocking, registration, pruning, the accounting of sessions,
  the writing of client data, and the address a client is recorded with.
\<close>

section \<open>Blocking\<close>

lemma set_close_one:
  "f \<in> set (if p then (case x of None \<Rightarrow> [] | Some g \<Rightarrow> [g]) else []) \<longleftrightarrow> p \<and> x = Some f"
  by (cases p; cases x) auto

lemma set_session_closers:
  "f \<in> set (session_closers P ss) \<longleftrightarrow> (\<exists>n s. (n, s) \<in> set ss \<and> P s \<and> ts_close s = Some f)"
proof -
  have "f \<in> set (session_closers P ss) \<longleftrightarrow> (\<exists>x \<in> set ss. P (snd x) \<and> ts_close (snd x) = Some f)"
    by (simp only: session_closers_def set_concat set_map split_def Bex_def UN_iff image_image set_close_one)
  then show ?thesis by force
qed

lemma set_deviceClosers:
  "f \<in> set (deviceClosers c key) \<longleftrightarrow>
     (\<exists>t ss n s. (t, ss) \<in> set (cp_active c) \<and> (n, s) \<in> set ss \<and> ts_clientKey s = key \<and> ts_close s = Some f)"
proof -
  have "f \<in> set (deviceClosers c key) \<longleftrightarrow>
      (\<exists>x \<in> set (cp_active c). \<exists>n s. (n, s) \<in> set (snd x) \<and> ts_clientKey s = key \<and> ts_close s = Some f)"
    by (simp only: deviceClosers_def set_concat set_map split_def Bex_def UN_iff image_image set_session_closers)
  then show ?thesis by force
qed

text \<open>
  C11. Blocking takes effect at once: after a successful \<open>setDeviceBlocked\<close> exactly the entry of that
  device has changed and the change is on disk; if it blocked, every request whose current, previous
  or address-derived identity names the device is refused before the upstream is dialled and again at
  registration, and the answer closes exactly the sessions of the device.
\<close>

theorem setDeviceBlocked_spec:
  assumes "reachable (control_init C cfg) (control_step C cfg) (c, disk)"
    and "setDeviceBlocked C c disk io t d b now = (c', disk', None, closers)"
  shows "\<exists>key. deviceKey t d = Inr key
    \<and> map_of (cs_BlockedDevices (cp_state c')) =
        (map_of (cs_BlockedDevices (cp_state c)))(key := if b then Some now else None)
    \<and> disk' = ce_marshalState C (cp_state c') \<and> disk' \<noteq> None
    \<and> (b \<longrightarrow> (\<forall>f. f \<in> set closers \<longleftrightarrow>
          (\<exists>tok ss n s. (tok, ss) \<in> set (cp_active c) \<and> (n, s) \<in> set ss \<and> ts_clientKey s = key \<and> ts_close s = Some f)))
    \<and> (b \<longrightarrow> (\<forall>token r cl at nowT.
          (\<exists>i \<in> set (candidateDeviceIDs (sessionIdentityDetails (ce_go C) token (Some r))).
             StableTokenID (ce_go C) token @ '':'' @ i = key) \<longrightarrow>
          deviceBlocked (ce_go C) c' token (Some r)
          \<and> registerSession (ce_go C) c' token r cl at nowT = (c', None, False, None)))"
proof -
  note r = reachable_control [OF assms(1)]
  from assms(2) r(1,4) show ?thesis
  proof (cases rule: setDeviceBlocked_effect)
    case (block key)
    have en: "cp_enabled c'" using r(5) by (simp add: block(3) cp_enabled_def)
    have m: "map_of (cs_BlockedDevices (cp_state c')) =
        (map_of (cs_BlockedDevices (cp_state c)))(key := if b then Some now else None)"
      by (simp add: block(3) blocked_state_def)
    have "deviceBlocked (ce_go C) c' token (Some q)
        \<and> registerSession (ce_go C) c' token q cl at nowT = (c', None, False, None)"
      if "b" "i \<in> set (candidateDeviceIDs (sessionIdentityDetails (ce_go C) token (Some q)))"
        "StableTokenID (ce_go C) token @ '':'' @ i = key" for i token q cl at nowT
    proof -
      have t: "ri_tokenID (sessionIdentityDetails (ce_go C) token (Some q)) = StableTokenID (ce_go C) token"
        by (simp add: sessionIdentityDetails_def Let_def split: prod.splits)
      have "mhas (cs_BlockedDevices (cp_state c')) (StableTokenID (ce_go C) token @ '':'' @ i)"
        using m that(1,3) by (simp add: mhas_iff_map_of)
      then have "list_ex (\<lambda>j. mhas (cs_BlockedDevices (cp_state c')) (StableTokenID (ce_go C) token @ '':'' @ j))
          (candidateDeviceIDs (sessionIdentityDetails (ce_go C) token (Some q)))"
        using that(2) by (auto simp: list_ex_iff)
      then show ?thesis
        using en by (simp add: deviceBlocked_def registerSession_def refuseSession_def Let_def t)
    qed
    then show ?thesis using block m set_deviceClosers by (intro exI [of _ key]) auto
  qed simp
qed

text \<open>An admitted session's identity has no block, so its migration moves none.\<close>

lemma candidates:
  "set (candidateDeviceIDs i) = {ri_deviceID i, ri_previousDeviceID i, ri_legacyDeviceID i} - {[]}"
  by (auto simp: candidateDeviceIDs_def)

lemma mergeClientKey_blocked:
  assumes "map_of (cs_BlockedDevices (cp_state c)) old = None"
  shows "map_of (cs_BlockedDevices (cp_state (mergeClientKey c old new t d))) = map_of (cs_BlockedDevices (cp_state c))"
  using assms by (auto simp: mergeClientKey_def mergeBlocked_def mget_def Let_def split: option.splits)

lemma migrate_blocked:
  assumes "\<And>k. k \<in> set (migration_keys E c i r ip) \<Longrightarrow> map_of (cs_BlockedDevices (cp_state c)) k = None"
  shows "map_of (cs_BlockedDevices (cp_state (migrateClientIdentity E c i r ip))) = map_of (cs_BlockedDevices (cp_state c))"
proof -
  have "map_of (cs_BlockedDevices (cp_state (foldl (\<lambda>c old. if old = new \<or> \<not> mhas (cs_Clients (cp_state c)) old then c
          else mergeClientKey c old new t d) c ks))) = map_of (cs_BlockedDevices (cp_state c))"
    if "\<And>k. k \<in> set ks \<Longrightarrow> map_of (cs_BlockedDevices (cp_state c)) k = None" for new t d ks c
    using that by (induction ks arbitrary: c) (auto simp: mergeClientKey_blocked)
  then show ?thesis using assms by (simp add: migrateClientIdentity_def Let_def)
qed

lemma migration_keys_candidates:
  assumes "k \<in> set (migration_keys E c i r ip)" and "ri_legacyDeviceID i \<noteq> []"
  shows "\<exists>j \<in> set (candidateDeviceIDs i). k = ri_tokenID i @ '':'' @ j"
  using assms by (auto simp: migration_keys_def candidates Let_def split: if_splits)

lemma legacy_nonempty: "ri_legacyDeviceID (sessionIdentityDetails E token r) \<noteq> []"
  by (simp add: sessionIdentityDetails_def Let_def split: prod.splits)

lemma setClient_blocked [simp]: "cs_BlockedDevices (cp_state (setClient c k v)) = cs_BlockedDevices (cp_state c)"
  by (simp add: setClient_def)

text \<open>
  C38. Registration never unblocks: as long as fewer than 4096 clients are known, registering a
  session, with all the migration and merging of client records it does, leaves the set of blocked
  devices and their times as they are.
\<close>

theorem registerSession_keeps_blocks:
  assumes "length (cs_Clients (cp_state c)) < maxTrackedClients"
    and "registerSession E c token r cl now nowT = (c', h, ok, lookup)"
  shows "map_of (cs_BlockedDevices (cp_state c')) = map_of (cs_BlockedDevices (cp_state c))"
proof -
  let ?i = "sessionIdentityDetails E token (Some r)"
  consider "c' = c" | h' where "enterSession E c ?i r cl now nowT = (c', h', lookup)" "\<not> refuseSession E c token ?i"
    using assms(2) by (auto simp: registerSession_def Let_def split: if_splits prod.splits)
  then show ?thesis
  proof cases
    case 2
    have p: "pruneClients c = c" using assms(1) by (simp add: pruneClients_def Let_def)
    have "map_of (cs_BlockedDevices (cp_state c)) k = None"
      if "k \<in> set (migration_keys E c ?i r (clientRemoteIP (Some r)))" for k
      using migration_keys_candidates [OF that legacy_nonempty] 2(2)
      by (auto simp: refuseSession_def list_ex_iff mhas_iff_map_of)
    from migrate_blocked [OF this]
    have e: "map_of (cs_BlockedDevices (cp_state (entered E c ?i r cl now))) = map_of (cs_BlockedDevices (cp_state c))"
      by (simp add: entered_def Let_def p)
    obtain v where "startLocation (entered E c ?i r cl now) (ri_tokenID ?i @ '':'' @ ri_deviceID ?i) v
        (clientRemoteIP (Some r)) nowT = (c', lookup)"
      using enterSession_entered(1) [OF 2(1)] by blast
    from startLocation_effect [OF this] show ?thesis using e by auto
  qed simp
qed

section \<open>Pruning\<close>

lemma sorted_take_drop:
  assumes "sorted_wrt R xs" and "x \<in> set (take n xs)" and "y \<in> set (drop n xs)"
  shows "R x y"
  using assms sorted_wrt_append [of R "take n xs" "drop n xs"] by simp

lemma map_of_last_seen:
  "map_of (map (\<lambda>(key, client). (key, tc_LastSeen client)) m) k = map_option tc_LastSeen (map_of m k)"
  by (induction m) auto

lemma prune_order_sorted:
  assumes "gomap_ok (cs_Clients (cp_state c))"
  shows "sorted_wrt (\<lambda>a b.
      (b \<notin> set (active_client_keys c) \<longrightarrow> a \<notin> set (active_client_keys c))
      \<and> ((a \<in> set (active_client_keys c) \<longleftrightarrow> b \<in> set (active_client_keys c)) \<longrightarrow>
          tc_LastSeen (the (map_of (cs_Clients (cp_state c)) a)) \<le> tc_LastSeen (the (map_of (cs_Clients (cp_state c)) b))))
    (prune_order c)"
proof -
  let ?m = "cs_Clients (cp_state c)" and ?A = "set (active_client_keys c)"
  let ?items = "map (\<lambda>(key, client). (key, tc_LastSeen client)) ?m"
  let ?in = "sort_key snd (filter (\<lambda>(key, lastSeen). key \<notin> ?A) ?items)"
  let ?ac = "sort_key snd (filter (\<lambda>(key, lastSeen). key \<in> ?A) ?items)"
  have seen: "l = tc_LastSeen (the (map_of ?m k))" if "(k, l) \<in> set ?items" for k l
    using that gomap_ok_map_of [OF assms] by force
  have order: "prune_order c = map fst (?in @ ?ac)"
    by (simp add: prune_order_def Let_def)
  have s: "sorted_wrt (\<lambda>a b. snd a \<le> snd b) (sort_key snd xs)" for xs :: "(string \<times> string) list"
    using sorted_sort_key [of snd xs] by (simp add: sorted_map)
  have mem: "x \<in> set ?items \<and> fst x \<notin> ?A" if "x \<in> set ?in" for x using that by auto
  have mem': "x \<in> set ?items \<and> fst x \<in> ?A" if "x \<in> set ?ac" for x using that by auto
  have val: "snd x = tc_LastSeen (the (map_of ?m (fst x)))" if "x \<in> set ?items" for x
    using seen [of "fst x" "snd x"] that by simp
  let ?R = "\<lambda>x y. (fst y \<notin> ?A \<longrightarrow> fst x \<notin> ?A) \<and> ((fst x \<in> ?A \<longleftrightarrow> fst y \<in> ?A) \<longrightarrow>
      tc_LastSeen (the (map_of ?m (fst x))) \<le> tc_LastSeen (the (map_of ?m (fst y))))"
  have "sorted_wrt ?R ?in"
    by (rule sorted_wrt_mono_rel [OF _ s]) (use mem val in metis)
  moreover have "sorted_wrt ?R ?ac"
    by (rule sorted_wrt_mono_rel [OF _ s]) (use mem' val in metis)
  moreover have "?R x y" if "x \<in> set ?in" "y \<in> set ?ac" for x y
    using mem [OF that(1)] mem' [OF that(2)] by simp
  ultimately show ?thesis
    unfolding order sorted_wrt_map sorted_wrt_append by blast
qed

text \<open>
  C40. Pruning makes room for one client and no more: at the limit it leaves 4095 clients, unchanged;
  a client with a live session goes only when no other is left, the longest unseen go first, and
  exactly the clients that go lose their block, so that a blocked device that is pruned is no longer
  blocked.
\<close>

theorem pruneClients_spec:
  assumes "gomap_ok (cs_Clients (cp_state c))" and "length (cs_Clients (cp_state c)) = maxTrackedClients"
  shows "\<exists>gone. card gone = 1 \<and> gone \<subseteq> fst ` set (cs_Clients (cp_state c))
    \<and> (\<forall>k. map_of (cs_Clients (cp_state (pruneClients c))) k =
            (if k \<in> gone then None else map_of (cs_Clients (cp_state c)) k))
    \<and> (\<forall>k. map_of (cs_BlockedDevices (cp_state (pruneClients c))) k =
            (if k \<in> gone then None else map_of (cs_BlockedDevices (cp_state c)) k))
    \<and> (\<forall>a \<in> gone. \<forall>b \<in> fst ` set (cs_Clients (cp_state c)) - gone.
         (b \<notin> set (active_client_keys c) \<longrightarrow> a \<notin> set (active_client_keys c))
         \<and> ((a \<in> set (active_client_keys c) \<longleftrightarrow> b \<in> set (active_client_keys c)) \<longrightarrow>
              tc_LastSeen (the (map_of (cs_Clients (cp_state c)) a)) \<le>
              tc_LastSeen (the (map_of (cs_Clients (cp_state c)) b))))"
proof -
  let ?m = "cs_Clients (cp_state c)"
  note g = assms(1)
  note order = prune_order_keys [OF g]
  let ?n = "length ?m - maxTrackedClients + 1"
  let ?gone = "set (take ?n (prune_order c))"
  have n: "?n = 1" using assms(2) by simp
  have "length (take ?n (prune_order c)) = 1" unfolding n using order(3) assms(2) by (simp add: maxTrackedClients_def)
  then have "card ?gone = 1" using order(1) distinct_card [of "take ?n (prune_order c)"] by simp
  moreover have "?gone \<subseteq> fst ` set ?m" using order(2) by (auto dest: in_set_takeD)
  moreover have "pruneClients c = c\<lparr>cp_state := (cp_state c)\<lparr>cs_Clients := filter (\<lambda>(k, v). k \<notin> ?gone) ?m,
      cs_BlockedDevices := filter (\<lambda>(k, v). k \<notin> ?gone) (cs_BlockedDevices (cp_state c))\<rparr>\<rparr>"
    using assms(2) by (simp add: pruneClients_def Let_def)
  moreover have "(b \<notin> set (active_client_keys c) \<longrightarrow> a \<notin> set (active_client_keys c))
      \<and> ((a \<in> set (active_client_keys c) \<longleftrightarrow> b \<in> set (active_client_keys c)) \<longrightarrow>
           tc_LastSeen (the (map_of ?m a)) \<le> tc_LastSeen (the (map_of ?m b)))"
    if "a \<in> ?gone" "b \<in> fst ` set ?m - ?gone" for a b
  proof (rule sorted_take_drop [OF prune_order_sorted [OF g] that(1)])
    show "b \<in> set (drop ?n (prune_order c))"
      using that(2) order(2) append_take_drop_id [of ?n "prune_order c"]
      by (metis Diff_iff Un_iff set_append set_map)
  qed
  ultimately show ?thesis
    by (intro exI [of _ ?gone] conjI ballI allI) (simp_all add: map_of_filter_key)
qed

end
