(* ===== verification/Session_Props.thy ===== *)
theory Session_Props
  imports Device_Props
begin

text \<open>
  Properties of the sessions in memory, of the delayed writing of client data, and of the address a
  client is recorded with.
\<close>

section \<open>Accounting of sessions\<close>

text \<open>The sessions a control plane holds: token id and session number.\<close>

definition session_ids :: "controlPlane \<Rightarrow> (string \<times> 64 word) set" where
  "session_ids c = {(t, n). n \<in> fst ` set (mget [] (cp_active c) t)}"

lemma in_session_ids: "(t, n) \<in> session_ids c \<longleftrightarrow> n \<in> fst ` set (mget [] (cp_active c) t)"
  by (simp add: session_ids_def)

lemma session_ids_eqI: "(\<And>t n. (t, n) \<in> session_ids c \<longleftrightarrow> (t, n) \<in> A) \<Longrightarrow> session_ids c = A"
  by auto

lemma session_ids_active: "cp_active c' = cp_active c \<Longrightarrow> session_ids c' = session_ids c"
  by (simp add: session_ids_def)

lemma map_of_map_snd: "map_of (map (\<lambda>(t, ss). (t, g ss)) m) t = map_option g (map_of m t)"
  by (induction m) auto

lemma session_ids_move: "fst ` set (mget [] (moveSessions old new m) t) = fst ` set (mget [] m t)"
proof -
  have "fst ` set (map (\<lambda>(k, s). (k, h s)) ss) = fst ` set ss" for h :: "trackedSession \<Rightarrow> trackedSession" and ss :: sessions
    by force
  then show ?thesis
    unfolding moveSessions_def mget_def map_of_map_snd by (cases "map_of m t") (simp_all only: option.simps option.map)
qed

lemma session_ids_merge [simp]: "session_ids (mergeClientKey c old new t d) = session_ids c"
  by (simp add: session_ids_def mergeClientKey_def Let_def session_ids_move split: option.splits)

lemma session_ids_migrate [simp]: "session_ids (migrateClientIdentity E c i r ip) = session_ids c"
proof -
  have "session_ids (foldl (\<lambda>c old. if old = new \<or> \<not> mhas (cs_Clients (cp_state c)) old then c
          else mergeClientKey c old new t d) c ks) = session_ids c" for new t d ks
    by (induction ks arbitrary: c) simp_all
  then show ?thesis by (simp add: migrateClientIdentity_def Let_def)
qed

lemma cp_active_simps [simp]:
  "cp_active (setClient c k v) = cp_active c" "cp_active (pruneClients c) = cp_active c"
  "cp_active (touchClient c k now) = cp_active c"
  by (auto simp: setClient_def pruneClients_def touchClient_def Let_def split: option.splits)

lemma nextSessionID_simps [simp]:
  "cp_nextSessionID (setClient c k v) = cp_nextSessionID c" "cp_nextSessionID (pruneClients c) = cp_nextSessionID c"
  "cp_nextSessionID (mergeClientKey c old new t d) = cp_nextSessionID c"
  by (auto simp: setClient_def pruneClients_def mergeClientKey_def Let_def split: option.splits)

lemma nextSessionID_migrate [simp]: "cp_nextSessionID (migrateClientIdentity E c i r ip) = cp_nextSessionID c"
proof -
  have "cp_nextSessionID (foldl (\<lambda>c old. if old = new \<or> \<not> mhas (cs_Clients (cp_state c)) old then c
          else mergeClientKey c old new t d) c ks) = cp_nextSessionID c" for new t d ks
    by (induction ks arbitrary: c) simp_all
  then show ?thesis by (simp add: migrateClientIdentity_def Let_def)
qed

lemma fst_set_update: "fst ` set (mset_key k v m) = insert k (fst ` set m)"
  by (induction m) auto

lemma session_ids_add: "session_ids (addSession c t x) = insert (t, cp_nextSessionID c + 1) (session_ids c)"
proof (rule session_ids_eqI)
  fix k n
  show "(k, n) \<in> session_ids (addSession c t x) \<longleftrightarrow> (k, n) \<in> insert (t, cp_nextSessionID c + 1) (session_ids c)"
    by (cases "k = t") (simp_all add: in_session_ids addSession_def Let_def fst_set_update)
qed

lemma session_ids_remove: "session_ids (removeSession c t n) = session_ids c - {(t, n)}"
proof (rule session_ids_eqI)
  fix k j
  have keys: "fst ` set (mdel n ss) = fst ` set ss - {n}" for ss :: sessions by force
  show "(k, j) \<in> session_ids (removeSession c t n) \<longleftrightarrow> (k, j) \<in> session_ids c - {(t, n)}"
  proof (cases "map_of (cp_active c) t")
    case None
    then have "mget [] (cp_active c) t = []" by (simp add: mget_def)
    then show ?thesis using None by (cases "k = t") (simp_all add: in_session_ids removeSession_def)
  next
    case (Some ss)
    have "mget [] (cp_active (removeSession c t n)) k = (if k = t then mdel n ss else mget [] (cp_active c) k)"
      using Some by (simp add: removeSession_def)
    moreover have "mget [] (cp_active c) t = ss" using Some by (simp add: mget_def)
    ultimately show ?thesis
      using keys [of ss] by (cases "k = t") (simp_all add: in_session_ids del: set_mdel)
  qed
qed

lemma unregister_sessions:
  assumes "unregister d h at = (d', g)" and "\<not> sh_done h"
  shows "session_ids d' = session_ids d - {(sh_tokenID h, sh_sessionID h)}" and "unregister e g at' = (e, g)"
proof -
  have "cp_active d' = cp_active (removeSession d (sh_tokenID h) (sh_sessionID h))" and g: "g = h\<lparr>sh_done := True\<rparr>"
    using assms by (auto simp: unregister_def)
  then have "session_ids d' = session_ids (removeSession d (sh_tokenID h) (sh_sessionID h))"
    by (intro session_ids_active)
  then show "session_ids d' = session_ids d - {(sh_tokenID h, sh_sessionID h)}"
    by (simp only: session_ids_remove)
  show "unregister e g at' = (e, g)" by (simp add: unregister_def g)
qed

text \<open>
  C34. Sessions are accounted exactly: registration adds one session, named by the returned handle,
  whatever records it migrates or prunes; the handle's \<open>unregister\<close> removes that session and no other,
  in any later state; calling it again does nothing; a refused registration changes nothing.
\<close>

theorem sessions_accounted:
  assumes "registerSession E c token r cl now nowT = (c', h, ok, lookup)" and "cp_enabled c"
  shows "(ok \<longleftrightarrow> h \<noteq> None) \<and> (\<not> ok \<longrightarrow> c' = c)
    \<and> (\<forall>handle. h = Some handle \<longrightarrow>
         session_ids c' = insert (sh_tokenID handle, sh_sessionID handle) (session_ids c)
         \<and> sh_sessionID handle = cp_nextSessionID c + 1 \<and> \<not> sh_done handle
         \<and> (\<forall>d at d' handle'. unregister d handle at = (d', handle') \<longrightarrow>
              session_ids d' = session_ids d - {(sh_tokenID handle, sh_sessionID handle)}
              \<and> (\<forall>e at'. unregister e handle' at' = (e, handle'))))"
proof -
  let ?i = "sessionIdentityDetails E token (Some r)"
  consider "c' = c" "h = None" "\<not> ok" | h' where "enterSession E c ?i r cl now nowT = (c', h', lookup)" "h = Some h'" "ok"
    using assms by (auto simp: registerSession_def Let_def split: if_splits prod.splits)
  then show ?thesis
  proof cases
    case 2
    let ?e = "entered E c ?i r cl now"
    obtain v where v: "startLocation ?e (ri_tokenID ?i @ '':'' @ ri_deviceID ?i) v (clientRemoteIP (Some r)) nowT = (c', lookup)"
      using enterSession_entered(1) [OF 2(1)] by blast
    note h = enterSession_entered(2) [OF 2(1)]
    have next_id: "cp_nextSessionID ?e = cp_nextSessionID c + 1"
      by (simp add: entered_def addSession_def Let_def)
    have "session_ids ?e = insert (ri_tokenID ?i, cp_nextSessionID c + 1) (session_ids c)"
      unfolding entered_def Let_def
      by (subst session_ids_active [OF schedule_simps(2)], subst session_ids_add)
        (simp add: session_ids_active [of "setClient _ _ _"] session_ids_active [of "pruneClients _"])
    then have "session_ids c' = insert (ri_tokenID ?i, cp_nextSessionID c + 1) (session_ids c)"
      using startLocation_effect [OF v] session_ids_active by metis
    moreover have "session_ids d' = session_ids d - {(sh_tokenID h', sh_sessionID h')}
        \<and> (\<forall>e at'. unregister e g at' = (e, g))" if "unregister d h' at = (d', g)" for d at d' g
      using unregister_sessions [OF that] by (simp add: h)
    ultimately show ?thesis using 2 h next_id by simp
  qed simp
qed

section \<open>Delayed writing\<close>

lemma shutdown_finish_writes:
  assumes "reachable (control_init C cfg) (control_step C cfg) (c, disk)"
    and "shutdown_finish C c disk io = (c', disk', fl)"
  shows "fl \<or> (\<not> cp_clientDirty c' \<and> (cp_clientDirty c \<longrightarrow> disk' = ce_marshalState C (cp_state c) \<and> disk' \<noteq> None))"
proof -
  note r = reachable_control [OF assms(1)]
  let ?c = "c\<lparr>cp_clientFlush := None\<rparr>"
  have v: "cs_Version (cp_state ?c) = controlStateVersion" "cp_statePath ?c \<noteq> []"
    using control_okD(5) [OF r(1)] r(4) by simp_all
  obtain c1 d1 f where p: "persistLocked C ?c disk io = (c1, d1, f)" by (metis prod_cases3)
  note e = persistLocked_effect [OF p v]
  have w: "d1 = ce_marshalState C (cp_state c) \<and> d1 \<noteq> None" if "\<not> f" using e(3) [OF that] by auto
  show ?thesis
    using assms(2) p e(1) w by (cases f) (auto simp: shutdown_finish_def Let_def split: if_splits)
qed

text \<open>
  C33. Client data is not forgotten while the relay serves: in every reachable state that is not
  shutting down unwritten client data has a timer armed; the timer's flush either writes the present
  state and clears the mark, or re-arms the timer; and the last flush of \<open>shutdown\<close> reports an error or
  leaves nothing unwritten. What comes after that flush is lost: under the mark of a shutdown a session
  that unregisters late leaves client data unwritten with no timer for it.
\<close>

theorem client_data_written:
  assumes "reachable (control_init C cfg) (control_step C cfg) (c, disk)"
  shows "(cp_clientDirty c \<longrightarrow> \<not> cp_shuttingDown c \<longrightarrow> cp_clientFlush c \<noteq> None)
    \<and> (\<forall>io c' disk'. cp_clientDirty c \<longrightarrow> flushClientState C c disk io = (c', disk') \<longrightarrow>
         cp_state c' = cp_state c
         \<and> (\<not> cp_clientDirty c' \<and> disk' = ce_marshalState C (cp_state c) \<and> disk' \<noteq> None
            \<or> cp_clientDirty c' \<and> cp_clientFlush c' = Some clientPersistRetry))
    \<and> (\<forall>io c' disk' fl. shutdown_finish C c disk io = (c', disk', fl) \<longrightarrow>
         fl \<or> (\<not> cp_clientDirty c' \<and> (cp_clientDirty c \<longrightarrow> disk' = ce_marshalState C (cp_state c) \<and> disk' \<noteq> None)))
    \<and> (\<forall>h now c' h'. cp_shuttingDown c \<longrightarrow> cp_clientFlush c = None \<longrightarrow> \<not> sh_done h \<longrightarrow>
         unregister c h now = (c', h') \<longrightarrow> cp_clientDirty c' \<and> cp_clientFlush c' = None)"
proof (intro conjI allI impI)
  note r = reachable_control [OF assms]
  let ?c = "c\<lparr>cp_clientFlush := None\<rparr>"
  have v: "cs_Version (cp_state ?c) = controlStateVersion" "cp_statePath ?c \<noteq> []"
    using control_okD(5) [OF r(1)] r(4) by simp_all
  show "cp_clientFlush c \<noteq> None" if "cp_clientDirty c" "\<not> cp_shuttingDown c"
    using control_okD(4) [OF r(1)] that by (simp add: flush_ok_def)
  show "cp_clientDirty c'" "cp_clientFlush c' = None"
    if "cp_shuttingDown c" "cp_clientFlush c = None" "\<not> sh_done h" "unregister c h now = (c', h')" for h now c' h'
    using that r(4)
    by (auto simp: unregister_def touchClient_def setClient_def removeSession_def scheduleClientPersist_def Let_def
        split: option.splits)
  fix io c' disk'
  obtain c1 d1 f where p: "persistLocked C ?c disk io = (c1, d1, f)" by (metis prod_cases3)
  note e = persistLocked_effect [OF p v]
  have w: "d1 = ce_marshalState C (cp_state c) \<and> d1 \<noteq> None" if "\<not> f" using e(3) [OF that] by auto
  show "cp_state c' = cp_state c"
    if "cp_clientDirty c" "flushClientState C c disk io = (c', disk')"
    using that p e(1) by (cases f) (auto simp: flushClientState_def Let_def)
  show "\<not> cp_clientDirty c' \<and> disk' = ce_marshalState C (cp_state c) \<and> disk' \<noteq> None
            \<or> cp_clientDirty c' \<and> cp_clientFlush c' = Some clientPersistRetry"
    if "cp_clientDirty c" "flushClientState C c disk io = (c', disk')"
    using that p e(1) w by (cases f) (auto simp: flushClientState_def Let_def)
  show "fl \<or> (\<not> cp_clientDirty c' \<and> (cp_clientDirty c \<longrightarrow> disk' = ce_marshalState C (cp_state c) \<and> disk' \<noteq> None))"
    if "shutdown_finish C c disk io = (c', disk', fl)" for fl
    using shutdown_finish_writes [OF assms that] .
qed

section \<open>The address of a client\<close>

text \<open>
  A directly connected client cannot choose its recorded address: unless the peer of the TCP
  connection is a loopback or private address, the recorded address is the peer's own, whatever the
  forwarding headers say.
\<close>

theorem clientRemoteIP_unspoofable:
  assumes "host = (case splitHostPort (trimSpace (rq_remoteAddr r)) of
      None \<Rightarrow> trimSpace (rq_remoteAddr r) | Some (h, p) \<Rightarrow> h)"
    and "\<And>ip. parseIP host = Some ip \<Longrightarrow> \<not> isLoopback ip \<and> \<not> isPrivate ip"
  shows "clientRemoteIP (Some r) = (case parseIP host of None \<Rightarrow> [] | Some ip \<Rightarrow> ip_string ip)
    \<and> clientRemoteIP (Some (r\<lparr>rq_header := headers\<rparr>)) = clientRemoteIP (Some r)"
  using assms by (auto simp: clientRemoteIP_def Let_def split: option.splits)

end
