(* ===== verification/Sample_Control.thy ===== *)
theory Sample_Control
  imports Session_Props Sample_Topology
begin

text \<open>
  Concrete runs of the owner control plane, the witnesses of its properties: one configured token,
  a codec that writes a state as its position in a table, and the requests of one device.
\<close>

section \<open>A codec, a start and a creation\<close>

definition sample_codec :: "controlState list \<Rightarrow> controlenv" where
  "sample_codec tbl =
     \<lparr>ce_go = sample_env,
      ce_marshalState = (\<lambda>s. if s \<in> set tbl
         then Some (replicate (length (takeWhile (\<lambda>x. x \<noteq> s) tbl)) CHR ''x'') else None),
      ce_decodeState = (\<lambda>d. if length d < length tbl then Some (tbl ! length d, False, True) else None)\<rparr>"

lemma sample_codec_go [simp]: "ce_go (sample_codec tbl) = sample_env"
  by (simp add: sample_codec_def)

lemma sample_codec_one: "ce_marshalState (sample_codec [s]) s = Some []"
  by (simp add: sample_codec_def)

lemma structural_same_state: "structural s \<Longrightarrow> same_state s s"
  by (auto simp: same_state_def structural_def same_token_def same_client_def
      intro!: list.rel_refl option.rel_refl)

lemma takeWhile_neq: "s \<in> set tbl \<Longrightarrow> tbl ! length (takeWhile (\<lambda>x. x \<noteq> s) tbl) = s"
  by (induction tbl) auto

lemma takeWhile_less: "s \<in> set tbl \<Longrightarrow> length (takeWhile (\<lambda>x. x \<noteq> s) tbl) < length tbl"
  by (induction tbl) auto

lemma sample_codec_ok: "codec_ok (sample_codec tbl)"
  by (auto simp: codec_ok_def sample_codec_def takeWhile_neq takeWhile_less structural_same_state
      split: if_splits)

lemma sample_owner_config: "owner_config sample_env sample_config"
  by (simp add: owner_config_def sample_config_def defaultConfig_def sample_trims sample_token_def
      sample_owner_def sample_canonical normalizeHash_canonical)

lemma sample_control_env: "control_env (sample_codec tbl) sample_config"
  using sample_codec_ok sample_owner_config sample_env_ok
  by (simp add: control_env_def times_ok_def sample_env_def)

definition sample_start :: controlPlane where
  "sample_start = (freshControlPlane sample_config)
     \<lparr>cp_state := emptyState\<lparr>cs_InstanceID := ''ri_'' @ hexEncode (replicate 16 171)\<rparr>\<rparr>"

lemma sample_start_new:
  "newControlPlane (sample_codec tbl) sample_config FileAbsent (Some (replicate 16 171)) = Inr sample_start"
proof -
  let ?c = "freshControlPlane sample_config"
  have c: "trimSpace (cf_InstanceID sample_config) = []" "trimSpace (ac_GeoIPURL (cf_Admin sample_config)) = []"
    by (simp_all add: sample_config_def defaultConfig_def)
  have v: "validateStateAgainstConfig sample_env ?c = None"
    by (simp add: validateStateAgainstConfig_def freshControlPlane_def emptyState_def sample_config_def Let_def)
  have e: "cp_state ?c = emptyState" "cs_InstanceID emptyState = []"
    by (simp_all add: freshControlPlane_def emptyState_def)
  have "newControlPlane (sample_codec tbl) sample_config FileAbsent (Some (replicate 16 171))
      = finishControlPlane sample_config (Some (replicate 16 171)) ?c"
    by (simp add: newControlPlane_def load_def v Let_def)
  also have "\<dots> = Inr sample_start"
    by (simp add: finishControlPlane_def c e generateInstanceID_def sample_start_def)
  finally show ?thesis .
qed

lemma sample_reach:
  "reachable (control_init (sample_codec tbl) sample_config) (control_step (sample_codec tbl) sample_config)
     (sample_start, None)"
  using sample_control_env sample_start_new [of tbl]
  by (intro reachable_init) (auto simp: control_init_def sixteen_bytes_def intro!: exI [of _ "Some (replicate 16 171)"])

lemma sample_start_fields:
  "cp_baseTokens sample_start = [sample_token]" "cs_AddedTokens (cp_state sample_start) = []"
  "cs_RevokedHashes (cp_state sample_start) = []" "cs_DeletedTokenIDs (cp_state sample_start) = []"
  "cs_Clients (cp_state sample_start) = []" "cs_BlockedDevices (cp_state sample_start) = []"
  "cp_active sample_start = []" "cp_shuttingDown sample_start = False" "cp_resolver sample_start = None"
  "cs_Version (cp_state sample_start) = controlStateVersion" "cp_nextSessionID sample_start = 0"
  "cp_clientDirty sample_start = False"
  by (simp_all add: sample_start_def freshControlPlane_def emptyState_def sample_config_def)

lemma sample_start_enabled: "cp_enabled sample_start" "cp_statePath sample_start = ''/var/lib/state.json''"
  by (simp_all add: cp_enabled_def sample_start_def freshControlPlane_def sample_config_def sample_trims)

lemma sample_persist:
  assumes "cp_statePath c \<noteq> []" and "cs_Version (cp_state c) = controlStateVersion"
    and "ce_marshalState C (cp_state c) = Some d"
  shows "persistCriticalLocked C c disk all_io = (c\<lparr>cp_clientDirty := False, cp_clientFlush := None\<rparr>, Some d, False)"
proof -
  have e: "c\<lparr>cp_state := (cp_state c)\<lparr>cs_Version := controlStateVersion\<rparr>\<rparr> = c"
    using assms(2) by (metis controlPlane.surjective controlPlane.update_convs(4) controlState.surjective
        controlState.update_convs(1))
  show ?thesis
    unfolding persistCriticalLocked_def persistLocked_def Let_def e
    using assms by (simp add: writeStateFile_def all_io_def)
qed

lemma sanitizeDisplay_plain:
  assumes "\<forall>c \<in> set s. plain_char c" and "length s \<le> n"
  shows "sanitizeDisplay s n = s"
proof -
  have a: "\<forall>c \<in> set s. is_ascii c" using assms(1) by (auto intro: plain_ascii)
  have f: "filter kept_rune (codes s) = codes s"
    using assms(1) by (auto simp: filter_id_conv kept_rune_def codes_def plain_char_def)
  have "concat (map encodeRune (codes s)) = codes s"
    using assms(1) by (induction s) (auto simp: encodeRune_def plain_char_def)
  then have "of_runes (codes s) = s" by (simp add: of_runes_def)
  then show ?thesis using assms a by (simp add: sanitizeDisplay_def runes_ascii f)
qed

definition sample_secret :: string where
  "sample_secret = ''tgpr_'' @ b64Encode UrlAlphabet False (replicate 32 0)"

lemma sample_secret_valid: "validClientSecret sample_secret" "trimSpace sample_secret = sample_secret" "sample_secret \<noteq> []"
proof -
  have p: "\<forall>c \<in> set (b64Encode UrlAlphabet False (replicate 32 0)). plain_char c"
    using b64Encode_plain [of "replicate 32 0"] by auto
  have d: "trimPrefix sample_secret ''tgpr_'' = b64Encode UrlAlphabet False (replicate 32 0)"
    unfolding sample_secret_def by (rule trimPrefix_append)
  have h: "hasPrefix sample_secret ''tgpr_''" unfolding sample_secret_def by (rule hasPrefix_append)
  have "b64Decode UrlAlphabet False (b64Encode UrlAlphabet False (replicate 32 0)) = Some (replicate 32 0)"
    by (rule b64Decode_encode_raw) simp
  then show "validClientSecret sample_secret"
    unfolding validClientSecret_def d using h by (simp add: sample_secret_def b64_raw_length)
  show "trimSpace sample_secret = sample_secret"
    using p by (intro trimSpace_all_plain) (auto simp: sample_secret_def plain_char_def)
  show "sample_secret \<noteq> []" by (simp add: sample_secret_def)
qed

definition sample_new :: Token where
  "sample_new = \<lparr>tk_ID = ''tok_'' @ hexEncode (take 12 (sample_sha256 ''tgproxy-token-request:request-1'')),
     tk_Name = ''tablet'', tk_Hash = TokenHash sample_env sample_secret, tk_CreatedAt = ''now''\<rparr>"

definition sample_again :: Token where
  "sample_again = \<lparr>tk_ID = ''tok_'' @ hexEncode (replicate 12 7), tk_Name = ''tablet'',
     tk_Hash = TokenHash sample_env sample_secret, tk_CreatedAt = ''now''\<rparr>"

lemma sample_inputs:
  "createToken_inputs ''tablet'' sample_secret ''request-1'' sb = Inr (''tablet'', sample_secret, ''request-1'')"
  "createToken_inputs ''tablet'' sample_secret [] sb = Inr (''tablet'', sample_secret, [])"
proof -
  have n: "sanitizeDisplay ''tablet'' 128 = ''tablet''" by (rule sanitizeDisplay_plain) (simp_all add: plain_char_def)
  have k: "sanitizeIdentifier ''request-1'' 96 = ''request-1''"
    by (rule cp_ident_sanitize) (simp add: cp_ident_def cp_ident_char_def is_alnum_def is_lower_def is_digit_def)
  show "createToken_inputs ''tablet'' sample_secret ''request-1'' sb = Inr (''tablet'', sample_secret, ''request-1'')"
    using sample_secret_valid by (simp add: createToken_inputs_def n k)
  show "createToken_inputs ''tablet'' sample_secret [] sb = Inr (''tablet'', sample_secret, [])"
    using sample_secret_valid by (simp add: createToken_inputs_def n sanitizeIdentifier_def)
qed

lemma sample_ids:
  "createToken_id sample_env ''request-1'' ib = Some (tk_ID sample_new)"
  "createToken_id sample_env [] (Some (replicate 12 7)) = Some (tk_ID sample_again)"
  by (simp_all add: createToken_id_def sample_new_def sample_again_def sample_env_def)

text \<open>A creation that is no replay, with every system call succeeding.\<close>

lemma sample_creation:
  assumes "createToken_inputs name secret key sb = Inr (cn, raw, ck)"
    and "createToken_id (ce_go C) ck ib = Some i"
    and "t = \<lparr>tk_ID = i, tk_Name = cn, tk_Hash = TokenHash (ce_go C) raw, tk_CreatedAt = now\<rparr>"
    and "ck = [] \<or> cs_DeletedTokenIDs (cp_state c) = [] \<and> i \<notin> StableTokenID (ce_go C) ` set (allTokens (ce_go C) c)"
    and "length (allTokens (ce_go C) c) < 1024" and "cp_enabled c" and "cp_statePath c \<noteq> []"
    and "cs_Version (cp_state c) = controlStateVersion" and "ce_marshalState C (cp_state (created c t)) = Some d"
  shows "createToken C c disk all_io name secret key sb ib now = (created c t, Some d, Inr (t, raw, False))"
proof -
  let ?c = "c\<lparr>cp_state := (cp_state c)\<lparr>cs_AddedTokens := cs_AddedTokens (cp_state c) @ [t]\<rparr>\<rparr>"
  have p: "persistCriticalLocked C ?c disk all_io = (created c t, Some d, False)"
    using sample_persist [of ?c C d disk] assms(7,8,9) by (simp add: created_def)
  have f: "find (\<lambda>u. StableTokenID (ce_go C) u = i) (allTokens (ce_go C) c) = None" if "ck \<noteq> []"
    using assms(4) that by (auto simp: find_None_iff)
  show ?thesis
    using assms(1-6) f p by (auto simp: createToken_def createToken_locked_def Let_def)
qed

lemma sample_stable_id: "StableTokenID sample_env sample_token = ''primary''"
  by (simp add: StableTokenID_def sample_token_def validIdentifier_plain plain_ident_def ident_char_def
      is_alnum_def is_lower_def sample_trims)

lemma sample_tokens_start: "allTokens sample_env sample_start = [sample_token]"
proof -
  have "hashes_ok sample_env (cp_baseTokens sample_start @ cs_AddedTokens (cp_state sample_start))"
    by (simp add: hashes_ok_def sample_start_fields sample_token_def sample_canonical token_hashes_def
        normalizeHash_canonical)
  moreover have "listed sample_env sample_token = sample_token"
    by (simp add: listed_def sample_stable_id, simp add: sample_token_def sample_canonical normalizeHash_canonical)
  ultimately show ?thesis by (simp add: allTokens_eq sample_start_fields)
qed

lemma sample_secret_new: "TokenHash sample_env sample_secret \<noteq> TokenHash sample_env ''alpha''"
  unfolding TokenHash_eq_iff [OF sample_sha256_ok]
  by (simp add: sample_env_def sample_sha256_def sample_secret_def codes_def)

lemma sample_active: "active_hashes sample_env sample_start = {TokenHash sample_env ''alpha''}"
  by (simp add: active_hashes_def token_hashes_def sample_start_fields sample_token_def sample_canonical
      normalizeHash_canonical)

definition sample_second :: controlPlane where "sample_second = created sample_start sample_new"

lemma sample_second_create:
  assumes "ce_marshalState (sample_codec tbl) (cp_state sample_second) = Some d"
  shows "createToken (sample_codec tbl) sample_start None all_io ''tablet'' sample_secret ''request-1'' sb ib ''now''
    = (sample_second, Some d, Inr (sample_new, sample_secret, False))"
  unfolding sample_second_def
proof (rule sample_creation [OF sample_inputs(1)])
  show "createToken_id (ce_go (sample_codec tbl)) ''request-1'' ib = Some (tk_ID sample_new)"
    by (simp add: sample_ids)
qed (use assms in \<open>simp_all add: sample_tokens_start sample_stable_id sample_start_fields
  sample_start_enabled sample_second_def sample_new_def\<close>)

lemma sample_second_reach:
  assumes "ce_marshalState (sample_codec tbl) (cp_state sample_second) = Some d"
  shows "reachable (control_init (sample_codec tbl) sample_config) (control_step (sample_codec tbl) sample_config)
    (sample_second, Some d)"
  by (rule reachable_step [OF sample_reach], rule step_create [OF sample_second_create [OF assms, where ib = None]])
    (simp add: twelve_bytes_def)

lemmas sample_second_written = sample_codec_one [of "cp_state sample_second"]

section \<open>Restarting and authorisation\<close>

theorem restart_succeeds_witness:
  "\<exists>c'. newControlPlane (sample_codec [cp_state sample_second]) sample_config (FileData []) None = Inr c'
     \<and> active_hashes sample_env c' = {TokenHash sample_env sample_secret, TokenHash sample_env ''alpha''}"
proof -
  have "active_hashes sample_env sample_second = {TokenHash sample_env sample_secret, TokenHash sample_env ''alpha''}"
    by (simp add: active_hashes_def token_hashes_def sample_second_def created_def sample_start_fields sample_new_def
        sample_token_def sample_canonical normalizeHash_canonical insert_commute)
  moreover have "tk_ID sample_new \<noteq> ''primary''" by (simp add: sample_new_def)
  moreover have "StableTokenID sample_env sample_new = tk_ID sample_new"
  proof (rule StableTokenID_explicit)
    note ok = control_okD(6) [OF reachable_control(1) [OF sample_second_reach [OF sample_second_written]]]
    then show "plain_ident (tk_ID sample_new)"
      by (simp add: tokens_ok_def added_ok_def sample_second_def created_def sample_start_fields)
  qed
  moreover have "normalizeHash sample_env (tk_Hash sample_new) \<noteq> normalizeHash sample_env (tk_Hash sample_token)"
    using sample_secret_new by (simp add: sample_new_def sample_token_def sample_canonical normalizeHash_canonical)
  moreover have "cp_baseTokens sample_second @ cs_AddedTokens (cp_state sample_second) = [sample_token, sample_new]"
    by (simp add: sample_second_def created_def sample_start_fields)
  ultimately show ?thesis
    using restart_succeeds [OF sample_second_reach [OF sample_second_written], of None] by (auto simp: sample_stable_id)
qed

theorem authorize_iff_active_witness:
  "authorizeClient sample_env sample_start ''Bearer alpha'' \<noteq> None
   \<and> authorizeClient sample_env sample_start ''Bearer omega'' = None"
proof -
  have b: "bearerToken ''Bearer alpha'' = ''alpha''" "bearerToken ''Bearer omega'' = ''omega''"
    by (simp_all add: bearerToken_def hasPrefix_def trimPrefix_def sample_trims)
  show ?thesis
    using authorize_iff_active [OF sample_reach [of "[]"], of "''Bearer alpha''"]
      authorize_iff_active [OF sample_reach [of "[]"], of "''Bearer omega''"] sample_hashes_differ
    by (simp add: b sample_active)
qed

section \<open>Creating and deleting\<close>

theorem createToken_spec_witness:
  "active_hashes sample_env sample_second = {TokenHash sample_env sample_secret, TokenHash sample_env ''alpha''}"
  using createToken_spec [OF sample_reach sample_second_create [OF sample_second_written, of None None]]
  by (simp add: sample_active sample_start_fields sample_new_def)

definition sample_deleted :: controlPlane where
  "sample_deleted = deleted sample_env sample_start (TokenHash sample_env ''alpha'') ''primary''"

lemma sample_delete:
  assumes "ce_marshalState (sample_codec tbl) (cp_state sample_deleted) = Some d"
  shows "deleteToken (sample_codec tbl) sample_start None all_io ''primary'' = (sample_deleted, Some d, None, [])"
proof -
  let ?h = "TokenHash sample_env ''alpha''"
  let ?c = "sample_start\<lparr>cp_state := deleted_state sample_env sample_start ?h ''primary''\<rparr>"
  have h: "normalizeHash sample_env (tk_Hash sample_token) = ?h"
    by (simp add: sample_token_def sample_canonical normalizeHash_canonical)
  have b: "\<not> buries sample_start ''primary''" by (simp add: buries_def hasPrefix_def)
  have v: "cs_Version (deleted_state sample_env sample_start ?h ''primary'') = controlStateVersion"
    by (simp add: deleted_state_def removeTokenClients_def Let_def sample_start_fields)
  have d: "ce_marshalState (sample_codec tbl) (deleted_state sample_env sample_start ?h ''primary'') = Some d"
    using assms by (simp add: sample_deleted_def deleted_def)
  have p: "persistCriticalLocked (sample_codec tbl) ?c None all_io = (sample_deleted, Some d, False)"
    using sample_persist [of ?c "sample_codec tbl" d None] v d
    by (simp add: sample_deleted_def deleted_def sample_start_enabled)
  have "find (\<lambda>token. StableTokenID sample_env token = ''primary'') (allTokens sample_env sample_start) = Some sample_token"
    by (simp add: sample_tokens_start sample_stable_id)
  then show ?thesis
    using p by (simp add: deleteToken_def Let_def sample_trims h b sample_start_fields session_closers_def
        sample_deleted_def deleted_def)
qed

lemmas sample_deleted_written = sample_codec_one [of "cp_state sample_deleted"]

theorem deleteToken_spec_witness:
  "active_hashes sample_env sample_deleted = {} \<and> authorizeClient sample_env sample_deleted ''Bearer alpha'' = None"
proof -
  have b: "bearerToken ''Bearer alpha'' = ''alpha''"
    by (simp add: bearerToken_def hasPrefix_def trimPrefix_def sample_trims)
  show ?thesis
    using deleteToken_spec [OF sample_reach sample_delete [OF sample_deleted_written]]
    by (auto simp: sample_active sample_tokens_start sample_token_def b)
qed

theorem deletion_is_permanent_witness:
  "TokenHash sample_env ''alpha'' \<notin> active_hashes sample_env sample_deleted"
  using deletion_is_permanent [OF sample_reach sample_delete [OF sample_deleted_written] rtranclp.rtrancl_refl]
  by (auto simp: sample_tokens_start sample_start_fields sample_token_def token_hashes_def sample_canonical
      normalizeHash_canonical)

section \<open>Failures and repetitions\<close>

text \<open>With an empty table the state cannot be encoded, so no mutation can be written.\<close>

lemma sample_refused:
  "createToken (sample_codec []) sample_start None all_io ''tablet'' sample_secret ''request-1'' None None ''now''
   = (sample_start, None, Inl ErrIO)"
proof -
  have c: "sample_start\<lparr>cp_state := (cp_state sample_start)\<lparr>cs_AddedTokens := [], cs_Version := controlStateVersion\<rparr>\<rparr>
      = sample_start"
    by (simp add: sample_start_def freshControlPlane_def emptyState_def)
  show ?thesis
    using c by (simp add: createToken_def createToken_locked_def Let_def sample_inputs sample_ids sample_tokens_start
        sample_stable_id sample_start_fields sample_start_enabled persistCriticalLocked_def persistLocked_def
        sample_codec_def sample_new_def)
qed

theorem failed_mutation_undone_witness:
  "same_maps (cp_state sample_start) (cp_state sample_start)
   \<and> active_hashes sample_env sample_start = active_hashes (ce_go (sample_codec [])) sample_start"
  using failed_mutation_undone [OF sample_reach [of "[]"], where c' = sample_start and disk' = None
      and e = ErrIO and cl = "[]"] sample_refused by auto

theorem createToken_repeat_witness:
  "createToken (sample_codec [cp_state sample_second]) sample_second (Some []) all_io
     ''tablet'' sample_secret ''request-1'' None None ''later''
   = (sample_second, Some [], Inr (sample_new, sample_secret, True))"
proof -
  have k: "sanitizeIdentifier ''request-1'' 96 = ''request-1''"
    by (rule cp_ident_sanitize) (simp add: cp_ident_def cp_ident_char_def is_alnum_def is_lower_def is_digit_def)
  have n: "sanitizeDisplay ''tablet'' 128 = ''tablet''" by (rule sanitizeDisplay_plain) (simp_all add: plain_char_def)
  have f: "tk_Hash sample_new \<notin> set (token_hashes sample_env (cp_baseTokens sample_start @ cs_AddedTokens (cp_state sample_start)))"
    using sample_secret_new
    by (simp add: token_hashes_def sample_start_fields sample_token_def sample_canonical normalizeHash_canonical sample_new_def)
  show ?thesis
    using createToken_repeat [OF sample_reach _ sample_second_create [OF sample_second_written, of None None],
        of all_io None None "''later''"] f
    by (simp add: twelve_bytes_def k n [simplified] sample_start_fields) (simp add: sample_new_def n)
qed

definition sample_third :: controlPlane where "sample_third = created sample_second sample_again"

lemma sample_third_table:
  "ce_marshalState (sample_codec [cp_state sample_second, cp_state sample_third]) (cp_state sample_second) = Some []"
  "ce_marshalState (sample_codec [cp_state sample_second, cp_state sample_third]) (cp_state sample_third) = Some ''x''"
proof -
  have "length (cs_AddedTokens (cp_state sample_third)) \<noteq> length (cs_AddedTokens (cp_state sample_second))"
    by (simp add: sample_third_def created_def)
  then have "cp_state sample_second \<noteq> cp_state sample_third" by metis
  then show "ce_marshalState (sample_codec [cp_state sample_second, cp_state sample_third]) (cp_state sample_second) = Some []"
    "ce_marshalState (sample_codec [cp_state sample_second, cp_state sample_third]) (cp_state sample_third) = Some ''x''"
    by (simp_all add: sample_codec_def)
qed

lemmas sample_third_reach = sample_second_reach [OF sample_third_table(1)]

lemma length_firsts: "length (firsts E out ts) \<le> length ts"
  by (induction ts arbitrary: out) (auto simp: Let_def intro: le_SucI)

lemma sample_second_tokens:
  "length (allTokens (ce_go (sample_codec [cp_state sample_second, cp_state sample_third])) sample_second) < 1024"
proof -
  have "length (allTokens sample_env sample_second)
      \<le> length (cp_baseTokens sample_second @ cs_AddedTokens (cp_state sample_second))"
    using length_firsts [of sample_env "set (cs_RevokedHashes (cp_state sample_second))"]
      allTokens_eq [OF reachable_control(3) [OF sample_third_reach]] by (metis length_map sample_codec_go)
  then show ?thesis by (simp add: sample_second_def created_def sample_start_fields)
qed

lemma sample_third_create:
  "createToken (sample_codec [cp_state sample_second, cp_state sample_third]) sample_second (Some []) all_io
     ''tablet'' sample_secret [] None (Some (replicate 12 7)) ''now''
   = (sample_third, Some ''x'', Inr (sample_again, sample_secret, False))"
proof -
  let ?C = "sample_codec [cp_state sample_second, cp_state sample_third]"
  note l = sample_second_tokens
  have i: "createToken_id (ce_go ?C) [] (Some (replicate 12 7)) = Some (tk_ID sample_again)"
    by (simp add: sample_ids)
  have m: "ce_marshalState ?C (cp_state (created sample_second sample_again)) = Some ''x''"
    using sample_third_table(2) by (simp only: sample_third_def [symmetric])
  have v: "cs_Version (cp_state sample_second) = controlStateVersion"
    by (simp add: sample_second_def created_def sample_start_fields)
  have t: "sample_again = \<lparr>tk_ID = tk_ID sample_again, tk_Name = ''tablet'',
      tk_Hash = TokenHash (ce_go ?C) sample_secret, tk_CreatedAt = ''now''\<rparr>"
    by (simp add: sample_again_def)
  show ?thesis
    unfolding sample_third_def [THEN arg_cong, of "\<lambda>c. (c, Some ''x'', Inr (sample_again, sample_secret, False))"]
    by (rule sample_creation [OF sample_inputs(2) i t _ l _ _ v m])
      (use reachable_control(4,5) [OF sample_third_reach] in simp_all)
qed

theorem duplicate_secret_blocks_restart_witness:
  "\<exists>e. newControlPlane (sample_codec [cp_state sample_second, cp_state sample_third]) sample_config
     (FileData ''x'') None = Inl e"
proof -
  let ?C = "sample_codec [cp_state sample_second, cp_state sample_third]"
  have "TokenHash (ce_go ?C) (trimSpace sample_secret) \<in> set (token_hashes (ce_go ?C)
      (cp_baseTokens sample_second @ cs_AddedTokens (cp_state sample_second)))"
    by (simp add: token_hashes_def sample_second_def created_def sample_new_def sample_canonical sample_secret_valid
        normalizeHash_canonical)
  then show ?thesis
    using duplicate_secret_blocks_restart [OF sample_third_reach _ sample_second_tokens _ _ sample_third_create]
    by (fastforce simp: twelve_bytes_def sample_secret_valid)
qed

section \<open>Devices and sessions\<close>

definition sample_request :: request where
  "sample_request = \<lparr>rq_header = (\<lambda>name. if name = ''X-TGProxy-Device-ID'' then ''dev2_phone'' else []),
     rq_remoteAddr = ''149.154.167.51:443'', rq_query = []\<rparr>"

definition sample_client :: trackedClient where
  "sample_client = updateClient (newTrackedClient ''primary:dev2_phone'' ''primary'' ''dev2_phone'' ''now'')
     sample_request ''149.154.167.51'' ''now''"

definition sample_entered :: controlPlane where
  "sample_entered = scheduleClientPersist (addSession (setClient sample_start ''primary:dev2_phone'' sample_client)
     ''primary'' \<lparr>ts_clientKey = ''primary:dev2_phone'', ts_close = Some 1\<rparr>)"

definition sample_handle :: sessionHandle where
  "sample_handle = \<lparr>sh_tokenID = ''primary'', sh_sessionID = 1, sh_clientKey = ''primary:dev2_phone'', sh_done = False\<rparr>"

lemma sample_host: "splitHostPort ''149.154.167.51:443'' = Some (''149.154.167.51'', ''443'')"
  by (simp add: splitHostPort_def last_index_of_def index_of_def)

lemma sample_remote: "clientRemoteIP (Some sample_request) = ''149.154.167.51''"
  by (simp add: clientRemoteIP_def sample_request_def sample_trims sample_host sample_parse sample_print
      isLoopback_def isPrivate_def mapped_4 Let_def)

lemma sample_device: "sanitizeIdentifier ''dev2_phone'' 96 = ''dev2_phone''" "sanitizeIdentifier ''primary'' 96 = ''primary''"
  by (rule cp_ident_sanitize, simp add: cp_ident_def cp_ident_char_def is_alnum_def is_lower_def is_digit_def)+

lemma sample_identity:
  "ri_tokenID (sessionIdentityDetails sample_env sample_token (Some sample_request)) = ''primary''"
  "ri_deviceID (sessionIdentityDetails sample_env sample_token (Some sample_request)) = ''dev2_phone''"
  "ri_previousDeviceID (sessionIdentityDetails sample_env sample_token (Some sample_request)) = []"
proof -
  have h: "rq_header sample_request ''X-TGProxy-Device-ID'' = ''dev2_phone''"
    "rq_header sample_request ''X-TGProxy-Previous-Device-ID'' = []"
    by (simp_all add: sample_request_def)
  have e: "sanitizeIdentifier [] 96 = []" by (simp add: sanitizeIdentifier_def)
  show "ri_tokenID (sessionIdentityDetails sample_env sample_token (Some sample_request)) = ''primary''"
    "ri_deviceID (sessionIdentityDetails sample_env sample_token (Some sample_request)) = ''dev2_phone''"
    "ri_previousDeviceID (sessionIdentityDetails sample_env sample_token (Some sample_request)) = []"
    by (simp_all add: sessionIdentityDetails_def Let_def sample_stable_id sample_remote h e sample_device hasPrefix_def)
qed

text \<open>The configured token's authorisation, and the registration of its device.\<close>

lemma sample_authorized: "authorizeClient sample_env sample_start ''Bearer alpha'' = Some sample_token"
proof -
  have "bearerToken ''Bearer alpha'' = ''alpha''"
    by (simp add: bearerToken_def hasPrefix_def trimPrefix_def sample_trims)
  moreover note h = reachable_control(3) [OF sample_reach [of "[]"], simplified]
  ultimately obtain t where "authorizeClient sample_env sample_start ''Bearer alpha'' = Some t"
    using authorizeClient_active [OF h sample_sha256_ok, of "''Bearer alpha''"] sample_active by auto
  then show ?thesis using authorizeClient_hash(2) [OF h sample_sha256_ok] sample_tokens_start by fastforce
qed

lemma sample_token_active: "clientTokenActive sample_env sample_start sample_token"
  using clientTokenActive_iff [OF reachable_control(3) [OF sample_reach [of "[]"], simplified], of sample_token]
  by (simp add: sample_active sample_token_def sample_canonical)

lemma sample_migration:
  assumes "cs_Clients (cp_state c) = []"
  shows "migrateClientIdentity E c i r ip = c" and "pruneClients c = c"
proof -
  have "foldl (\<lambda>c old. if old = new \<or> \<not> mhas (cs_Clients (cp_state c)) old then c else mergeClientKey c old new t d) c ks = c"
    for new t d ks using assms by (induction ks) simp_all
  then show "migrateClientIdentity E c i r ip = c" by (simp add: migrateClientIdentity_def Let_def)
  show "pruneClients c = c" using assms by (simp add: pruneClients_def maxTrackedClients_def)
qed

lemma sample_register:
  "registerSession sample_env sample_start sample_token sample_request 1 ''now'' 0
   = (sample_entered, Some sample_handle, True, None)"
proof -
  have r: "\<not> refuseSession sample_env sample_start sample_token
      (sessionIdentityDetails sample_env sample_token (Some sample_request))"
    by (simp add: refuseSession_def sample_start_fields sample_token_active list_ex_iff)
  have m: "cs_Clients (cp_state sample_start) = []" by (simp add: sample_start_fields)
  have s: "sessionClient sample_start (sessionIdentityDetails sample_env sample_token (Some sample_request))
      sample_request ''149.154.167.51'' ''now'' = sample_client"
    by (simp add: sessionClient_def sample_identity m sample_client_def)
  have l: "startLocation c k v ip t = (c, None)" if "cp_resolver c = None" for c k v ip t
    using that by (simp add: startLocation_def)
  have n: "cp_resolver sample_entered = None"
    by (simp add: sample_entered_def scheduleClientPersist_def addSession_def setClient_def Let_def sample_start_fields)
  have i: "cp_nextSessionID (addSession (setClient sample_start k v) t x) = 1" for k v t x
    by (simp add: addSession_def setClient_def Let_def sample_start_fields)
  have "enterSession sample_env sample_start (sessionIdentityDetails sample_env sample_token (Some sample_request))
      sample_request 1 ''now'' 0 = (sample_entered, sample_handle, None)"
    using l [OF n] by (simp add: enterSession_def Let_def sample_migration [OF m] sample_remote s sample_identity i
        sample_handle_def sample_entered_def)
  then show ?thesis using r by (simp add: registerSession_def sample_start_enabled)
qed

lemma sample_entered_reach:
  "reachable (control_init (sample_codec tbl) sample_config) (control_step (sample_codec tbl) sample_config)
     (sample_entered, None)"
proof (rule reachable_step [OF sample_reach])
  have a: "authorizeClient (ce_go (sample_codec tbl)) sample_start ''Bearer alpha'' = Some sample_token"
    by (simp add: sample_authorized)
  have r: "registerSession (ce_go (sample_codec tbl)) sample_start sample_token sample_request 1 ''now'' 0
      = (sample_entered, Some sample_handle, True, None)"
    using sample_register by simp
  show "control_step (sample_codec tbl) sample_config (sample_start, None) (sample_entered, None)"
    by (rule step_register [OF a r])
qed

lemma sample_entered_fields:
  "cs_Clients (cp_state sample_entered) = [(''primary:dev2_phone'', sample_client)]"
  "cs_BlockedDevices (cp_state sample_entered) = []" "cp_statePath sample_entered \<noteq> []"
  "cs_Version (cp_state sample_entered) = controlStateVersion" "cp_clientDirty sample_entered"
  "cp_active sample_entered = [(''primary'', [(1, \<lparr>ts_clientKey = ''primary:dev2_phone'', ts_close = Some 1\<rparr>)])]"
  by (simp_all add: sample_entered_def scheduleClientPersist_def addSession_def setClient_def Let_def
      sample_start_fields sample_start_enabled)

definition sample_blocked :: controlPlane where
  "sample_blocked = sample_entered\<lparr>cp_state := blocked_state sample_entered ''primary:dev2_phone'' True ''later'',
     cp_clientDirty := False, cp_clientFlush := None\<rparr>"

lemma sample_block:
  "setDeviceBlocked (sample_codec [cp_state sample_blocked]) sample_entered None all_io ''primary'' ''dev2_phone'' True ''later''
   = (sample_blocked, Some [], None, [1])"
proof -
  let ?c = "sample_entered\<lparr>cp_state := blocked_state sample_entered ''primary:dev2_phone'' True ''later''\<rparr>"
  let ?C = "sample_codec [cp_state sample_blocked]"
  have b: "sample_blocked = ?c\<lparr>cp_clientDirty := False, cp_clientFlush := None\<rparr>" by (simp add: sample_blocked_def)
  have m: "ce_marshalState ?C (cp_state ?c) = Some []"
    using sample_codec_one [of "cp_state sample_blocked"] by (simp add: sample_blocked_def)
  have p: "persistCriticalLocked ?C ?c None all_io = (sample_blocked, Some [], False)"
    unfolding b by (rule sample_persist) (use m in \<open>simp_all add: sample_entered_fields blocked_state_def b\<close>)
  have k: "deviceKey ''primary'' ''dev2_phone'' = Inr ''primary:dev2_phone''"
    by (simp add: deviceKey_def sample_device)
  have c: "deviceClosers sample_blocked ''primary:dev2_phone'' = [1]"
    by (simp add: deviceClosers_def session_closers_def sample_blocked_def sample_entered_fields)
  show ?thesis
    using p c by (simp add: setDeviceBlocked_def k sample_entered_fields mhas_def)
qed

theorem setDeviceBlocked_spec_witness:
  "deviceBlocked sample_env sample_blocked sample_token (Some sample_request)"
proof -
  let ?i = "sessionIdentityDetails sample_env sample_token (Some sample_request)"
  have "ri_deviceID ?i \<in> set (candidateDeviceIDs ?i)"
    unfolding candidates by (simp add: sample_identity)
  then show ?thesis
    using setDeviceBlocked_spec [OF sample_entered_reach sample_block]
    by (force simp: sample_identity sample_stable_id deviceKey_def sample_device)
qed

theorem registerSession_keeps_blocks_witness:
  "map_of (cs_BlockedDevices (cp_state sample_entered)) = map_of []"
  using registerSession_keeps_blocks [OF _ sample_register] by (simp add: sample_start_fields maxTrackedClients_def)

theorem sessions_accounted_witness:
  "session_ids sample_entered = {(''primary'', 1)}"
  using sessions_accounted [OF sample_register] sample_start_enabled
  by (simp add: sample_handle_def session_ids_def sample_start_fields)

theorem client_data_written_witness:
  "\<exists>delay. cp_clientFlush sample_entered = Some delay"
proof -
  have "\<not> cp_shuttingDown sample_entered"
    by (simp add: sample_entered_def scheduleClientPersist_def addSession_def setClient_def Let_def sample_start_fields)
  then show ?thesis
    using client_data_written [OF sample_entered_reach [of "[]"]] sample_entered_fields by auto
qed

theorem clientRemoteIP_unspoofable_witness:
  "clientRemoteIP (Some (sample_request\<lparr>rq_header := \<lambda>name. ''10.0.0.1''\<rparr>)) = ''149.154.167.51''"
  using clientRemoteIP_unspoofable [of "''149.154.167.51''" sample_request "\<lambda>name. ''10.0.0.1''"]
  by (simp add: sample_request_def sample_trims sample_host sample_parse sample_print isLoopback_def isPrivate_def mapped_4)

text \<open>A full table of clients: one of them has to go.\<close>

definition sample_full :: controlPlane where
  "sample_full = sample_start\<lparr>cp_state := (cp_state sample_start)
     \<lparr>cs_Clients := map (\<lambda>n. (replicate n CHR ''a'', sample_client)) [0..<maxTrackedClients]\<rparr>\<rparr>"

theorem pruneClients_spec_witness:
  "\<exists>k \<in> fst ` set (cs_Clients (cp_state sample_full)).
     map_of (cs_Clients (cp_state (pruneClients sample_full))) k = None"
proof -
  have "distinct (map (\<lambda>n. replicate n CHR ''a'') [0..<m])" for m
    by (simp add: distinct_map inj_on_def)
  then have "gomap_ok (cs_Clients (cp_state sample_full))"
    by (simp add: gomap_ok_def sample_full_def comp_def)
  from pruneClients_spec [OF this] obtain gone where
    "card gone = 1" "gone \<subseteq> fst ` set (cs_Clients (cp_state sample_full))"
    "\<forall>k \<in> gone. map_of (cs_Clients (cp_state (pruneClients sample_full))) k = None"
    by (auto simp: sample_full_def)
  then show ?thesis by (metis card_1_singletonE insert_subset singletonI)
qed

end
