(* ===== verification/Server_Http.thy ===== *)
theory Server_Http
  imports Control_Lifecycle Session_Limiter
begin

text \<open>
  \<open>internal/relay/server.go\<close>: the server and its start, the two authorisation wrappers, the client
  endpoints with their responses, and the route diagnostics. A response is its status, the headers
  the handler sets and its body; a JSON body is the value that is encoded.
\<close>

section \<open>Responses\<close>

datatype json =
    JString string
  | JInt int
  | JBool bool
  | JList "json list"
  | JObject "(string \<times> json) list"

datatype body = NoBody | TextBody string | JsonBody json | LandingPage

record response =
  rs_status :: int
  rs_headers :: "(string \<times> string) list"
  rs_body :: body

text \<open>The request of a handler: method, decoded path, and the parts shared with the control plane.\<close>

record httpRequest =
  hr_method :: string
  hr_path :: string
  hr_request :: request

text \<open>\<open>http.Error\<close>.\<close>

definition httpError :: "string \<Rightarrow> int \<Rightarrow> response" where
  "httpError message status =
     \<lparr>rs_status = status,
      rs_headers = [(''Content-Type'', ''text/plain; charset=utf-8''), (''X-Content-Type-Options'', ''nosniff'')],
      rs_body = TextBody (message @ [CHR 0x0A])\<rparr>"

definition writeJSON :: "int \<Rightarrow> json \<Rightarrow> response" where
  "writeJSON status v =
     \<lparr>rs_status = status,
      rs_headers = [(''Content-Type'', ''application/json; charset=utf-8''), (''Cache-Control'', ''no-store''),
                    (''X-Content-Type-Options'', ''nosniff'')],
      rs_body = JsonBody v\<rparr>"

text \<open>A string field with \<open>omitempty\<close>.\<close>

definition omitEmpty :: "string \<Rightarrow> string \<Rightarrow> (string \<times> json) list" where
  "omitEmpty name v = (if v = [] then [] else [(name, JString v)])"

section \<open>The server\<close>

definition Name :: string where "Name = ''tgproxy-relay''"
definition Protocol :: int where "Protocol = 1"
definition MaxRelayProtocol :: int where "MaxRelayProtocol = 2"
definition MinAppProtocol :: int where "MinAppProtocol = 1"
definition OwnerAPIProtocol :: int where "OwnerAPIProtocol = 2"
definition maxTestRouteDCs :: nat where "maxTestRouteDCs = 32"
definition Version :: string where "Version = ''1.3.0''"

record server =
  sv_cfg :: Config
  sv_control :: controlPlane
  sv_upstreams :: upstreamPool
  sv_sessions :: sessionLimiter
  sv_topology :: topologyManager

definition newServer ::
  "controlenv \<Rightarrow> topoenv \<Rightarrow> Config \<Rightarrow> readFile \<Rightarrow> gotime \<Rightarrow> readFile \<Rightarrow> nat list option \<Rightarrow> string + server" where
  "newServer C T cfg topologyFile now stateFile raw =
     (case Validate (ce_go C) cfg of
        (cfg, Some e) \<Rightarrow> Inl e
      | (cfg, None) \<Rightarrow>
          (case newTopologyManager T (cf_Telegram cfg) topologyFile now of
             Inl e \<Rightarrow> Inl (''initialize Telegram topology: '' @ e)
           | Inr topology \<Rightarrow>
               (case newControlPlane C cfg stateFile raw of
                  Inl e \<Rightarrow> Inl (''initialize owner control plane: '' @ e)
                | Inr control \<Rightarrow>
                    Inr \<lparr>sv_cfg = cfg, sv_control = control, sv_upstreams = newUpstreamPool,
                         sv_sessions = newSessionLimiter, sv_topology = topology\<rparr>)))"

text \<open>The wrappers: the wrapped handler runs only after the check.\<close>

definition withClientAuth :: "goenv \<Rightarrow> server \<Rightarrow> request \<Rightarrow> 'a \<Rightarrow> (Token \<Rightarrow> 'a) \<Rightarrow> 'a" where
  "withClientAuth E s r unauthorized run =
     (case authorizeClient E (sv_control s) (rq_header r ''Authorization'') of
        None \<Rightarrow> unauthorized
      | Some token \<Rightarrow> run token)"

definition withAdminAuth :: "goenv \<Rightarrow> server \<Rightarrow> request \<Rightarrow> 'a \<Rightarrow> 'a \<Rightarrow> 'a" where
  "withAdminAuth E s r unauthorized run =
     (if \<not> authorizeAdmin E (sv_control s) (rq_header r ''Authorization'') then unauthorized else run)"

section \<open>Client endpoints\<close>

definition handleHealthz :: response where
  "handleHealthz =
     \<lparr>rs_status = 200, rs_headers = [(''Content-Type'', ''text/plain; charset=utf-8'')],
      rs_body = TextBody (''ok'' @ [CHR 0x0A])\<rparr>"

definition handleVersion :: "server \<Rightarrow> response" where
  "handleVersion s =
     (let (instanceID, identityPersistent) = instanceIdentity (sv_control s)
      in \<lparr>rs_status = 200, rs_headers = [(''Content-Type'', ''application/json; charset=utf-8'')],
          rs_body = JsonBody (JObject
            ([(''name'', JString Name), (''version'', JString Version), (''protocol'', JInt Protocol),
              (''minAppProtocol'', JInt MinAppProtocol), (''ownerProtocol'', JInt OwnerAPIProtocol)]
             @ omitEmpty ''instanceId'' instanceID
             @ [(''identityPersistent'', JBool identityPersistent)]))\<rparr>)"

definition handleIdentity :: "goenv \<Rightarrow> server \<Rightarrow> string \<Rightarrow> Token \<Rightarrow> response" where
  "handleIdentity E s method token =
     (if method \<noteq> ''GET'' then httpError ''method not allowed'' 405
      else
        (let (instanceID, persistent) = instanceIdentity (sv_control s)
         in writeJSON 200 (JObject
              [(''instanceId'', JString instanceID), (''identityPersistent'', JBool persistent),
               (''authenticatedTokenId'', JString (StableTokenID E token)), (''name'', JString Name),
               (''version'', JString Version), (''protocol'', JInt Protocol),
               (''ownerProtocol'', JInt OwnerAPIProtocol)])))"

definition handleCapabilities :: "server \<Rightarrow> string \<Rightarrow> response" where
  "handleCapabilities s method =
     (if method \<noteq> ''GET'' then httpError ''method not allowed'' 405
      else
        (let (instanceID, identityPersistent) = instanceIdentity (sv_control s); t = sv_topology s
         in writeJSON 200 (JObject
              ([(''name'', JString Name), (''version'', JString Version),
                (''protocol'', JObject [(''min'', JInt MinAppProtocol), (''max'', JInt MaxRelayProtocol)]),
                (''websocketSubprotocols'', JList [JString ''tgproxy-relay.v2'', JString ''binary'']),
                (''features'', JList (map JString
                   [''endpoint-fallback'', ''media-endpoints'', ''ipv4-ipv6'', ''signed-topology-lkg'',
                    ''owner-tokens'', ''owner-devices'', ''device-blocking'', ''instance-identity'',
                    ''idempotent-owner-token-create''])),
                (''routeDiagnostics'', JString ''tcp-preflight-only-client-must-prove-mtproto''),
                (''topology'', JObject
                   [(''source'', JString (topology_source t)), (''dynamic'', JBool (topology_dynamic t)),
                    (''revision'', JInt (int (unat (revision t)))),
                    (''productionDcs'', JList (map JInt (configuredDCs t False))),
                    (''testDcs'', JList (map JInt (configuredDCs t True)))])]
               @ omitEmpty ''instanceId'' instanceID
               @ [(''identityPersistent'', JBool identityPersistent)]))))"

section \<open>Route diagnostics\<close>

record testDC =
  td_DC :: int
  td_IP :: string

text \<open>The first item of each DC, in the order of the DCs; \<open>sort.SliceStable\<close> is a stable sort.\<close>

fun sortedDCS_loop :: "int list \<Rightarrow> testDC list \<Rightarrow> testDC list" where
  "sortedDCS_loop seen [] = []"
| "sortedDCS_loop seen (item # items) =
     (if td_DC item \<in> set seen then sortedDCS_loop seen items
      else item # sortedDCS_loop (td_DC item # seen) items)"

definition sortedDCS :: "testDC list \<Rightarrow> testDC list" where
  "sortedDCS items = sort_key td_DC (sortedDCS_loop [] items)"

text \<open>An error is its text; \<open>dial\<close> answers for an address what \<open>DialContext\<close> and \<open>Close\<close> answer.\<close>

definition checkAddress :: "(string \<Rightarrow> string option) \<Rightarrow> string \<Rightarrow> string option" where
  "checkAddress dial address = (if address = [] then Some ''unknown dc'' else dial address)"

fun check_loop :: "(string \<Rightarrow> string option) \<Rightarrow> string option \<Rightarrow> string list \<Rightarrow> string option" where
  "check_loop dial last_err [] = last_err"
| "check_loop dial last_err (address # rest) =
     (case checkAddress dial address of
        None \<Rightarrow> None
      | Some e \<Rightarrow> check_loop dial (Some e) rest)"

definition checkRouteAddress ::
  "goenv \<Rightarrow> server \<Rightarrow> (string \<Rightarrow> string option) \<Rightarrow> int \<Rightarrow> bool \<Rightarrow> string option" where
  "checkRouteAddress E s dial dc media =
     (let as = addresses E (sv_topology s) dc False media
      in if as = [] then Some ''unknown dc'' else check_loop dial None as)"

record routeCheckErrors =
  rc_main :: "string option"
  rc_media :: "string option"

definition int_text :: "int \<Rightarrow> string" where
  "int_text n = (if n < 0 then ''-'' @ decimal (nat (- n)) else decimal (nat n))"

definition report_line :: "int \<Rightarrow> string \<Rightarrow> string option \<Rightarrow> string" where
  "report_line dc scope err =
     ''DC'' @ int_text dc @ '' '' @ scope
     @ (case err of None \<Rightarrow> '' OK TCP_ONLY'' | Some e \<Rightarrow> '' ERROR '' @ e @ '' (TCP_ONLY)'') @ [CHR 0x0A]"

definition formatRouteReport :: "testDC list \<Rightarrow> routeCheckErrors list \<Rightarrow> string \<times> bool" where
  "formatRouteReport dcs errorsByIndex =
     (concat (map (\<lambda>(dc, e). report_line (td_DC dc) ''main'' (rc_main e)
                             @ report_line (td_DC dc) ''media'' (rc_media e)) (zip dcs errorsByIndex)),
      list_all (\<lambda>(dc, e). rc_main e = None \<and> rc_media e = None) (zip dcs errorsByIndex))"

text \<open>
  \<open>checkRoutes\<close>: the jobs a worker received run to their end, whichever worker it is; \<open>stopped\<close> is the
  job at whose sending the context was found done, with its error. A job that was received is completed,
  so the last look at \<open>completedByIndex\<close> changes nothing.
\<close>

definition checkRoutes ::
  "goenv \<Rightarrow> server \<Rightarrow> (nat \<Rightarrow> bool \<Rightarrow> string \<Rightarrow> string option) \<Rightarrow> (nat \<times> string) option \<Rightarrow> testDC list
   \<Rightarrow> string \<times> bool" where
  "checkRoutes E s dial stopped items =
     (let dcs = sortedDCS items;
          checked = map (\<lambda>i.
            (case stopped of
               Some (k, ctxErr) \<Rightarrow>
                 if k \<le> i then \<lparr>rc_main = Some ctxErr, rc_media = Some ctxErr\<rparr>
                 else \<lparr>rc_main = checkRouteAddress E s (dial i False) (td_DC (dcs ! i)) False,
                       rc_media = checkRouteAddress E s (dial i True) (td_DC (dcs ! i)) True\<rparr>
             | None \<Rightarrow>
                 \<lparr>rc_main = checkRouteAddress E s (dial i False) (td_DC (dcs ! i)) False,
                  rc_media = checkRouteAddress E s (dial i True) (td_DC (dcs ! i)) True\<rparr>))
            [0..<length dcs]
      in formatRouteReport dcs checked)"

text \<open>The decoded body and whether the input ended after it.\<close>

definition handleTestRoutes ::
  "goenv \<Rightarrow> server \<Rightarrow> string \<Rightarrow> (testDC list \<times> bool) option
   \<Rightarrow> (nat \<Rightarrow> bool \<Rightarrow> string \<Rightarrow> string option) \<Rightarrow> (nat \<times> string) option \<Rightarrow> response" where
  "handleTestRoutes E s method decoded dial stopped =
     (if method \<noteq> ''POST'' then httpError ''method not allowed'' 405
      else
        (case decoded of
           None \<Rightarrow> httpError ''invalid json'' 400
         | Some (dcs, atEnd) \<Rightarrow>
             if \<not> atEnd then httpError ''invalid json'' 400
             else if length dcs = 0 then httpError ''no dc routes'' 400
             else if length dcs > maxTestRouteDCs then httpError ''too many dc routes'' 400
             else
               (let (report, allAvailable) = checkRoutes E s dial stopped dcs
                in \<lparr>rs_status = (if allAvailable then 200 else 502),
                    rs_headers = [(''Content-Type'', ''text/plain; charset=utf-8'')],
                    rs_body = TextBody report\<rparr>)))"

end
