(* ===== verification/Owner_Http.thy ===== *)
theory Owner_Http
  imports Server_Http
begin

text \<open>
  \<open>internal/relay/owner_http.go\<close>: the owner's endpoints, how they map the errors of the control
  plane to statuses, and the landing page of connection links. The text of a system error is an
  argument; a request body is what the decoder makes of it.
\<close>

section \<open>Package strings and net/url\<close>

definition last_index_sub :: "string \<Rightarrow> string \<Rightarrow> nat option" where
  "last_index_sub s sub =
     (case filter (\<lambda>i. hasPrefix (drop i s) sub) [0..<Suc (length s)] of
        [] \<Rightarrow> None
      | is \<Rightarrow> Some (last is))"

text \<open>\<open>url.PathUnescape\<close>.\<close>

fun pathUnescape :: "string \<Rightarrow> string option" where
  "pathUnescape [] = Some []"
| "pathUnescape (c # s) =
     (if c = CHR ''%'' then
        (case s of
           x # y # r \<Rightarrow>
             (case (hex_value x, hex_value y) of
                (Some h, Some l) \<Rightarrow> map_option (\<lambda>t. char_of (16 * h + l) # t) (pathUnescape r)
              | _ \<Rightarrow> None)
         | _ \<Rightarrow> None)
      else map_option (\<lambda>t. c # t) (pathUnescape s))"

section \<open>Reading\<close>

definition handleOwnerInfo :: "server \<Rightarrow> string \<Rightarrow> response" where
  "handleOwnerInfo s method =
     (if method \<noteq> ''GET'' then httpError ''method not allowed'' 405
      else
        (let (instanceID, persistent) = instanceIdentity (sv_control s)
         in writeJSON 200 (JObject
              ([(''instanceId'', JString instanceID), (''identityPersistent'', JBool persistent),
                (''name'', JString Name), (''version'', JString Version),
                (''ownerProtocol'', JInt OwnerAPIProtocol)]
               @ omitEmpty ''publicUrl'' (cf_PublicURL (sv_cfg s))))))"

definition tokenView_json :: "tokenView \<Rightarrow> json" where
  "tokenView_json v = JObject
     ([(''id'', JString (tv_ID v)), (''name'', JString (tv_Name v))]
      @ omitEmpty ''createdAt'' (tv_CreatedAt v)
      @ [(''activeDevices'', JInt (int (tv_ActiveDevices v))), (''knownDevices'', JInt (int (tv_KnownDevices v)))])"

definition clientView_json :: "clientView \<Rightarrow> json" where
  "clientView_json v = JObject
     ([(''tokenId'', JString (cv_TokenID v)), (''deviceId'', JString (cv_DeviceID v))]
      @ omitEmpty ''identityVersion'' (cv_IdentityVersion v) @ omitEmpty ''manufacturer'' (cv_Manufacturer v)
      @ omitEmpty ''brand'' (cv_Brand v) @ omitEmpty ''canonicalBrand'' (cv_CanonicalBrand v)
      @ omitEmpty ''model'' (cv_Model v) @ omitEmpty ''marketingName'' (cv_MarketingName v)
      @ omitEmpty ''device'' (cv_Device v) @ omitEmpty ''product'' (cv_Product v)
      @ omitEmpty ''appVersion'' (cv_AppVersion v) @ omitEmpty ''appCode'' (cv_AppCode v)
      @ omitEmpty ''android'' (cv_Android v) @ omitEmpty ''country'' (cv_Country v)
      @ omitEmpty ''city'' (cv_City v) @ omitEmpty ''remoteIp'' (cv_RemoteIP v)
      @ [(''firstSeen'', JString (cv_FirstSeen v)), (''lastSeen'', JString (cv_LastSeen v)),
         (''activeSessions'', JInt (int (cv_ActiveSessions v))), (''blocked'', JBool (cv_Blocked v))]
      @ omitEmpty ''blockedAt'' (cv_BlockedAt v))"

definition handleOwnerOverview :: "goenv \<Rightarrow> server \<Rightarrow> string \<Rightarrow> response" where
  "handleOwnerOverview E s method =
     (if method \<noteq> ''GET'' then httpError ''method not allowed'' 405
      else
        (let (tokens, clients) = overview E (sv_control s)
         in writeJSON 200 (JObject
              [(''tokens'', JList (map tokenView_json tokens)),
               (''clients'', JList (map clientView_json clients))])))"

section \<open>Mutations\<close>

text \<open>\<open>err.Error()\<close>.\<close>

definition error_text :: "string \<Rightarrow> cpError \<Rightarrow> string" where
  "error_text ioText e = (case e of ErrText t \<Rightarrow> t | ErrNotExist \<Rightarrow> ''file does not exist'' | ErrIO \<Rightarrow> ioText)"

definition createError :: "string \<Rightarrow> response" where
  "createError message =
     (if containsSub message ''invalid'' \<or> containsSub message ''requires'' then httpError message 400
      else if containsSub message ''idempotency key'' then httpError message 409
      else httpError ''token could not be created'' 500)"

definition createdResponse :: "Token \<Rightarrow> string \<Rightarrow> bool \<Rightarrow> response" where
  "createdResponse token secret replayed =
     (let r = writeJSON 201 (JObject
                [(''token'', tokenView_json \<lparr>tv_ID = tk_ID token, tv_Name = tk_Name token,
                     tv_CreatedAt = tk_CreatedAt token, tv_ActiveDevices = 0, tv_KnownDevices = 0\<rparr>),
                 (''secret'', JString secret)])
      in if replayed then r\<lparr>rs_headers := (''Idempotency-Replayed'', ''true'') # rs_headers r\<rparr> else r)"

text \<open>What a mutation does: the control plane, the state file, the response, the sessions it closes.\<close>

record ownerRun =
  or_decoded :: "((string \<times> string \<times> string) \<times> bool) option" \<comment> \<open>name, secret, key; at the end\<close>
  or_io :: persistIO
  or_ioText :: string
  or_ioMissing :: bool \<comment> \<open>the system error is \<open>os.ErrNotExist\<close>\<close>
  or_secretBytes :: "nat list option"
  or_idBytes :: "nat list option"
  or_now :: string

type_synonym ownerResult = "controlPlane \<times> string option \<times> response \<times> nat list"

definition handleOwnerTokens ::
  "controlenv \<Rightarrow> controlPlane \<Rightarrow> string option \<Rightarrow> httpRequest \<Rightarrow> ownerRun \<Rightarrow> ownerResult" where
  "handleOwnerTokens C c disk r run =
     (if hr_method r \<noteq> ''POST'' then (c, disk, httpError ''method not allowed'' 405, [])
      else
        (case or_decoded run of
           None \<Rightarrow> (c, disk, httpError ''invalid json'' 400, [])
         | Some ((name, secret, bodyKey), atEnd) \<Rightarrow>
             if \<not> atEnd then (c, disk, httpError ''invalid json'' 400, [])
             else
               (let headerKey = rq_header (hr_request r) ''Idempotency-Key''
                in if headerKey \<noteq> [] \<and> bodyKey \<noteq> [] \<and> headerKey \<noteq> bodyKey
                   then (c, disk, httpError ''conflicting idempotency key'' 400, [])
                   else
                     (case createToken C c disk (or_io run) name secret
                             (if bodyKey = [] then headerKey else bodyKey)
                             (or_secretBytes run) (or_idBytes run) (or_now run) of
                        (c, disk, Inl e) \<Rightarrow> (c, disk, createError (error_text (or_ioText run) e), [])
                      | (c, disk, Inr (token, raw, replayed)) \<Rightarrow>
                          (c, disk, createdResponse token raw replayed, [])))))"

definition noContent :: response where
  "noContent = \<lparr>rs_status = 204, rs_headers = [], rs_body = NoBody\<rparr>"

definition writeOwnerMutationError :: "bool \<Rightarrow> cpError \<Rightarrow> string \<Rightarrow> response" where
  "writeOwnerMutationError ioMissing e fallback =
     (if e = ErrNotExist \<or> (e = ErrIO \<and> ioMissing) then httpError ''not found'' 404 else httpError fallback 500)"

definition mutationResponse :: "bool \<Rightarrow> cpError option \<Rightarrow> string \<Rightarrow> response" where
  "mutationResponse ioMissing e fallback =
     (case e of Some e \<Rightarrow> writeOwnerMutationError ioMissing e fallback | None \<Rightarrow> noContent)"

text \<open>The parts of the path after the last marker.\<close>

definition owner_path_parts :: "string \<Rightarrow> string list option" where
  "owner_path_parts path =
     (case last_index_sub path ''/admin/v1/tokens/'' of
        None \<Rightarrow> None
      | Some markerAt \<Rightarrow>
          (let rawPath = trimChars {CHR ''/''} (drop (markerAt + length ''/admin/v1/tokens/'') path)
           in if rawPath = [] then None else Some (splitOn CHR ''/'' rawPath)))"

definition clean_part :: "string \<Rightarrow> string option" where
  "clean_part part =
     (case pathUnescape part of
        None \<Rightarrow> None
      | Some v \<Rightarrow> if sanitizeIdentifier v 96 = [] then None else Some v)"

definition handleOwnerDevice ::
  "controlenv \<Rightarrow> controlPlane \<Rightarrow> string option \<Rightarrow> string \<Rightarrow> ownerRun \<Rightarrow> string \<Rightarrow> string list \<Rightarrow> ownerResult" where
  "handleOwnerDevice C c disk method run tokenId parts =
     (if length parts \<noteq> 4 \<or> parts ! 1 \<noteq> ''devices'' then (c, disk, httpError ''invalid device path'' 400, [])
      else
        (case clean_part (parts ! 2) of
           None \<Rightarrow> (c, disk, httpError ''invalid device id'' 400, [])
         | Some deviceID \<Rightarrow>
             if parts ! 3 = ''disconnect'' then
               (if method \<noteq> ''POST'' then (c, disk, httpError ''method not allowed'' 405, [])
                else
                  (let (e, closers) = disconnectDevice c tokenId deviceID
                   in (c, disk, mutationResponse (or_ioMissing run) e ''device action failed'', closers)))
             else if parts ! 3 = ''block'' then
               (if method \<noteq> ''PUT'' \<and> method \<noteq> ''DELETE'' then (c, disk, httpError ''method not allowed'' 405, [])
                else
                  (let (c', disk', e, closers) =
                     setDeviceBlocked C c disk (or_io run) tokenId deviceID (method = ''PUT'') (or_now run)
                   in (c', disk', mutationResponse (or_ioMissing run) e ''device action failed'', closers)))
             else (c, disk, httpError ''invalid device action'' 400, [])))"

definition handleOwnerToken ::
  "controlenv \<Rightarrow> controlPlane \<Rightarrow> string option \<Rightarrow> httpRequest \<Rightarrow> ownerRun \<Rightarrow> ownerResult" where
  "handleOwnerToken C c disk r run =
     (case owner_path_parts (hr_path r) of
        None \<Rightarrow> (c, disk, httpError ''invalid token id'' 400, [])
      | Some parts \<Rightarrow>
          (case clean_part (hd parts) of
             None \<Rightarrow> (c, disk, httpError ''invalid token id'' 400, [])
           | Some tokenId \<Rightarrow>
               if length parts = 1 then
                 (if hr_method r \<noteq> ''DELETE'' then (c, disk, httpError ''method not allowed'' 405, [])
                  else
                    (let (c', disk', e, closers) = deleteToken C c disk (or_io run) tokenId
                     in (c', disk', mutationResponse (or_ioMissing run) e ''token could not be deleted'', closers)))
               else handleOwnerDevice C c disk (hr_method r) run tokenId parts))"

section \<open>The landing page\<close>

definition maxSharePayloadLength :: nat where "maxSharePayloadLength = 16 * 1024"

definition share_char :: "char \<Rightarrow> bool" where
  "share_char c \<longleftrightarrow> is_alnum c \<or> c = CHR ''-'' \<or> c = CHR ''_''"

definition validSharePayload :: "string \<Rightarrow> bool" where
  "validSharePayload value =
     (if value = [] \<or> length value > maxSharePayloadLength then False else list_all share_char value)"

text \<open>\<open>URL.Query().Get\<close>.\<close>

definition query_get :: "request \<Rightarrow> string \<Rightarrow> string" where
  "query_get r name = (case mget [] (rq_query r) name of [] \<Rightarrow> [] | v # _ \<Rightarrow> v)"

definition landingPolicy :: string where
  "landingPolicy = ''default-src 'none'; style-src 'unsafe-inline'; script-src 'unsafe-inline'; base-uri 'none'; form-action 'none'; frame-ancestors 'none'' @ [CHR 0x27]"

definition handleConnectLanding :: "httpRequest \<Rightarrow> response" where
  "handleConnectLanding r =
     (if hr_method r \<noteq> ''GET'' \<and> hr_method r \<noteq> ''HEAD'' then httpError ''method not allowed'' 405
      else
        (let payload = trimSpace (query_get (hr_request r) ''data'')
         in if payload \<noteq> [] \<and> \<not> validSharePayload payload
            then httpError ''invalid connection payload'' 400
            else \<lparr>rs_status = 200,
                  rs_headers = [(''Content-Type'', ''text/html; charset=utf-8''), (''Cache-Control'', ''no-store''),
                    (''Content-Security-Policy'', landingPolicy), (''Referrer-Policy'', ''no-referrer''),
                    (''X-Content-Type-Options'', ''nosniff'')],
                  rs_body = (if hr_method r = ''HEAD'' then NoBody else LandingPage)\<rparr>))"

end
