(* ===== verification/Server_Routes.thy ===== *)
theory Server_Routes
  imports Owner_Http
begin

text \<open>
  The route table of \<open>Handler\<close> and \<open>registerOwnerRoutes\<close>, the patterns as \<open>http.ServeMux\<close> reads them,
  and the handler of a route with its authorisation wrapper.
\<close>

section \<open>The route table\<close>

datatype guard = ClientAuth | AdminAuth | Public

datatype handler =
    Healthz | VersionInfo | Identity | Capabilities | TestRoutes | WebSocket
  | OwnerInfo | OwnerOverview | OwnerTokens | OwnerToken | ConnectLanding

type_synonym route = "string \<times> guard \<times> handler"

definition registerOwnerRoutes :: "string \<Rightarrow> route list" where
  "registerOwnerRoutes prefix =
     (let base = trimSuffix prefix ''/'' @ ''/admin/v1''
      in [(base @ ''/info'', AdminAuth, OwnerInfo), (base @ ''/overview'', AdminAuth, OwnerOverview),
          (base @ ''/tokens'', AdminAuth, OwnerTokens), (base @ ''/tokens/'', AdminAuth, OwnerToken)])"

definition handlerRoutes :: "Config \<Rightarrow> route list" where
  "handlerRoutes cfg =
     (let path = ws_Path (cf_WebSocket cfg)
      in [(''/healthz'', ClientAuth, Healthz), (''/version'', ClientAuth, VersionInfo),
          (''/identity'', ClientAuth, Identity), (trimSuffix path ''/'' @ ''/identity'', ClientAuth, Identity),
          (''/capabilities'', ClientAuth, Capabilities), (''/test-routes'', ClientAuth, TestRoutes),
          (path, ClientAuth, WebSocket)]
         @ registerOwnerRoutes [] @ registerOwnerRoutes path
         @ [(''/connect'', Public, ConnectLanding), (path @ ''/connect'', Public, ConnectLanding)]
         @ (if path \<noteq> ''/apiws''
            then [(''/apiws'', ClientAuth, WebSocket)] @ registerOwnerRoutes ''/apiws''
                 @ [(''/apiws/connect'', Public, ConnectLanding), (''/apiws/identity'', ClientAuth, Identity)]
            else []))"

text \<open>
  The pattern syntax of \<open>http.ServeMux\<close> since Go 1.22: a method may stand before the first space or tab,
  and the rest contains a slash. \<open>None\<close> is a pattern whose registration panics; so is registering two
  patterns without wildcards that read the same.
\<close>

definition method_char :: "char \<Rightarrow> bool" where
  "method_char c \<longleftrightarrow> is_alnum c \<or> c \<in> set ''!#$%&*+-.^_`|~'' \<or> code c = 39"

definition blank_char :: "char \<Rightarrow> bool" where
  "blank_char c \<longleftrightarrow> code c = 32 \<or> code c = 9"

definition parsePattern :: "string \<Rightarrow> (string \<times> string) option" where
  "parsePattern s =
     (let before = takeWhile (\<lambda>c. \<not> blank_char c) s; after = dropWhile (\<lambda>c. \<not> blank_char c) s;
          (verb, rest) = (if after = [] then ([], s) else (before, dropWhile blank_char after))
      in if s = [] \<or> (verb \<noteq> [] \<and> \<not> list_all method_char verb) \<or> CHR ''/'' \<notin> set rest then None
         else Some (verb, rest))"

definition mux_accepts :: "string list \<Rightarrow> bool" where
  "mux_accepts patterns \<longleftrightarrow>
     list_all (\<lambda>p. parsePattern p \<noteq> None) patterns \<and> distinct (map parsePattern patterns)"

section \<open>Serving a route\<close>

record httpRun =
  ht_owner :: ownerRun
  ht_routes :: "(testDC list \<times> bool) option"
  ht_dial :: "nat \<Rightarrow> bool \<Rightarrow> string \<Rightarrow> string option"
  ht_stopped :: "(nat \<times> string) option"

text \<open>
  A response, or the hand-over to \<open>handleWebSocket\<close> with the authorised token. That handler outlives
  the call of the route: it is the machine \<open>ws_step\<close> of \<open>Ws_Handshake\<close>, from its phase \<open>Start\<close>, and
  changes the server (sessions, clients, limiter, pool) in its own steps, between which other requests
  run.
\<close>

datatype outcome = Respond response | Upgrade Token

type_synonym served = "controlPlane \<times> string option \<times> outcome \<times> nat list"

definition respond :: "server \<Rightarrow> string option \<Rightarrow> response \<Rightarrow> served" where
  "respond s disk r = (sv_control s, disk, Respond r, [])"

definition owner_served :: "ownerResult \<Rightarrow> served" where
  "owner_served x = (case x of (c, disk, r, closers) \<Rightarrow> (c, disk, Respond r, closers))"

fun run_handler ::
  "controlenv \<Rightarrow> server \<Rightarrow> string option \<Rightarrow> httpRequest \<Rightarrow> httpRun \<Rightarrow> handler \<Rightarrow> Token \<Rightarrow> served" where
  "run_handler C s disk r run Healthz token = respond s disk handleHealthz"
| "run_handler C s disk r run VersionInfo token = respond s disk (handleVersion s)"
| "run_handler C s disk r run Identity token =
     respond s disk (handleIdentity (ce_go C) s (hr_method r) token)"
| "run_handler C s disk r run Capabilities token = respond s disk (handleCapabilities s (hr_method r))"
| "run_handler C s disk r run TestRoutes token =
     respond s disk (handleTestRoutes (ce_go C) s (hr_method r) (ht_routes run) (ht_dial run) (ht_stopped run))"
| "run_handler C s disk r run WebSocket token = (sv_control s, disk, Upgrade token, [])"
| "run_handler C s disk r run OwnerInfo token = respond s disk (handleOwnerInfo s (hr_method r))"
| "run_handler C s disk r run OwnerOverview token =
     respond s disk (handleOwnerOverview (ce_go C) s (hr_method r))"
| "run_handler C s disk r run OwnerTokens token =
     owner_served (handleOwnerTokens C (sv_control s) disk r (ht_owner run))"
| "run_handler C s disk r run OwnerToken token =
     owner_served (handleOwnerToken C (sv_control s) disk r (ht_owner run))"
| "run_handler C s disk r run ConnectLanding token = respond s disk (handleConnectLanding r)"

definition noToken :: Token where
  "noToken = \<lparr>tk_ID = [], tk_Name = [], tk_Hash = [], tk_CreatedAt = []\<rparr>"

definition serve ::
  "controlenv \<Rightarrow> server \<Rightarrow> string option \<Rightarrow> httpRequest \<Rightarrow> httpRun \<Rightarrow> route \<Rightarrow> served" where
  "serve C s disk r run route =
     (case route of
        (pattern, ClientAuth, h) \<Rightarrow>
          withClientAuth (ce_go C) s (hr_request r) (respond s disk (httpError ''unauthorized'' 401))
            (run_handler C s disk r run h)
      | (pattern, AdminAuth, h) \<Rightarrow>
          withAdminAuth (ce_go C) s (hr_request r) (respond s disk (httpError ''unauthorized'' 401))
            (run_handler C s disk r run h noToken)
      | (pattern, Public, h) \<Rightarrow> run_handler C s disk r run h noToken)"

end
