(* ===== verification/Server_Props.thy ===== *)
theory Server_Props
  imports Server_Routes Control_Props Config_Props
begin

text \<open>
  Properties of the HTTP surface: the route table is one \<open>http.ServeMux\<close> accepts, and what a request
  can do without the bearer token its route demands.
\<close>

section \<open>The route table\<close>

lemma splitOn_chars: "c \<in> set s \<Longrightarrow> c = sep \<or> (\<exists>part \<in> set (splitOn sep s). c \<in> set part)"
  by (induction s) (auto split: list.splits)

lemma valid_path_chars:
  assumes "validWebSocketPath p" and "trimSpace p = p"
  shows "p \<noteq> []" and "hd p = CHR ''/''" and "trimSuffix p ''/'' = p"
    and "\<forall>c \<in> set p. \<not> blank_char c"
proof -
  have v: "p \<noteq> []" "hd p = CHR ''/''" "\<not> hasSuffix p ''/''"
    "\<forall>segment \<in> set (splitOn CHR ''/'' (drop 1 p)). list_all path_char segment"
    using assms by (auto simp: validWebSocketPath_def Let_def list_all_iff split: if_splits)
  then show "p \<noteq> []" "hd p = CHR ''/''" "trimSuffix p ''/'' = p" by (simp_all add: trimSuffix_def)
  obtain q where q: "p = CHR ''/'' # q" using v(1,2) by (cases p) auto
  have "c = CHR ''/'' \<or> path_char c" if "c \<in> set p" for c
    using that splitOn_chars [of c q "CHR ''/''"] v(4) by (auto simp: q list_all_iff)
  then show "\<forall>c \<in> set p. \<not> blank_char c"
    by (fastforce simp: blank_char_def path_char_def go_string_simps)
qed

lemma parsePattern_plain:
  assumes "CHR ''/'' \<in> set p" and "\<forall>c \<in> set p. \<not> blank_char c"
  shows "parsePattern p = Some ([], p)"
proof -
  have "dropWhile (\<lambda>c. \<not> blank_char c) p = []" using assms(2) by (simp add: dropWhile_eq_Nil_conv)
  moreover have "p \<noteq> []" using assms(1) by auto
  ultimately show ?thesis using assms(1) by (simp add: parsePattern_def)
qed

lemma append_literal:
  "p @ s = t \<longleftrightarrow> length s \<le> length t \<and> drop (length t - length s) t = s \<and> p = take (length t - length s) t"
  by (metis append_eq_conv_conj append_take_drop_id diff_add_inverse2 le_add2 length_append)

lemma literal_append:
  "t = p @ s \<longleftrightarrow> length s \<le> length t \<and> drop (length t - length s) t = s \<and> p = take (length t - length s) t"
  using append_literal [of p s t] by auto

text \<open>The patterns: the fixed ones, and the same suffixes under the path and under its alias.\<close>

definition fixed_patterns :: "string list" where
  "fixed_patterns =
     [''/healthz'', ''/version'', ''/identity'', ''/capabilities'', ''/test-routes'', ''/admin/v1/info'',
      ''/admin/v1/overview'', ''/admin/v1/tokens'', ''/admin/v1/tokens/'', ''/connect'']"

definition path_suffixes :: "string list" where
  "path_suffixes =
     [[], ''/identity'', ''/connect'', ''/admin/v1/info'', ''/admin/v1/overview'', ''/admin/v1/tokens'',
      ''/admin/v1/tokens/'']"

lemma mset_patterns:
  assumes "trimSuffix p ''/'' = p" and "ws_Path (cf_WebSocket c) = p"
  shows "mset (map fst (handlerRoutes c)) =
    mset (fixed_patterns @ map (append p) path_suffixes
          @ (if p \<noteq> ''/apiws'' then map (append ''/apiws'') path_suffixes else []))"
proof -
  have e: "trimSuffix [] ''/'' = []" "trimSuffix ''/apiws'' ''/'' = ''/apiws''"
    by (simp_all add: trimSuffix_def hasSuffix_def hasPrefix_def)
  show ?thesis
    using assms by (simp add: handlerRoutes_def registerOwnerRoutes_def Let_def e fixed_patterns_def path_suffixes_def)
qed

lemma management_literals:
  "management_path ''/admin/v1/info''" "management_path ''/admin/v1/overview''" "management_path ''/admin/v1/tokens''"
  "management_path ''/admin/v1/tokens/''" "management_path ''/apiws/admin/v1/info''" "management_path ''/apiws/admin/v1/overview''"
  "management_path ''/apiws/admin/v1/tokens''" "management_path ''/apiws/admin/v1/tokens/''" "management_path ''/healthz''"
  "management_path ''/version''" "management_path ''/identity''" "management_path ''/capabilities''"
  "management_path ''/test-routes''" "management_path ''/connect''" "management_path ''/apiws/connect''"
  "management_path ''/apiws/identity''"
  by (simp_all add: management_path_def hasPrefix_def)

lemma not_management:
  assumes "\<not> management_path p"
  shows "p \<noteq> ''/admin/v1/info''" "p \<noteq> ''/admin/v1/overview''" "p \<noteq> ''/admin/v1/tokens''" "p \<noteq> ''/admin/v1/tokens/''"
    "p \<noteq> ''/apiws/admin/v1/info''" "p \<noteq> ''/apiws/admin/v1/overview''" "p \<noteq> ''/apiws/admin/v1/tokens''" "p \<noteq> ''/apiws/admin/v1/tokens/''"
    "p \<noteq> ''/healthz''" "p \<noteq> ''/version''" "p \<noteq> ''/identity''" "p \<noteq> ''/capabilities''"
    "p \<noteq> ''/test-routes''" "p \<noteq> ''/connect''" "p \<noteq> ''/apiws/connect''" "p \<noteq> ''/apiws/identity''"
  using assms management_literals by blast+

lemma path_not_fixed:
  assumes "p \<noteq> []" and "\<not> management_path p"
  shows "\<forall>s \<in> set path_suffixes. p @ s \<notin> set fixed_patterns"
  using assms(1) not_management [OF assms(2)]
  by (simp add: path_suffixes_def fixed_patterns_def append_literal)

lemma path_not_alias:
  assumes "p \<noteq> []" and "\<not> management_path p" and "p \<noteq> ''/apiws''"
  shows "\<forall>s \<in> set path_suffixes. p @ s \<notin> set (map (append ''/apiws'') path_suffixes)"
  using assms(1,3) not_management [OF assms(2)]
  by (simp add: path_suffixes_def append_literal)

lemma alias_not_fixed: "set (map (append ''/apiws'') path_suffixes) \<inter> set fixed_patterns = {}"
  by (simp add: path_suffixes_def fixed_patterns_def)

lemma distinct_suffixes: "distinct (map (append p) path_suffixes)" "distinct fixed_patterns"
  by (simp_all add: path_suffixes_def fixed_patterns_def)

lemma distinct_routes:
  assumes "p \<noteq> []" and "trimSuffix p ''/'' = p" and "\<not> management_path p"
    and "ws_Path (cf_WebSocket c) = p"
  shows "distinct (map fst (handlerRoutes c))"
proof -
  have "distinct (fixed_patterns @ map (append p) path_suffixes
          @ (if p \<noteq> ''/apiws'' then map (append ''/apiws'') path_suffixes else []))"
    using distinct_suffixes path_not_fixed [OF assms(1,3)] path_not_alias [OF assms(1,3)] alias_not_fixed
    by (auto simp: distinct_append)
  then show ?thesis using mset_eq_imp_distinct_iff [OF mset_patterns [OF assms(2,4)]] by simp
qed

lemma Validate_path:
  assumes "Validate E c = (c', None)"
  shows "validWebSocketPath (ws_Path (cf_WebSocket c'))" and "\<not> management_path (ws_Path (cf_WebSocket c'))"
  using Validate_ok(2) [OF assms, unfolded validate_checks_def Let_def] by simp_all

text \<open>
  C28. The server can register its routes: under an accepted configuration whose WebSocket path has no
  surrounding white space, every pattern of the table is well formed and no two of them read the same,
  so \<open>Handler\<close> does not panic, whatever the path.
\<close>

theorem routes_register:
  assumes "Validate E c = (c', None)" and "trimSpace (ws_Path (cf_WebSocket c')) = ws_Path (cf_WebSocket c')"
  shows "mux_accepts (map fst (handlerRoutes c'))"
proof -
  let ?p = "ws_Path (cf_WebSocket c')"
  note v = valid_path_chars [OF Validate_path(1) [OF assms(1)] assms(2)]
  have d: "distinct (map fst (handlerRoutes c'))"
    by (rule distinct_routes [OF v(1,3) Validate_path(2) [OF assms(1)] refl])
  have slash: "CHR ''/'' \<in> set ?p" using v(1,2) by (cases ?p) auto
  have patterns: "set (map fst (handlerRoutes c')) \<subseteq>
      set (fixed_patterns @ map (append ?p) path_suffixes @ map (append ''/apiws'') path_suffixes)"
    using mset_eq_setD [OF mset_patterns [OF v(3) refl]] by auto
  have plain: "CHR ''/'' \<in> set s \<and> (\<forall>c \<in> set s. \<not> blank_char c)"
    if "s \<in> set (fixed_patterns @ map (append ''/apiws'') path_suffixes)" for s
    using that by (auto simp: fixed_patterns_def path_suffixes_def blank_char_def)
  have suffix: "\<forall>c \<in> set s. \<not> blank_char c" if "s \<in> set path_suffixes" for s
    using that by (auto simp: path_suffixes_def blank_char_def)
  have parse: "parsePattern s = Some ([], s)" if "s \<in> set (map fst (handlerRoutes c'))" for s
  proof -
    have "s \<in> set (fixed_patterns @ map (append ''/apiws'') path_suffixes) \<or> (\<exists>t \<in> set path_suffixes. s = ?p @ t)"
      using that patterns by auto
    then have "CHR ''/'' \<in> set s \<and> (\<forall>c \<in> set s. \<not> blank_char c)"
      using plain [of s] suffix slash v(4) by (elim disjE bexE) auto
    then show ?thesis by (simp add: parsePattern_plain)
  qed
  have "map parsePattern (map fst (handlerRoutes c')) = map (\<lambda>s. Some ([], s)) (map fst (handlerRoutes c'))"
    by (intro map_cong refl parse)
  then show ?thesis
    using d parse by (simp add: mux_accepts_def list_all_iff distinct_map inj_on_def)
qed

theorem routes_register_witness: "mux_accepts (map fst (handlerRoutes sample_config))"
  using routes_register [OF sample_config_Validate]
  by (simp add: sample_config_def defaultConfig_def sample_trims)

text \<open>
  The condition on white space is needed: \<open>Validate\<close> trims the path to check its form but compares and
  keeps it untrimmed, so a path with a leading space is accepted and its routes cannot be registered.
\<close>

definition spaced_config :: Config where
  "spaced_config = sample_config\<lparr>cf_WebSocket := (cf_WebSocket sample_config)\<lparr>ws_Path := '' /healthz''\<rparr>\<rparr>"

lemma spaced_trim: "trimSpace '' /healthz'' = ''/healthz''"
proof -
  have f: "front_space '' /healthz'' = 1" by (simp add: front_space_def rune_is_space_def)
  have p: "front_space ''/healthz'' = 0" "back_space (rev ''/healthz'') = 0"
    by (simp_all add: front_space_plain back_space_plain plain_char_def)
  have "drop_spaces front_space (Suc n) '' /healthz'' = ''/healthz''" for n
    using f drop_spaces_none [of front_space "''/healthz''" n, OF p(1)] by simp
  moreover have "drop_spaces back_space n (rev ''/healthz'') = rev ''/healthz''" for n
    using drop_spaces_none [of back_space "rev ''/healthz''" n] p(2) by simp
  ultimately show ?thesis by (simp only: trimSpace_def Let_def rev_rev_ident)
qed

lemma spaced_path: "validWebSocketPath '' /healthz''" "\<not> management_path '' /healthz''"
  by (simp_all add: validWebSocketPath_def management_path_def spaced_trim hasSuffix_def hasPrefix_def
      path_char_def is_alnum_def is_lower_def)

lemma spaced_config_Validate: "Validate sample_env spaced_config = (spaced_config, None)"
proof -
  have d: "applyDefaults spaced_config = spaced_config"
    by (simp add: applyDefaults_def applyDefaults_telegram_def applyDefaults_websocket_def
        applyDefaults_topology_def spaced_config_def sample_config_def defaultConfig_def noTopology_def sample_trims
        spaced_trim)
  have "\<forall>e \<in> set (validate_checks sample_env spaced_config). e = None"
    using Validate_ok(2) [OF sample_config_Validate] spaced_path
    by (simp add: validate_checks_def spaced_config_def Let_def)
  then show ?thesis
    using d by (simp add: Validate_def negative_limits_def spaced_config_def sample_config_def defaultConfig_def Let_def)
qed

theorem spaced_path_panics:
  "Validate sample_env spaced_config = (spaced_config, None)
   \<and> \<not> mux_accepts (map fst (handlerRoutes spaced_config))"
proof -
  have "parsePattern '' /healthz'' = Some ([], ''/healthz'')" "parsePattern ''/healthz'' = Some ([], ''/healthz'')"
    by (simp_all add: parsePattern_def blank_char_def)
  then have "\<not> distinct (map parsePattern (map fst (handlerRoutes spaced_config)))"
    by (simp add: handlerRoutes_def spaced_config_def Let_def)
  then show ?thesis using spaced_config_Validate by (simp add: mux_accepts_def)
qed

end
