(* ===== verification/Ws_Handshake.thy ===== *)
theory Ws_Handshake
  imports Owner_Http
begin

text \<open>
  \<open>handleWebSocket\<close> of \<open>internal/relay/websocket.go\<close> and the request checks it uses. Its atomic
  sections are the steps of a machine whose phases hold what the handler owns at that point, so that
  other requests may change the server between any two of them; a step answers the server, the next
  phase and the visible actions.
\<close>

section \<open>Checks of the request\<close>

definition headerContainsToken :: "string \<Rightarrow> string \<Rightarrow> bool" where
  "headerContainsToken value token =
     list_ex (\<lambda>item. equalFoldAscii (trimSpace item) token) (splitOn CHR '','' value)"

definition selectedWebSocketSubprotocol :: "request \<Rightarrow> string" where
  "selectedWebSocketSubprotocol r =
     (let value = rq_header r ''Sec-WebSocket-Protocol''
      in if headerContainsToken value ''tgproxy-relay.v2'' then ''tgproxy-relay.v2''
         else if headerContainsToken value ''binary'' then ''binary''
         else [])"

definition isWebSocketUpgrade :: "goenv \<Rightarrow> request \<Rightarrow> bool" where
  "isWebSocketUpgrade E r \<longleftrightarrow>
     equalFoldAscii (rq_header r ''Upgrade'') ''websocket''
     \<and> containsSub (toLower (ge_lower E) (rq_header r ''Connection'')) ''upgrade''
     \<and> rq_header r ''Sec-WebSocket-Key'' \<noteq> []
     \<and> rq_header r ''Sec-WebSocket-Version'' = ''13''
     \<and> selectedWebSocketSubprotocol r \<noteq> []"

text \<open>The first complaint in the order in which the map of parameters is walked.\<close>

definition validateRouteQuery :: "request \<Rightarrow> string option" where
  "validateRouteQuery r =
     first_error (concat (map (\<lambda>(key, values).
        [check (key \<notin> set [''dc'', ''media'', ''test'']) (''unknown route parameter '' @ key),
         check (length values \<noteq> 1) (''route parameter '' @ key @ '' must appear once'')])
        (rq_query r)))"

definition websocketGUID :: string where "websocketGUID = ''258EAFA5-E914-47DA-95CA-C5AB0DC85B11''"

definition websocketAccept :: "(string \<Rightarrow> nat list) \<Rightarrow> string \<Rightarrow> string" where
  "websocketAccept sha1 key = b64Encode StdAlphabet True (sha1 (key @ websocketGUID))"

text \<open>The route a request asks for, or the refusal.\<close>

record wsRoute =
  wo_subprotocol :: string
  wo_dc :: int
  wo_test :: bool
  wo_media :: bool

definition requestedRoute :: "goenv \<Rightarrow> request \<Rightarrow> response + wsRoute" where
  "requestedRoute E r =
     (let subprotocol = selectedWebSocketSubprotocol r; media = query_get r ''media''; test = query_get r ''test''
      in if subprotocol = [] \<or> \<not> isWebSocketUpgrade E r then Inl (httpError ''websocket upgrade required'' 400)
         else
           (case validateRouteQuery r of
              Some e \<Rightarrow> Inl (httpError e 400)
            | None \<Rightarrow>
                (case atoi (query_get r ''dc'') of
                   None \<Rightarrow> Inl (httpError ''dc is required'' 400)
                 | Some dc \<Rightarrow>
                     if dc \<le> 0 then Inl (httpError ''dc is required'' 400)
                     else if media \<noteq> ''0'' \<and> media \<noteq> ''1'' then Inl (httpError ''media must be 0 or 1'' 400)
                     else if test \<noteq> [] \<and> test \<noteq> ''0'' \<and> test \<noteq> ''1''
                     then Inl (httpError ''test must be 0 or 1'' 400)
                     else Inr \<lparr>wo_subprotocol = subprotocol, wo_dc = dc, wo_test = (test = ''1''),
                               wo_media = (media = ''1'')\<rparr>)))"

section \<open>The handler\<close>

datatype hijackOutcome = NoHijacker | HijackFailed | HijackDone conn

datatype wsPhase =
    Start
  | Checked wsRoute
  | Routed wsRoute
  | Reserved wsRoute sessionReservation
  | DialReturned wsRoute sessionReservation "conn option"
  | Connected wsRoute sessionReservation conn
  | Hijacked wsRoute sessionReservation conn conn \<comment> \<open>telegram, client\<close>
  | Registered wsRoute sessionReservation conn conn "sessionHandle option"
  | Bridging sessionReservation conn conn "sessionHandle option"
  | Leaving sessionReservation "sessionHandle option"
  | Finished

datatype wsEvent =
    Responds response
  | Opens conn
  | Closes conn
  | Reserves sessionReservation
  | DialDone
  | Releases sessionReservation
  | Registers sessionHandle
  | Unregisters sessionHandle
  | Lookup string string
  | SwitchingProtocols string string \<comment> \<open>accept value, subprotocol\<close>
  | Bridges conn conn

text \<open>What the outside answers to one run: the topology refresh, the dial, the hijack and the clocks.\<close>

record wsRun =
  wx_seen :: topologyManager
  wx_routeNow :: gotime
  wx_parentDone :: bool
  wx_fetch :: fetchResult
  wx_fetched :: gotime
  wx_io :: persistIO
  wx_waves :: "nat \<Rightarrow> waveRun"
  wx_dialNow :: gotime
  wx_hijack :: hijackOutcome
  wx_close :: nat
  wx_startText :: string
  wx_startNow :: gotime
  wx_flushed :: bool
  wx_endText :: string

record wsEnv =
  we_control :: controlenv
  we_topology :: topoenv
  we_sha1 :: "string \<Rightarrow> nat list"

definition close_both :: "conn \<Rightarrow> conn \<Rightarrow> wsEvent list" where
  "close_both client telegram = [Closes client, Closes telegram]"

definition route_step ::
  "wsEnv \<Rightarrow> wsRun \<Rightarrow> server \<Rightarrow> string option \<Rightarrow> wsRoute \<Rightarrow> server \<times> string option \<times> wsPhase \<times> wsEvent list" where
  "route_step W x s file rt =
     (let (m, file, found, started) =
        ensureRoute (we_topology W) (wx_seen x) (sv_topology s) file (wo_dc rt) (wo_test rt) (wo_media rt)
          (wx_routeNow x) (wx_parentDone x) (wx_fetch x) (wx_fetched x) (wx_io x)
      in (s\<lparr>sv_topology := m\<rparr>, file,
          if found = [] then (Finished, [Responds (httpError ''unknown dc'' 400)]) else (Routed rt, [])))"

definition reserve_step :: "wsEnv \<Rightarrow> server \<Rightarrow> Token \<Rightarrow> wsRoute \<Rightarrow> server \<times> wsPhase \<times> wsEvent list" where
  "reserve_step W s token rt =
     (let (l, reservation, status) = reserve (sv_sessions s) (StableTokenID (ce_go (we_control W)) token)
      in (s\<lparr>sv_sessions := l\<rparr>,
          case reservation of
            None \<Rightarrow> (Finished, [Responds (httpError ''relay is busy'' status)])
          | Some r \<Rightarrow> (Reserved rt r, [Reserves r])))"

text \<open>
  The dial: its sections on the pool are taken as one step. The connections of the races that were not
  selected are closed by the dial itself, late ones included, and appear before the selected one.
\<close>

definition race_events :: "conn list \<Rightarrow> wsEvent list" where
  "race_events cs = concat (map (\<lambda>c. [Opens c, Closes c]) cs)"

definition dial_step ::
  "wsEnv \<Rightarrow> wsRun \<Rightarrow> server \<Rightarrow> wsRoute \<Rightarrow> sessionReservation \<Rightarrow> server \<times> wsPhase \<times> wsEvent list" where
  "dial_step W x s rt r =
     (let (p, res, lost) =
        dialTelegramRoute (wx_waves x) (sv_upstreams s)
          (addresses (ce_go (we_control W)) (sv_topology s) (wo_dc rt) (wo_test rt) (wo_media rt)) (wx_dialNow x)
      in (s\<lparr>sv_upstreams := p\<rparr>,
          case res of
            Inl e \<Rightarrow> (DialReturned rt r None, race_events lost)
          | Inr (telegram, address) \<Rightarrow> (DialReturned rt r (Some telegram), race_events lost @ [Opens telegram])))"

definition dialDone_step ::
  "server \<Rightarrow> wsRoute \<Rightarrow> sessionReservation \<Rightarrow> conn option \<Rightarrow> server \<times> wsPhase \<times> wsEvent list" where
  "dialDone_step s rt r dialled =
     (let (l, r') = upstreamDialDone (sv_sessions s) (Some r); r' = the r'
      in (s\<lparr>sv_sessions := l\<rparr>,
          case dialled of
            None \<Rightarrow> (Leaving r' None, [DialDone, Responds (httpError ''telegram dc unavailable'' 502)])
          | Some telegram \<Rightarrow> (Connected rt r' telegram, [DialDone])))"

definition hijack_step ::
  "wsRun \<Rightarrow> wsRoute \<Rightarrow> sessionReservation \<Rightarrow> conn \<Rightarrow> wsPhase \<times> wsEvent list" where
  "hijack_step x rt r telegram =
     (case wx_hijack x of
        NoHijacker \<Rightarrow>
          (Leaving r None, [Closes telegram, Responds (httpError ''hijack unsupported'' 500)])
      | HijackFailed \<Rightarrow> (Leaving r None, [Closes telegram])
      | HijackDone client \<Rightarrow> (Hijacked rt r telegram client, [Opens client]))"

definition register_step ::
  "wsEnv \<Rightarrow> wsRun \<Rightarrow> server \<Rightarrow> request \<Rightarrow> Token \<Rightarrow> wsRoute \<Rightarrow> sessionReservation \<Rightarrow> conn \<Rightarrow> conn
   \<Rightarrow> server \<times> wsPhase \<times> wsEvent list" where
  "register_step W x s q token rt r telegram client =
     (let (c, handle, registered, lookup) =
        registerSession (ce_go (we_control W)) (sv_control s) token q (wx_close x) (wx_startText x) (wx_startNow x)
      in (s\<lparr>sv_control := c\<rparr>,
          if \<not> registered then (Leaving r None, close_both client telegram)
          else (Registered rt r telegram client handle,
                (case handle of None \<Rightarrow> [] | Some h \<Rightarrow> [Registers h])
                @ (case lookup of None \<Rightarrow> [] | Some (key, ip) \<Rightarrow> [Lookup key ip]))))"

definition switch_step ::
  "wsEnv \<Rightarrow> wsRun \<Rightarrow> request \<Rightarrow> wsRoute \<Rightarrow> sessionReservation \<Rightarrow> conn \<Rightarrow> conn \<Rightarrow> sessionHandle option
   \<Rightarrow> wsPhase \<times> wsEvent list" where
  "switch_step W x q rt r telegram client handle =
     (let switch = SwitchingProtocols (websocketAccept (we_sha1 W) (rq_header q ''Sec-WebSocket-Key''))
                     (wo_subprotocol rt)
      in if \<not> wx_flushed x then (Leaving r handle, switch # close_both client telegram)
         else (Bridging r telegram client handle, [switch, Bridges client telegram]))"

text \<open>The deferred calls, last first.\<close>

definition leave_step ::
  "wsRun \<Rightarrow> server \<Rightarrow> sessionReservation \<Rightarrow> sessionHandle option \<Rightarrow> server \<times> wsPhase \<times> wsEvent list" where
  "leave_step x s r handle =
     (case handle of
        Some h \<Rightarrow>
          (s\<lparr>sv_control := fst (unregister (sv_control s) h (wx_endText x))\<rparr>, Leaving r None, [Unregisters h])
      | None \<Rightarrow> (s\<lparr>sv_sessions := fst (release (sv_sessions s) (Some r))\<rparr>, Finished, [Releases r]))"

definition ws_step ::
  "wsEnv \<Rightarrow> wsRun \<Rightarrow> request \<Rightarrow> Token \<Rightarrow> server \<Rightarrow> string option \<Rightarrow> wsPhase
   \<Rightarrow> server \<times> string option \<times> wsPhase \<times> wsEvent list" where
  "ws_step W x q token s file phase =
     (case phase of
        Start \<Rightarrow>
          (case requestedRoute (ce_go (we_control W)) q of
             Inl response \<Rightarrow> (s, file, Finished, [Responds response])
           | Inr rt \<Rightarrow>
               if deviceBlocked (ce_go (we_control W)) (sv_control s) token (Some q)
               then (s, file, Finished, [Responds (httpError ''device blocked'' 403)])
               else (s, file, Checked rt, []))
      | Checked rt \<Rightarrow> route_step W x s file rt
      | Routed rt \<Rightarrow> (case reserve_step W s token rt of (s, p, es) \<Rightarrow> (s, file, p, es))
      | Reserved rt r \<Rightarrow> (case dial_step W x s rt r of (s, p, es) \<Rightarrow> (s, file, p, es))
      | DialReturned rt r dialled \<Rightarrow> (case dialDone_step s rt r dialled of (s, p, es) \<Rightarrow> (s, file, p, es))
      | Connected rt r telegram \<Rightarrow> (case hijack_step x rt r telegram of (p, es) \<Rightarrow> (s, file, p, es))
      | Hijacked rt r telegram client \<Rightarrow>
          (case register_step W x s q token rt r telegram client of (s, p, es) \<Rightarrow> (s, file, p, es))
      | Registered rt r telegram client handle \<Rightarrow>
          (case switch_step W x q rt r telegram client handle of (p, es) \<Rightarrow> (s, file, p, es))
      | Bridging r telegram client handle \<Rightarrow> (s, file, Leaving r handle, close_both client telegram)
      | Leaving r handle \<Rightarrow> (case leave_step x s r handle of (s, p, es) \<Rightarrow> (s, file, p, es))
      | Finished \<Rightarrow> (s, file, Finished, []))"

end
