(* ===== verification/Access_Props.thy ===== *)
theory Access_Props
  imports Server_Props Revocation_Props Ws_Handshake
begin

text \<open>
  What a request may do: which bearer token each route demands, and how the owner's mutations answer.
\<close>

section \<open>Authorisation of routes\<close>

definition client_handlers :: "handler set" where
  "client_handlers = {Healthz, VersionInfo, Identity, Capabilities, TestRoutes, WebSocket}"

definition owner_handlers :: "handler set" where
  "owner_handlers = {OwnerInfo, OwnerOverview, OwnerTokens, OwnerToken}"

lemma route_guards:
  assumes "(pattern, g, h) \<in> set (handlerRoutes cfg)"
  shows "g = ClientAuth \<and> h \<in> client_handlers \<or> g = AdminAuth \<and> h \<in> owner_handlers
    \<or> g = Public \<and> h = ConnectLanding"
  using assms
  by (auto simp: handlerRoutes_def registerOwnerRoutes_def Let_def client_handlers_def owner_handlers_def split: if_splits)

lemma run_client_handler:
  assumes "run_handler C s disk r run h token = (c', disk', out, closers)" and "h \<notin> owner_handlers"
  shows "c' = sv_control s \<and> disk' = disk \<and> closers = [] \<and> (\<forall>t. out = Upgrade t \<longrightarrow> t = token)"
  using assms by (cases h) (auto simp: respond_def owner_handlers_def)

lemma run_handler_upgrade:
  assumes "run_handler C s disk r run h token = (c', disk', out, closers)"
  shows "(\<exists>t. out = Upgrade t) \<longleftrightarrow> h = WebSocket"
  using assms by (cases h) (auto simp: respond_def owner_served_def split: prod.splits)

text \<open>
  The steps of the WebSocket handler that change the control plane register and unregister a session;
  neither touches the tokens.
\<close>

lemma unregister_owner: "same_owner c (fst (unregister c h now))"
  using same_owner_trans [OF same_owner_basic(7) same_owner_trans [OF same_owner_basic(6) same_owner_basic(3)]]
  by (simp add: unregister_def)

lemma ws_step_owner:
  assumes "ws_step W x q token s file phase = (s', file', phase', es)"
  shows "same_owner (sv_control s) (sv_control s')"
proof (cases phase)
  case (Hijacked rt r telegram client)
  then show ?thesis
    using assms registerSession_owner
    by (auto simp: ws_step_def register_step_def split: prod.splits if_splits)
next
  case (Leaving r handle)
  then show ?thesis
    using assms unregister_owner by (cases handle) (auto simp: ws_step_def leave_step_def)
qed (use assms in \<open>auto simp: ws_step_def route_step_def reserve_step_def dial_step_def dialDone_step_def
  hijack_step_def switch_step_def Let_def split: prod.splits sum.splits option.splits if_splits hijackOutcome.splits\<close>)

lemma authorizeAdmin_token:
  assumes "goenv_ok E" and "authorizeAdmin E c header"
  shows "\<exists>t \<in> set (cp_adminTokens c). normalizeHash E (tk_Hash t) = TokenHash E (bearerToken header)"
proof -
  obtain t where "t \<in> set (cp_adminTokens c)" "constantHashEqual E (tk_Hash t) (TokenHash E (bearerToken header))"
    using assms(2) by (auto simp: authorizeAdmin_def authorizeTokens_def Let_def list_ex_iff split: if_splits)
  moreover have "canonical_hash (TokenHash E (bearerToken header))"
    using assms(1) by (intro canonical_TokenHash) (simp add: goenv_ok_def)
  ultimately show ?thesis
    using constantHashEqual_normal(2) assms(1) normalizeHash_canonical by (metis goenv_ok_def)
qed

text \<open>
  C1. No route without its token. Whatever route of the table a request reaches, the answer is
  \<open>unauthorized\<close> and nothing changes, or the route is the public landing page, which changes nothing, or
  it is a client route and the hash of the bearer token is accepted at that moment, or it is an owner
  route and the bearer token is a configured owner token. A client route other than the WebSocket
  changes nothing in the control plane. The WebSocket route hands the token of the request to its
  handler; at whichever server and phase a step of that handler runs, it may change the records of
  clients, sessions and blocked devices, but not the added, revoked and deleted tokens, the instance
  identity or the settings.
\<close>

theorem served_access:
  assumes "reachable (control_init C cfg) (control_step C cfg) (sv_control s, disk)"
    and "(pattern, g, h) \<in> set (handlerRoutes (sv_cfg s))"
    and "serve C s disk r run (pattern, g, h) = (c', disk', out, closers)"
  shows "(out = Respond (httpError ''unauthorized'' 401) \<and> c' = sv_control s \<and> disk' = disk \<and> closers = [])
    \<or> (h = ConnectLanding \<and> c' = sv_control s \<and> disk' = disk \<and> closers = [])
    \<or> (h \<in> client_handlers
        \<and> TokenHash (ce_go C) (bearerToken (rq_header (hr_request r) ''Authorization'')) \<in> active_hashes (ce_go C) (sv_control s)
        \<and> c' = sv_control s \<and> disk' = disk \<and> closers = [] \<and> ((\<exists>t. out = Upgrade t) \<longleftrightarrow> h = WebSocket)
        \<and> (\<forall>t. out = Upgrade t \<longrightarrow>
             tk_Hash t = TokenHash (ce_go C) (bearerToken (rq_header (hr_request r) ''Authorization''))
             \<and> (\<forall>W x now file phase later file' phase' es.
                  ws_step W x (hr_request r) t now file phase = (later, file', phase', es) \<longrightarrow>
                    same_owner (sv_control now) (sv_control later))))
    \<or> (h \<in> owner_handlers
        \<and> (\<exists>t \<in> set (cp_adminTokens (sv_control s)). normalizeHash (ce_go C) (tk_Hash t) =
             TokenHash (ce_go C) (bearerToken (rq_header (hr_request r) ''Authorization''))))"
proof -
  note c = reachable_control [OF assms(1)]
  have go: "goenv_ok (ce_go C)" using c(2) by (simp add: control_env_def)
  then have sha: "sha256_ok (ce_go C)" by (simp add: goenv_ok_def)
  let ?h = "rq_header (hr_request r) ''Authorization''"
  from route_guards [OF assms(2)] consider
      (client) "g = ClientAuth" "h \<in> client_handlers"
    | (admin) "g = AdminAuth" "h \<in> owner_handlers" | (public) "g = Public" "h = ConnectLanding"
    by blast
  then show ?thesis
  proof cases
    case client
    show ?thesis
    proof (cases "authorizeClient (ce_go C) (sv_control s) ?h")
      case None
      then show ?thesis using assms(3) client(1) by (simp add: serve_def withClientAuth_def respond_def)
    next
      case (Some token)
      have run: "run_handler C s disk r run h token = (c', disk', out, closers)"
        using assms(3) client(1) Some by (simp add: serve_def withClientAuth_def)
      have "h \<notin> owner_handlers" using client(2) by (auto simp: client_handlers_def owner_handlers_def)
      note k = run_client_handler [OF run this] and up = run_handler_upgrade [OF run]
      have a: "TokenHash (ce_go C) (bearerToken ?h) \<in> active_hashes (ce_go C) (sv_control s)"
        using authorizeClient_active [OF c(3) sha, of ?h] Some by simp
      have t: "tk_Hash token = TokenHash (ce_go C) (bearerToken ?h)"
        by (rule authorizeClient_hash(1) [OF c(3) sha Some])
      have "tk_Hash t = TokenHash (ce_go C) (bearerToken ?h) \<and>
          (\<forall>W x now file phase later file' phase' es.
             ws_step W x (hr_request r) t now file phase = (later, file', phase', es) \<longrightarrow>
               same_owner (sv_control now) (sv_control later))" if "out = Upgrade t" for t
        using k that t ws_step_owner by blast
      then show ?thesis using k up a client(2) by simp
    qed
  next
    case admin
    show ?thesis
    proof (cases "authorizeAdmin (ce_go C) (sv_control s) ?h")
      case False
      then show ?thesis using assms(3) admin(1) by (simp add: serve_def withAdminAuth_def respond_def)
    next
      case True
      then show ?thesis using authorizeAdmin_token [OF go True] admin(2) by blast
    qed
  next
    case public
    then show ?thesis using assms(3) by (simp add: serve_def respond_def)
  qed
qed

section \<open>Separation of the roles\<close>

text \<open>
  C12. Role separation. Under a configuration that \<open>Validate\<close> accepted, whatever the owner and the
  clients did so far: the bearer token of a configured client is never accepted on an owner route, and
  the bearer token of an owner is accepted on client routes exactly when the owner created a client
  token with that same secret.
\<close>

theorem roles_separated:
  assumes "Validate (ce_go C) c0 = (cfg, None)"
    and "reachable (control_init C cfg) (control_step C cfg) (c, disk)"
  shows "(TokenHash (ce_go C) (bearerToken header) \<in> set (token_hashes (ce_go C) (cp_baseTokens c)) \<longrightarrow>
      \<not> authorizeAdmin (ce_go C) c header)
    \<and> (authorizeAdmin (ce_go C) c header \<longrightarrow>
         (authorizeClient (ce_go C) c header \<noteq> None \<longleftrightarrow>
            TokenHash (ce_go C) (bearerToken header) \<in> set (token_hashes (ce_go C) (cs_AddedTokens (cp_state c)))))"
proof -
  let ?E = "ce_go C" and ?h = "TokenHash (ce_go C) (bearerToken header)"
  note r = reachable_control [OF assms(2)]
  have go: "goenv_ok ?E" using r(2) by (simp add: control_env_def)
  then have sha: "sha256_ok ?E" by (simp add: goenv_ok_def)
  have s: "cp_baseTokens c = cf_Tokens cfg" "cp_adminTokens c = ac_Tokens (cf_Admin cfg)"
    using control_okD(1) [OF r(1)] by (simp_all add: settings_ok_def)
  have rev: "set (cs_RevokedHashes (cp_state c)) \<subseteq> set (token_hashes ?E (cp_baseTokens c))"
    using control_okD(6) [OF r(1)] by (simp add: tokens_ok_def s)
  have apart: "?h \<notin> set (token_hashes ?E (cp_baseTokens c))" if a: "authorizeAdmin ?E c header"
  proof -
    obtain t where "t \<in> set (cp_adminTokens c)" "normalizeHash ?E (tk_Hash t) = ?h"
      using authorizeAdmin_token [OF go a] by blast
    then show ?thesis using Validate_tokens(4) [OF assms(1), of t] by (auto simp: s token_hashes_def)
  qed
  moreover have "bearerToken header \<noteq> []" if "authorizeAdmin ?E c header"
    using that by (auto simp: authorizeAdmin_def authorizeTokens_def Let_def split: if_splits)
  ultimately show ?thesis
    using authorizeClient_active [OF r(3) sha, of header] rev
    by (auto simp: active_hashes_def token_hashes_def)
qed

section \<open>Answers of the owner's mutations\<close>

text \<open>An answer is honest when an error status means no change, and a success is on disk or changed nothing.\<close>

definition honest :: "controlenv \<Rightarrow> bool \<Rightarrow> controlPlane \<Rightarrow> string option \<Rightarrow> ownerResult \<Rightarrow> bool" where
  "honest C windows c disk x \<longleftrightarrow>
     (case x of (c', disk', rs, closers) \<Rightarrow>
        (rs_status rs \<in> {400, 404, 405, 409, 500} \<and> c'\<lparr>cp_state := cp_state c\<rparr> = c
           \<and> same_maps (cp_state c) (cp_state c') \<and> closers = [] \<and> (disk' = disk \<or> windows \<and> disk' = None))
        \<or> (rs_status rs \<in> {201, 204}
           \<and> (c' = c \<and> disk' = disk \<or> disk' = ce_marshalState C (cp_state c') \<and> disk' \<noteq> None)))"

lemma httpError_status [simp]: "rs_status (httpError message status) = status"
  by (simp add: httpError_def)

lemma createdResponse_status [simp]: "rs_status (createdResponse t raw replayed) = 201"
  by (simp add: createdResponse_def writeJSON_def Let_def)

lemma createError_status: "rs_status (createError message) \<in> {400, 409, 500}"
  by (simp add: createError_def)

lemma mutation_status:
  "rs_status (mutationResponse m None fallback) = 204" "rs_status (mutationResponse m (Some e) fallback) \<in> {404, 500}"
  by (simp_all add: mutationResponse_def noContent_def writeOwnerMutationError_def)

lemma honest_error: "rs_status rs \<in> {400, 404, 405, 409, 500} \<Longrightarrow> honest C windows c disk (c, disk, rs, [])"
  by (simp add: honest_def)

text \<open>
  The contract the handlers rely on: a mutation that fails is undone, one that succeeds is durable or
  changed nothing. The three mutations of the control plane keep it in every state a run reaches.
\<close>

locale owner_mutation =
  fixes C :: controlenv
    and windows :: bool
    and ready :: "controlPlane \<Rightarrow> string option \<Rightarrow> bool"
    and mutate :: "controlPlane \<Rightarrow> string option \<Rightarrow> controlPlane \<times> string option \<times> bool \<times> nat list"
  assumes failure_undone: "ready c disk \<Longrightarrow> mutate c disk = (c', disk', True, closers) \<Longrightarrow>
      c'\<lparr>cp_state := cp_state c\<rparr> = c \<and> same_maps (cp_state c) (cp_state c') \<and> closers = []
      \<and> (disk' = disk \<or> windows \<and> disk' = None)"
    and success_durable: "ready c disk \<Longrightarrow> mutate c disk = (c', disk', False, closers) \<Longrightarrow>
      c' = c \<and> disk' = disk \<or> disk' = ce_marshalState C (cp_state c') \<and> disk' \<noteq> None"
begin

lemma honest_answer:
  assumes "ready c disk" and "mutate c disk = (c', disk', failure, closers)"
    and "failure \<Longrightarrow> rs_status rs \<in> {400, 404, 405, 409, 500}" and "\<not> failure \<Longrightarrow> rs_status rs \<in> {201, 204}"
  shows "honest C windows c disk (c', disk', rs, closers)"
  using assms failure_undone success_durable by (cases failure) (simp_all add: honest_def)

end

definition owner_ready :: "controlenv \<Rightarrow> Config \<Rightarrow> controlPlane \<Rightarrow> string option \<Rightarrow> bool" where
  "owner_ready C cfg c disk \<longleftrightarrow> control_ok C cfg c disk \<and> cp_statePath c \<noteq> []
     \<and> hashes_ok (ce_go C) (cp_baseTokens c @ cs_AddedTokens (cp_state c))"

lemma owner_readyD:
  assumes "owner_ready C cfg c disk"
  shows "control_ok C cfg c disk" and "cp_statePath c \<noteq> []"
    and "hashes_ok (ce_go C) (cp_baseTokens c @ cs_AddedTokens (cp_state c))"
  using assms by (simp_all add: owner_ready_def)

interpretation creation: owner_mutation C "io_windows io" "owner_ready C cfg"
  "\<lambda>c disk. case createToken C c disk io name secret key sb ib now of (c', disk', res) \<Rightarrow> (c', disk', isl res, [])"
  for C cfg io name secret key sb ib now
proof (unfold_locales, goal_cases)
  case (1 c disk c' disk' closers)
  then obtain res where r: "createToken C c disk io name secret key sb ib now = (c', disk', res)" "isl res" "closers = []"
    by (auto split: prod.splits)
  note o = owner_readyD [OF 1(1)]
  show ?case by (cases rule: createToken_effect [OF r(1) o(1,2)]) (use r in auto)
next
  case (2 c disk c' disk' closers)
  then obtain res where r: "createToken C c disk io name secret key sb ib now = (c', disk', res)" "\<not> isl res"
    by (auto split: prod.splits)
  note o = owner_readyD [OF 2(1)]
  show ?case by (cases rule: createToken_effect [OF r(1) o(1,2)]) (use r in auto)
qed

interpretation blocking: owner_mutation C "io_windows io" "owner_ready C cfg"
  "\<lambda>c disk. case setDeviceBlocked C c disk io t d b now of (c', disk', e, closers) \<Rightarrow> (c', disk', e \<noteq> None, closers)"
  for C cfg io t d b now
proof (unfold_locales, goal_cases)
  case (1 c disk c' disk' closers)
  then obtain e where r: "setDeviceBlocked C c disk io t d b now = (c', disk', e, closers)" "e \<noteq> None"
    by (auto split: prod.splits)
  note o = owner_readyD [OF 1(1)]
  show ?case by (cases rule: setDeviceBlocked_effect [OF r(1) o(1,2)]) (use r in auto)
next
  case (2 c disk c' disk' closers)
  then obtain e where r: "setDeviceBlocked C c disk io t d b now = (c', disk', e, closers)" "e = None"
    by (auto split: prod.splits)
  note o = owner_readyD [OF 2(1)]
  show ?case by (cases rule: setDeviceBlocked_effect [OF r(1) o(1,2)]) (use r in auto)
qed

interpretation deletion: owner_mutation C "io_windows io" "owner_ready C cfg"
  "\<lambda>c disk. case deleteToken C c disk io t of (c', disk', e, closers) \<Rightarrow> (c', disk', e \<noteq> None, closers)"
  for C cfg io t
proof (unfold_locales, goal_cases)
  case (1 c disk c' disk' closers)
  then obtain e where r: "deleteToken C c disk io t = (c', disk', e, closers)" "e \<noteq> None" by (auto split: prod.splits)
  note o = owner_readyD [OF 1(1)]
  show ?case by (cases rule: deleteToken_effect [OF r(1) o(1,2,3)]) (use r in auto)
next
  case (2 c disk c' disk' closers)
  then obtain e where r: "deleteToken C c disk io t = (c', disk', e, closers)" "e = None" by (auto split: prod.splits)
  note o = owner_readyD [OF 2(1)]
  show ?case by (cases rule: deleteToken_effect [OF r(1) o(1,2,3)]) (use r in auto)
qed

section \<open>The handlers\<close>

lemma honest_tokens:
  assumes "owner_ready C cfg c disk"
  shows "honest C (io_windows (or_io run)) c disk (handleOwnerTokens C c disk r run)"
proof (cases "hr_method r = ''POST''")
  case True
  show ?thesis
  proof (cases "or_decoded run")
    case (Some d)
    obtain name secret key atEnd where d: "d = ((name, secret, key), atEnd)" by (metis surj_pair)
    let ?k = "if key = [] then rq_header (hr_request r) ''Idempotency-Key'' else key"
    show ?thesis
    proof (cases "atEnd \<and> \<not> (rq_header (hr_request r) ''Idempotency-Key'' \<noteq> [] \<and> key \<noteq> []
        \<and> rq_header (hr_request r) ''Idempotency-Key'' \<noteq> key)")
      case True
      obtain c1 d1 res where m: "createToken C c disk (or_io run) name secret ?k (or_secretBytes run)
          (or_idBytes run) (or_now run) = (c1, d1, res)" by (metis prod_cases3)
      let ?rs = "case res of Inl e \<Rightarrow> createError (error_text (or_ioText run) e) | Inr (t, raw, rep) \<Rightarrow> createdResponse t raw rep"
      have "handleOwnerTokens C c disk r run = (c1, d1, ?rs, [])"
        using True \<open>hr_method r = ''POST''\<close> Some d m by (auto simp: handleOwnerTokens_def Let_def split: sum.splits)
      moreover have "honest C (io_windows (or_io run)) c disk (c1, d1, ?rs, [])"
        using m by (intro creation.honest_answer [OF assms, of "or_io run" name secret ?k "or_secretBytes run" "or_idBytes run"
              "or_now run" _ _ "isl res"])
          (use createError_status in \<open>auto split: sum.splits\<close>)
      ultimately show ?thesis by simp
    qed (use \<open>hr_method r = ''POST''\<close> Some d in \<open>auto simp: handleOwnerTokens_def intro!: honest_error\<close>)
  qed (use True in \<open>simp add: handleOwnerTokens_def honest_error\<close>)
qed (simp add: handleOwnerTokens_def honest_error)

lemma mutation_honest:
  "e \<noteq> None \<Longrightarrow> rs_status (mutationResponse m e fallback) \<in> {400, 404, 405, 409, 500}"
  "e = None \<Longrightarrow> rs_status (mutationResponse m e fallback) \<in> {201, 204}"
  using mutation_status [of m] by auto

lemma honest_block:
  assumes "owner_ready C cfg c disk" and "setDeviceBlocked C c disk io t d b now = (c', disk', e, closers)"
  shows "honest C (io_windows io) c disk (c', disk', mutationResponse m e fallback, closers)"
  by (rule blocking.honest_answer [OF assms(1), of io t d b now, where failure = "e \<noteq> None"])
    (use assms(2) mutation_honest in auto)

lemma honest_delete:
  assumes "owner_ready C cfg c disk" and "deleteToken C c disk io t = (c', disk', e, closers)"
  shows "honest C (io_windows io) c disk (c', disk', mutationResponse m e fallback, closers)"
  by (rule deletion.honest_answer [OF assms(1), of io t, where failure = "e \<noteq> None"])
    (use assms(2) mutation_honest in auto)

lemma disconnect_error: "disconnectDevice c t d = (Some e, closers) \<Longrightarrow> closers = []"
  by (auto simp: disconnectDevice_def split: sum.splits if_splits)

lemma honest_device:
  assumes "owner_ready C cfg c disk"
  shows "honest C (io_windows (or_io run)) c disk (handleOwnerDevice C c disk method run t parts)"
proof (cases "length parts = 4 \<and> parts ! 1 = ''devices''")
  case True
  show ?thesis
  proof (cases "clean_part (parts ! 2)")
    case None
    then show ?thesis using True by (simp add: handleOwnerDevice_def honest_error)
  next
    case (Some d)
    obtain e cl where dis: "disconnectDevice c t d = (e, cl)" by (metis surj_pair)
    have h: "honest C (io_windows (or_io run)) c disk (c, disk, mutationResponse m e fallback, cl)" for m fallback
      using disconnect_error [of c t d] dis mutation_status(1) [of m fallback] mutation_status(2) [of m _ fallback]
      by (cases e) (auto simp: honest_def)
    obtain c1 d1 e1 cl1 where blk: "setDeviceBlocked C c disk (or_io run) t d (method = ''PUT'') (or_now run) = (c1, d1, e1, cl1)"
      by (metis prod_cases4)
    note b = honest_block [OF assms blk]
    show ?thesis
      using True Some dis blk h b by (simp add: handleOwnerDevice_def honest_error)
  qed
qed (simp add: handleOwnerDevice_def honest_error)

text \<open>
  C19. The owner's mutations are honest: an error status means that memory is as before, no session
  was closed and the file is as before, or, on Windows only, lost by the replacement; a success either
  changed nothing or left exactly the new state on disk before it was answered.
\<close>

theorem owner_mutations_honest:
  assumes "reachable (control_init C cfg) (control_step C cfg) (c, disk)"
  shows "honest C (io_windows (or_io run)) c disk (handleOwnerTokens C c disk r run) \<and> honest C (io_windows (or_io run)) c disk (handleOwnerToken C c disk r run)"
proof
  have w: "owner_ready C cfg c disk" using reachable_control [OF assms] by (simp add: owner_ready_def)
  show "honest C (io_windows (or_io run)) c disk (handleOwnerTokens C c disk r run)" by (rule honest_tokens [OF w])
  show "honest C (io_windows (or_io run)) c disk (handleOwnerToken C c disk r run)"
  proof (cases "owner_path_parts (hr_path r)")
    case (Some parts)
    show ?thesis
    proof (cases "clean_part (hd parts)")
      case None
      then show ?thesis using Some by (simp add: handleOwnerToken_def honest_error)
    next
      case (Some t)
      obtain c1 d1 e cl where del: "deleteToken C c disk (or_io run) t = (c1, d1, e, cl)" by (metis prod_cases4)
      note d = honest_delete [OF w del]
      note v = honest_device [OF w]
      show ?thesis
        using \<open>owner_path_parts (hr_path r) = Some parts\<close> Some del d v by (simp add: handleOwnerToken_def honest_error)
    qed
  qed (simp add: handleOwnerToken_def honest_error)
qed

end
