(* ===== verification/Ws_Props.thy ===== *)
theory Ws_Props
  imports Ws_Handshake Session_Limiter
begin

text \<open>
  What a run of the WebSocket handler does with the things it acquires. The server may be any server
  at each step, so the statements hold whatever other requests, the owner or the timers do meanwhile;
  a run keeps the servers its steps met, in order.
\<close>

section \<open>Runs\<close>

inductive ws_run :: "wsEnv \<Rightarrow> wsRun \<Rightarrow> request \<Rightarrow> Token \<Rightarrow> server list \<Rightarrow> wsPhase \<Rightarrow> wsEvent list \<Rightarrow> bool"
  for W x q token where
  ws_run_start: "ws_run W x q token [] Start []"
| ws_run_step: "ws_run W x q token ss phase es \<Longrightarrow> phase \<noteq> Finished \<Longrightarrow>
    ws_step W x q token s file phase = (s', file', phase', es') \<Longrightarrow> ws_run W x q token (ss @ [s]) phase' (es @ es')"

text \<open>What was acquired and given back so far.\<close>

definition opened :: "wsEvent list \<Rightarrow> conn multiset" where
  "opened es = mset (concat (map (\<lambda>e. case e of Opens c \<Rightarrow> [c] | _ \<Rightarrow> []) es))"

definition closed :: "wsEvent list \<Rightarrow> conn multiset" where
  "closed es = mset (concat (map (\<lambda>e. case e of Closes c \<Rightarrow> [c] | _ \<Rightarrow> []) es))"

definition reserved :: "wsEvent list \<Rightarrow> nat" where
  "reserved es = length (filter (\<lambda>e. case e of Reserves r \<Rightarrow> True | _ \<Rightarrow> False) es)"

definition dials_done :: "wsEvent list \<Rightarrow> nat" where
  "dials_done es = length (filter (\<lambda>e. e = DialDone) es)"

definition released :: "wsEvent list \<Rightarrow> sessionReservation list" where
  "released es = concat (map (\<lambda>e. case e of Releases r \<Rightarrow> [r] | _ \<Rightarrow> []) es)"

definition registered :: "wsEvent list \<Rightarrow> sessionHandle list" where
  "registered es = concat (map (\<lambda>e. case e of Registers h \<Rightarrow> [h] | _ \<Rightarrow> []) es)"

definition unregistered :: "wsEvent list \<Rightarrow> sessionHandle list" where
  "unregistered es = concat (map (\<lambda>e. case e of Unregisters h \<Rightarrow> [h] | _ \<Rightarrow> []) es)"

definition answers :: "wsEvent list \<Rightarrow> nat" where
  "answers es = length (filter (\<lambda>e. case e of Responds r \<Rightarrow> True | SwitchingProtocols a b \<Rightarrow> True | _ \<Rightarrow> False) es)"

lemmas event_defs = opened_def closed_def reserved_def dials_done_def released_def registered_def
  unregistered_def answers_def

lemma event_append:
  "opened (es @ es') = opened es + opened es'" "closed (es @ es') = closed es + closed es'"
  "reserved (es @ es') = reserved es + reserved es'" "dials_done (es @ es') = dials_done es + dials_done es'"
  "released (es @ es') = released es @ released es'" "registered (es @ es') = registered es @ registered es'"
  "unregistered (es @ es') = unregistered es @ unregistered es'" "answers (es @ es') = answers es + answers es'"
  by (simp_all add: event_defs)

section \<open>What a phase owns\<close>

fun owned :: "wsPhase \<Rightarrow> conn multiset" where
  "owned (DialReturned rt r dialled) = (case dialled of None \<Rightarrow> {#} | Some c \<Rightarrow> {#c#})"
| "owned (Connected rt r telegram) = {#telegram#}"
| "owned (Hijacked rt r telegram client) = {#telegram, client#}"
| "owned (Registered rt r telegram client h) = {#telegram, client#}"
| "owned (Bridging r telegram client h) = {#telegram, client#}"
| "owned _ = {#}"

fun reservation_of :: "wsPhase \<Rightarrow> sessionReservation option" where
  "reservation_of (Reserved rt r) = Some r"
| "reservation_of (DialReturned rt r dialled) = Some r"
| "reservation_of (Connected rt r telegram) = Some r"
| "reservation_of (Hijacked rt r telegram client) = Some r"
| "reservation_of (Registered rt r telegram client h) = Some r"
| "reservation_of (Bridging r telegram client h) = Some r"
| "reservation_of (Leaving r h) = Some r"
| "reservation_of _ = None"

fun handle_of :: "wsPhase \<Rightarrow> sessionHandle list" where
  "handle_of (Registered rt r telegram client h) = (case h of None \<Rightarrow> [] | Some h \<Rightarrow> [h])"
| "handle_of (Bridging r telegram client h) = (case h of None \<Rightarrow> [] | Some h \<Rightarrow> [h])"
| "handle_of (Leaving r h) = (case h of None \<Rightarrow> [] | Some h \<Rightarrow> [h])"
| "handle_of _ = []"

text \<open>Steps still possible; the handler cannot run longer.\<close>

fun steps_left :: "wsPhase \<Rightarrow> nat" where
  "steps_left Start = 11"
| "steps_left (Checked rt) = 10"
| "steps_left (Routed rt) = 9"
| "steps_left (Reserved rt r) = 8"
| "steps_left (DialReturned rt r dialled) = 7"
| "steps_left (Connected rt r telegram) = 6"
| "steps_left (Hijacked rt r telegram client) = 5"
| "steps_left (Registered rt r telegram client h) = 4"
| "steps_left (Bridging r telegram client h) = 3"
| "steps_left (Leaving r h) = (case h of Some h \<Rightarrow> 2 | None \<Rightarrow> 1)"
| "steps_left Finished = 0"

text \<open>Phases before the dial returned hold a reservation whose dial is pending.\<close>

fun dial_pending :: "wsPhase \<Rightarrow> bool" where
  "dial_pending (Reserved rt r) = True"
| "dial_pending (DialReturned rt r dialled) = True"
| "dial_pending _ = False"

definition phase_ok :: "wsPhase \<Rightarrow> bool" where
  "phase_ok phase \<longleftrightarrow>
     (\<forall>r. reservation_of phase = Some r \<longrightarrow> \<not> sr_released r \<and> sr_dialDone r = (\<not> dial_pending phase))"

definition accounted :: "wsPhase \<Rightarrow> wsEvent list \<Rightarrow> bool" where
  "accounted phase es \<longleftrightarrow>
     phase_ok phase
     \<and> opened es = closed es + owned phase
     \<and> reserved es = length (released es) + (if reservation_of phase = None then 0 else 1)
     \<and> dials_done es = reserved es - (if dial_pending phase then 1 else 0)
     \<and> registered es = unregistered es @ handle_of phase
     \<and> (\<forall>r \<in> set (released es). sr_dialDone r \<and> \<not> sr_released r)"

section \<open>Every step accounts for what it takes\<close>

lemma reserve_new: "reserve l t = (l', Some r, status) \<Longrightarrow> \<not> sr_released r \<and> \<not> sr_dialDone r"
  by (auto simp: reserve_def split: if_splits)

lemma dialDone_some:
  assumes "upstreamDialDone l (Some r) = (l', r')"
  shows "\<exists>q. r' = Some q \<and> sr_dialDone q \<and> sr_released q = sr_released r"
  using assms by (auto simp: upstreamDialDone_def split: if_splits)

text \<open>What the races opened they closed; they do nothing else.\<close>

lemma race_events_accounts [simp]:
  "concat (map (\<lambda>e. case e of Opens c \<Rightarrow> [c] | _ \<Rightarrow> []) (race_events cs)) = cs"
  "concat (map (\<lambda>e. case e of Closes c \<Rightarrow> [c] | _ \<Rightarrow> []) (race_events cs)) = cs"
  "filter (\<lambda>e. case e of Reserves r \<Rightarrow> True | _ \<Rightarrow> False) (race_events cs) = []"
  "filter (\<lambda>e. e = DialDone) (race_events cs) = []"
  "concat (map (\<lambda>e. case e of Releases r \<Rightarrow> [r] | _ \<Rightarrow> []) (race_events cs)) = []"
  "concat (map (\<lambda>e. case e of Registers h \<Rightarrow> [h] | _ \<Rightarrow> []) (race_events cs)) = []"
  "concat (map (\<lambda>e. case e of Unregisters h \<Rightarrow> [h] | _ \<Rightarrow> []) (race_events cs)) = []"
  "filter (\<lambda>e. case e of Responds r \<Rightarrow> True | SwitchingProtocols a b \<Rightarrow> True | _ \<Rightarrow> False) (race_events cs) = []"
  "Bridges c t \<notin> set (race_events cs)" "Releases r \<notin> set (race_events cs)"
  by (induction cs) (simp_all add: race_events_def)

lemmas step_defs = ws_step_def route_step_def reserve_step_def dial_step_def dialDone_step_def hijack_step_def
  register_step_def switch_step_def leave_step_def close_both_def Let_def

lemma accounted_start: "accounted Start []"
  by (simp add: accounted_def phase_ok_def event_defs)

text \<open>What a step has to show: the change of each account.\<close>

definition balanced :: "wsPhase \<Rightarrow> wsEvent list \<Rightarrow> wsPhase \<Rightarrow> bool" where
  "balanced phase es phase' \<longleftrightarrow>
     opened es + owned phase = closed es + owned phase'
     \<and> reserved es + (if reservation_of phase = None then 0 else 1)
         = length (released es) + (if reservation_of phase' = None then 0 else 1)
     \<and> dials_done es + (if dial_pending phase' then 1 else 0) = reserved es + (if dial_pending phase then 1 else 0)
     \<and> handle_of phase @ registered es = unregistered es @ handle_of phase'
     \<and> (\<forall>r \<in> set (released es). sr_dialDone r \<and> \<not> sr_released r)"

lemma pending_reserved: "dial_pending phase \<Longrightarrow> reservation_of phase \<noteq> None"
  by (cases phase) auto

lemma accounted_next:
  assumes "accounted phase es" and "phase_ok phase'" and "balanced phase es' phase'"
  shows "accounted phase' (es @ es')"
proof -
  note a = assms(1) [unfolded accounted_def] and b = assms(3) [unfolded balanced_def]
  have "opened es + opened es' = closed es + (opened es' + owned phase)" using a by simp
  moreover have "registered es @ registered es' = unregistered es @ (handle_of phase @ registered es')" using a by simp
  moreover have "dials_done es + dials_done es' = reserved es + reserved es' - (if dial_pending phase' then 1 else 0)"
    using a b pending_reserved [of phase] pending_reserved [of phase'] by (auto split: if_splits)
  ultimately show ?thesis
    using a b assms(2) by (auto simp: accounted_def event_append)
qed

lemmas balance_simps = balanced_def event_defs phase_ok_def

lemma step_balanced:
  assumes "ws_step W x q token s f phase = (s', f', phase', es)" and "phase_ok phase" and "phase \<noteq> Finished"
  shows "phase_ok phase' \<and> balanced phase es phase'"
proof (cases phase)
  case Start
  then show ?thesis using assms(1) by (auto simp: step_defs balance_simps split: sum.splits if_splits)
next
  case (Checked rt)
  then show ?thesis using assms(1) by (auto simp: step_defs balance_simps split: prod.splits if_splits)
next
  case (Routed rt)
  then show ?thesis
    using assms(1) by (auto simp: step_defs balance_simps dest!: reserve_new split: prod.splits option.splits)
next
  case (Reserved rt r)
  then show ?thesis using assms(1,2) by (auto simp: step_defs balance_simps split: prod.splits sum.splits)
next
  case (DialReturned rt r dialled)
  obtain l r' where d: "upstreamDialDone (sv_sessions s) (Some r) = (l, Some r')" "sr_dialDone r'" "sr_released r' = sr_released r"
    using dialDone_some by (metis surj_pair)
  show ?thesis using assms(1,2) d by (cases dialled) (auto simp: DialReturned step_defs balance_simps)
next
  case (Connected rt r telegram)
  then show ?thesis using assms(1,2) by (cases "wx_hijack x") (auto simp: step_defs balance_simps)
next
  case (Hijacked rt r telegram client)
  obtain c h ok l where g: "registerSession (ce_go (we_control W)) (sv_control s) token q (wx_close x) (wx_startText x)
      (wx_startNow x) = (c, h, ok, l)" by (metis prod_cases4)
  show ?thesis using assms(1,2) g by (cases ok; cases h; cases l) (auto simp: Hijacked step_defs balance_simps)
next
  case (Registered rt r telegram client h)
  then show ?thesis using assms(1,2) by (cases "wx_flushed x") (auto simp: step_defs balance_simps)
next
  case (Bridging r telegram client h)
  then show ?thesis using assms(1,2) by (auto simp: step_defs balance_simps)
next
  case (Leaving r h)
  then show ?thesis using assms(1,2) by (cases h) (auto simp: step_defs balance_simps)
qed (use assms(3) in simp)

lemma run_accounted:
  assumes "ws_run W x q token ss phase es"
  shows "accounted phase es"
  using assms
proof induction
  case ws_run_start
  show ?case by (rule accounted_start)
next
  case (ws_run_step ss phase es s f s' f' phase' es')
  then show ?case using accounted_next step_balanced by (metis accounted_def)
qed

text \<open>The answers: at most one, and exactly one unless the hijacked connection was lost first.\<close>

lemma step_decreases:
  assumes "ws_step W x q token s file phase = (s', file', phase', es')" and "phase \<noteq> Finished"
  shows "steps_left phase' < steps_left phase"
  using assms by (cases phase)
    (auto simp: step_defs split: prod.splits option.splits sum.splits if_splits hijackOutcome.splits)

lemma run_length:
  assumes "ws_run W x q token ss phase es"
  shows "length ss + steps_left phase \<le> 11"
  using assms
proof induction
  case (ws_run_step ss phase es s f s' f' phase' es')
  then show ?case using step_decreases by fastforce
qed simp

fun answered :: "wsPhase \<Rightarrow> nat set" where
  "answered Finished = {0, 1}"
| "answered (Leaving r h) = {0, 1}"
| "answered (Bridging r telegram client h) = {1}"
| "answered _ = {0}"

lemma run_answers:
  assumes "ws_run W x q token ss phase es"
  shows "answers es \<in> answered phase"
  using assms
proof induction
  case ws_run_start
  show ?case by (simp add: answers_def)
next
  case (ws_run_step ss phase es s f s' f' phase' es')
  then show ?case
    by (cases phase) (auto simp: step_defs event_append answers_def
      split: prod.splits option.splits sum.splits if_splits hijackOutcome.splits)
qed

fun may_reserve :: "wsPhase \<Rightarrow> nat" where
  "may_reserve Start = 0"
| "may_reserve (Checked rt) = 0"
| "may_reserve (Routed rt) = 0"
| "may_reserve _ = 1"

lemma run_reserved:
  assumes "ws_run W x q token ss phase es"
  shows "reserved es \<le> may_reserve phase"
  using assms
proof induction
  case ws_run_start
  show ?case by (simp add: reserved_def)
next
  case (ws_run_step ss phase es s f s' f' phase' es')
  then show ?case
    by (cases phase) (auto simp: step_defs event_append reserved_def
      split: prod.splits option.splits sum.splits if_splits hijackOutcome.splits)
qed

text \<open>
  C9. The WebSocket handler leaks nothing. Whatever the server looks like at each of its steps, it ends
  after at most eleven of them, and at the end every connection it opened is closed, the session slot
  it reserved is released exactly once and after the dial was reported done, the session it registered
  is unregistered, and the client got at most one answer.
\<close>

theorem websocket_leaks_nothing:
  assumes "ws_run W x q token ss phase es"
  shows "length ss \<le> 11 \<and> (phase \<noteq> Finished \<longrightarrow> (\<forall>s f. \<exists>s' f' phase' es'.
      ws_step W x q token s f phase = (s', f', phase', es') \<and> ws_run W x q token (ss @ [s]) phase' (es @ es')))
    \<and> answers es \<le> 1
    \<and> (phase = Finished \<longrightarrow>
         opened es = closed es \<and> length (released es) = reserved es \<and> reserved es \<le> 1 \<and> dials_done es = reserved es
         \<and> (\<forall>r \<in> set (released es). sr_dialDone r \<and> \<not> sr_released r)
         \<and> registered es = unregistered es)"
proof (intro conjI impI allI)
  have a: "accounted phase es" using assms by (rule run_accounted)
  show "length ss \<le> 11" using run_length [OF assms] by simp
  show "answers es \<le> 1" using run_answers [OF assms] by (cases phase) auto
  show "\<exists>s' f' phase' es'. ws_step W x q token s f phase = (s', f', phase', es')
      \<and> ws_run W x q token (ss @ [s]) phase' (es @ es')" if "phase \<noteq> Finished" for s f
    using assms that by (metis prod_cases4 ws_run_step)
  show "opened es = closed es" "length (released es) = reserved es" "dials_done es = reserved es"
    "\<forall>r \<in> set (released es). sr_dialDone r \<and> \<not> sr_released r" "registered es = unregistered es" if "phase = Finished"
    using a that by (simp_all add: accounted_def)
  show "reserved es \<le> 1" if "phase = Finished"
    using run_reserved [OF assms] that by simp
qed

end
