(* ===== verification/Admission_Props.thy ===== *)
theory Admission_Props
  imports Ws_Props Upstream_Props Topology_Props Control_Runs
begin

text \<open>
  What must have happened before the WebSocket handler starts to relay: which checks passed, on which
  of the servers its steps met, and where the Telegram connection leads.
\<close>

section \<open>What each step of the handler establishes\<close>

definition admitted :: "wsEnv \<Rightarrow> request \<Rightarrow> Token \<Rightarrow> server \<Rightarrow> wsRoute \<Rightarrow> bool" where
  "admitted W q token s rt \<longleftrightarrow>
     requestedRoute (ce_go (we_control W)) q = Inr rt
     \<and> \<not> deviceBlocked (ce_go (we_control W)) (sv_control s) token (Some q)"

definition offered :: "wsEnv \<Rightarrow> server \<Rightarrow> wsRoute \<Rightarrow> string list" where
  "offered W s rt = addresses (ce_go (we_control W)) (sv_topology s) (wo_dc rt) (wo_test rt) (wo_media rt)"

definition dialled_by :: "wsEnv \<Rightarrow> wsRun \<Rightarrow> server \<Rightarrow> wsRoute \<Rightarrow> conn \<Rightarrow> string \<Rightarrow> bool" where
  "dialled_by W x s rt telegram address \<longleftrightarrow>
     (\<exists>p late. dialTelegramRoute (wx_waves x) (sv_upstreams s) (offered W s rt) (wx_dialNow x)
        = (p, Inr (telegram, address), late))"

definition enlisted :: "wsEnv \<Rightarrow> request \<Rightarrow> Token \<Rightarrow> server \<Rightarrow> bool" where
  "enlisted W q token s \<longleftrightarrow>
     (cp_enabled (sv_control s) \<longrightarrow>
        \<not> cp_shuttingDown (sv_control s) \<and> clientTokenActive (ce_go (we_control W)) (sv_control s) token
        \<and> \<not> deviceBlocked (ce_go (we_control W)) (sv_control s) token (Some q))"

lemmas admission_defs = admitted_def offered_def dialled_by_def enlisted_def

text \<open>A session is registered only where the rechecks under the lock pass.\<close>

lemma registered_enlisted:
  assumes "registerSession (ce_go (we_control W)) (sv_control s) token q k now at = (c, h, True, l)"
  shows "enlisted W q token s"
  using assms
  by (auto simp: registerSession_def enlisted_def refuseSession_def deviceBlocked_def Let_def split: if_splits prod.splits)

text \<open>The first seven servers of a run that relays are those of the steps below.\<close>

definition passed :: "wsEnv \<Rightarrow> wsRun \<Rightarrow> request \<Rightarrow> Token \<Rightarrow> server list \<Rightarrow> wsRoute \<Rightarrow> conn \<Rightarrow> bool" where
  "passed W x q token ss rt telegram \<longleftrightarrow>
     admitted W q token (ss ! 0) rt \<and> (\<exists>address. dialled_by W x (ss ! 3) rt telegram address)"

fun so_far :: "wsEnv \<Rightarrow> wsRun \<Rightarrow> request \<Rightarrow> Token \<Rightarrow> server list \<Rightarrow> wsPhase \<Rightarrow> bool" where
  "so_far W x q token ss Start \<longleftrightarrow> ss = []"
| "so_far W x q token ss (Checked rt) \<longleftrightarrow> length ss = 1 \<and> admitted W q token (ss ! 0) rt"
| "so_far W x q token ss (Routed rt) \<longleftrightarrow> length ss = 2 \<and> admitted W q token (ss ! 0) rt"
| "so_far W x q token ss (Reserved rt r) \<longleftrightarrow> length ss = 3 \<and> admitted W q token (ss ! 0) rt"
| "so_far W x q token ss (DialReturned rt r dialled) \<longleftrightarrow>
     length ss = 4 \<and> (\<forall>telegram. dialled = Some telegram \<longrightarrow> passed W x q token ss rt telegram)"
| "so_far W x q token ss (Connected rt r telegram) \<longleftrightarrow> length ss = 5 \<and> passed W x q token ss rt telegram"
| "so_far W x q token ss (Hijacked rt r telegram client) \<longleftrightarrow> length ss = 6 \<and> passed W x q token ss rt telegram"
| "so_far W x q token ss (Registered rt r telegram client h) \<longleftrightarrow>
     length ss = 7 \<and> passed W x q token ss rt telegram \<and> enlisted W q token (ss ! 6)"
| "so_far W x q token ss _ \<longleftrightarrow> True"

definition may_bridge :: "wsEnv \<Rightarrow> wsRun \<Rightarrow> request \<Rightarrow> Token \<Rightarrow> server list \<Rightarrow> wsEvent list \<Rightarrow> conn \<Rightarrow> bool" where
  "may_bridge W x q token ss es telegram \<longleftrightarrow>
     7 < length ss \<and> enlisted W q token (ss ! 6)
     \<and> (\<exists>rt. passed W x q token ss rt telegram
          \<and> SwitchingProtocols (websocketAccept (we_sha1 W) (rq_header q ''Sec-WebSocket-Key'')) (wo_subprotocol rt)
              \<in> set es)"

lemma may_bridge_more:
  "may_bridge W x q token ss es telegram \<Longrightarrow> may_bridge W x q token (ss @ [s]) (es @ es') telegram"
  by (fastforce simp: may_bridge_def passed_def nth_append)

text \<open>Only the switch to the new protocol starts the relay.\<close>

lemma bridging_step:
  assumes "ws_step W x q token s f phase = (s', f', phase', es)" and "Bridges client telegram \<in> set es"
  shows "\<exists>rt r h. phase = Registered rt r telegram client h
    \<and> SwitchingProtocols (websocketAccept (we_sha1 W) (rq_header q ''Sec-WebSocket-Key'')) (wo_subprotocol rt) \<in> set es"
  using assms by (cases phase)
    (auto simp: step_defs split: prod.splits option.splits sum.splits if_splits hijackOutcome.splits)

lemma so_far_step:
  assumes "ws_step W x q token s f phase = (s', f', phase', es)" and "so_far W x q token ss phase"
    and "phase \<noteq> Finished"
  shows "so_far W x q token (ss @ [s]) phase'"
proof (cases phase)
  case Start
  then show ?thesis using assms by (auto simp: step_defs admitted_def split: sum.splits if_splits)
next
  case (Checked rt)
  then show ?thesis using assms by (auto simp: step_defs nth_append split: prod.splits if_splits)
next
  case (Routed rt)
  then show ?thesis using assms by (auto simp: step_defs nth_append split: prod.splits option.splits)
next
  case (Reserved rt r)
  then show ?thesis
    using assms by (auto simp: step_defs nth_append passed_def dialled_by_def offered_def split: prod.splits sum.splits)
next
  case (DialReturned rt r dialled)
  then show ?thesis using assms by (auto simp: step_defs passed_def nth_append split: prod.splits option.splits)
next
  case (Connected rt r telegram)
  then show ?thesis
    using assms by (auto simp: step_defs passed_def nth_append split: prod.splits hijackOutcome.splits)
next
  case (Hijacked rt r telegram client)
  obtain c h ok l where g: "registerSession (ce_go (we_control W)) (sv_control s) token q (wx_close x) (wx_startText x)
      (wx_startNow x) = (c, h, ok, l)" by (metis prod_cases4)
  show ?thesis
    using assms g registered_enlisted [of W s token q "wx_close x" "wx_startText x" "wx_startNow x" c h l]
    by (cases ok) (auto simp: Hijacked step_defs passed_def nth_append)
next
  case (Registered rt r telegram client h)
  then show ?thesis using assms by (auto simp: step_defs split: if_splits)
next
  case (Bridging r telegram client h)
  then show ?thesis using assms by (auto simp: step_defs)
next
  case (Leaving r h)
  then show ?thesis using assms by (cases h) (auto simp: step_defs)
qed (use assms(3) in simp)

lemma run_admits:
  assumes "ws_run W x q token ss phase es"
  shows "so_far W x q token ss phase
    \<and> (\<forall>client telegram. Bridges client telegram \<in> set es \<longrightarrow> may_bridge W x q token ss es telegram)"
  using assms
proof induction
  case (ws_run_step ss phase es s f s' f' phase' es')
  have n: "so_far W x q token (ss @ [s]) phase'"
    using so_far_step ws_run_step by blast
  have "may_bridge W x q token (ss @ [s]) (es @ es') telegram" if e: "Bridges client telegram \<in> set (es @ es')"
    for client telegram
  proof (cases "Bridges client telegram \<in> set es")
    case True
    then show ?thesis using may_bridge_more ws_run_step by blast
  next
    case False
    then obtain rt r h where p: "phase = Registered rt r telegram client h"
      and a: "SwitchingProtocols (websocketAccept (we_sha1 W) (rq_header q ''Sec-WebSocket-Key'')) (wo_subprotocol rt)
        \<in> set es'"
      using bridging_step [OF ws_run_step(3), of client telegram] e by auto
    then show ?thesis using ws_run_step(4) by (auto simp: may_bridge_def passed_def nth_append)
  qed
  then show ?case using n by blast
qed simp

text \<open>A dial answers one of the addresses it was given.\<close>

lemma dialled_address:
  assumes "route_runs_ok (snd (ordered p as now)) 0 runs"
    and "dialTelegramRoute runs p as now = (p', Inr (telegram, address), late)"
  shows "address \<in> set as"
proof -
  have "dial_waves runs 0 (fst (ordered p as now)) (snd (ordered p as now)) [] = (p', Inr (telegram, address), late)"
    using assms(2) by (auto simp: dialTelegramRoute_def split: prod.splits if_splits)
  then show ?thesis
    using dial_waves_accounts(2) [OF assms(1)] ordered_subset [of p as now] by blast
qed

section \<open>The theorem\<close>

text \<open>
  Claim C2. Nobody is connected to Telegram unadmitted. When a run of the WebSocket handler starts to
  relay between a client and a Telegram connection, then, whatever changed between its steps: the request
  was a complete upgrade for some route and its device was not blocked when the run began; the Telegram
  connection was dialled to an address the topology offered for that route at that moment, which is a
  public IP literal, whether the routes come from the configuration or from a signed bundle; the client
  was answered with the accept value of its key and the subprotocol it asked for; and if owner control is
  on (owner tokens are configured), then in the step that registered the session the server was not
  shutting down, the token was still active and the device still not blocked. With owner control off
  the session is not registered and nothing is checked again.
\<close>

theorem bridge_admitted:
  assumes "ws_run W x q token ss phase es" and "Bridges client telegram \<in> set es"
    and "te_go (we_topology W) = ce_go (we_control W)"
    and "Validate (ce_go (we_control W)) c = (c', None)"
    and "reachable (topo_init (we_topology W) (cf_Telegram c')) (topo_step windows (we_topology W))
           (sv_topology (ss ! 3), disk, now)"
    and "\<forall>rt. requestedRoute (ce_go (we_control W)) q = Inr rt \<longrightarrow> route_runs_ok (snd (ordered (sv_upstreams (ss ! 3))
           (addresses (ce_go (we_control W)) (sv_topology (ss ! 3)) (wo_dc rt) (wo_test rt) (wo_media rt)) (wx_dialNow x)))
           0 (wx_waves x)"
  shows "\<exists>rt address p late.
      requestedRoute (ce_go (we_control W)) q = Inr rt
      \<and> \<not> deviceBlocked (ce_go (we_control W)) (sv_control (ss ! 0)) token (Some q)
      \<and> dialTelegramRoute (wx_waves x) (sv_upstreams (ss ! 3))
           (addresses (ce_go (we_control W)) (sv_topology (ss ! 3)) (wo_dc rt) (wo_test rt) (wo_media rt)) (wx_dialNow x)
         = (p, Inr (telegram, address), late)
      \<and> address \<in> set (addresses (ce_go (we_control W)) (sv_topology (ss ! 3)) (wo_dc rt) (wo_test rt) (wo_media rt))
      \<and> validateTelegramAddress address = None
      \<and> 7 < length ss
      \<and> (cp_enabled (sv_control (ss ! 6)) \<longrightarrow>
           \<not> cp_shuttingDown (sv_control (ss ! 6))
           \<and> clientTokenActive (ce_go (we_control W)) (sv_control (ss ! 6)) token
           \<and> \<not> deviceBlocked (ce_go (we_control W)) (sv_control (ss ! 6)) token (Some q))
      \<and> SwitchingProtocols (websocketAccept (we_sha1 W) (rq_header q ''Sec-WebSocket-Key'')) (wo_subprotocol rt)
          \<in> set es"
proof -
  have m: "may_bridge W x q token ss es telegram" using run_admits [OF assms(1)] assms(2) by blast
  then obtain rt address p late where a: "admitted W q token (ss ! 0) rt"
    and d: "dialTelegramRoute (wx_waves x) (sv_upstreams (ss ! 3)) (offered W (ss ! 3) rt) (wx_dialNow x)
      = (p, Inr (telegram, address), late)"
    and sw: "SwitchingProtocols (websocketAccept (we_sha1 W) (rq_header q ''Sec-WebSocket-Key'')) (wo_subprotocol rt)
      \<in> set es"
    by (auto simp: may_bridge_def passed_def dialled_by_def)
  have o: "address \<in> set (offered W (ss ! 3) rt)"
    by (rule dialled_address [OF _ d]) (use assms(6) a in \<open>simp add: offered_def admitted_def\<close>)
  have "validateTelegramAddress address = None"
    by (rule offered_public [of "we_topology W"]) (use assms(3,4,5) o in \<open>simp_all add: offered_def\<close>)
  then show ?thesis
    using a d o sw m by (auto simp: admission_defs may_bridge_def)
qed

end
