(* ===== verification/Ws_Bridge.thy ===== *)
theory Ws_Bridge
  imports WebSocket_Frames Server_Http
begin

text \<open>
  \<open>bridgeWebSocket\<close> of \<open>internal/relay/websocket.go\<close>: its four goroutines as steps on the variables
  they share. A step is one turn of a loop; the writer's lock makes each frame one step. Which step
  comes next, what a read answers and how a write ends are arguments. The atomics of the heartbeat
  are read and written in one step of the client loop: a timer between the two would close anyway
  or find the acknowledgement.
\<close>

section \<open>Settings and state\<close>

record bridgeSettings =
  bs_idleTimeout :: gotime
  bs_pingInterval :: gotime
  bs_pongTimeout :: gotime
  bs_writeTimeout :: gotime
  bs_maxMessageBytes :: int

definition server_bridgeSettings :: "server \<Rightarrow> bridgeSettings" where
  "server_bridgeSettings s =
     \<lparr>bs_idleTimeout = tg_IdleTimeoutSec (cf_Telegram (sv_cfg s)) * second,
      bs_pingInterval = ws_PingIntervalSec (cf_WebSocket (sv_cfg s)) * second,
      bs_pongTimeout = ws_PongTimeoutSec (cf_WebSocket (sv_cfg s)) * second,
      bs_writeTimeout = ws_WriteTimeoutSec (cf_WebSocket (sv_cfg s)) * second,
      bs_maxMessageBytes = ws_MaxMessageBytes (cf_WebSocket (sv_cfg s))\<rparr>"

text \<open>
  \<open>br_done\<close> is the once of \<open>closeBoth\<close>. The bytes that reached each peer are kept with the number of
  write calls made; a goroutine that has returned is marked as not running.
\<close>

record bridge =
  br_frames :: clientFrameReader
  br_done :: bool
  br_expectedPong :: "64 word"
  br_acknowledgedPong :: "64 word"
  br_lastActivity :: gotime
  br_sequence :: "64 word"
  br_waiting :: bool
  br_toClient :: "byte list"
  br_clientCalls :: nat
  br_toTelegram :: "byte list"
  br_telegramCalls :: nat
  br_relaying :: bool
  br_reading :: bool
  br_beating :: bool
  br_watching :: bool

definition put_uint64 :: "64 word \<Rightarrow> byte list" where
  "put_uint64 v = map (\<lambda>i. ucast (drop_bit (8 * i) v)) (rev [0..<8])"

definition be_uint64 :: "byte list \<Rightarrow> 64 word" where
  "be_uint64 b = foldl (\<lambda>n x. push_bit 8 n OR ucast x) 0 b"

definition startBridge :: "bridgeSettings \<Rightarrow> byte list \<Rightarrow> gotime \<Rightarrow> bridge" where
  "startBridge settings input now =
     \<lparr>br_frames = \<lparr>fr_reader = input, fr_maxMessageBytes = bs_maxMessageBytes settings,
                    fr_fragmentedOpcode = 0, fr_fragmented = []\<rparr>,
      br_done = False, br_expectedPong = 0, br_acknowledgedPong = 0, br_lastActivity = now,
      br_sequence = 0, br_waiting = False, br_toClient = [], br_clientCalls = 0, br_toTelegram = [],
      br_telegramCalls = 0, br_relaying = True, br_reading = True,
      br_beating = (bs_pingInterval settings > 0 \<and> bs_pongTimeout settings > 0),
      br_watching = (bs_idleTimeout settings > 0)\<rparr>"

text \<open>How the two connections answer writes: by the number of the call and the bytes offered.\<close>

record bridgeWrites =
  bw_client :: "nat \<Rightarrow> byte list \<Rightarrow> int \<times> bool"
  bw_telegram :: "nat \<Rightarrow> byte list \<Rightarrow> int \<times> bool"

section \<open>Writing\<close>

definition closeBoth :: "bridge \<Rightarrow> bridge" where
  "closeBoth b = b\<lparr>br_done := True\<rparr>"

definition sendFrame :: "bridgeWrites \<Rightarrow> byte \<Rightarrow> byte list \<Rightarrow> bridge \<Rightarrow> bridge \<times> bool" where
  "sendFrame io opcode payload b =
     (case writeFrame (bw_client io) (br_clientCalls b) (br_toClient b) opcode payload of
        (sent, k, res) \<Rightarrow> (b\<lparr>br_toClient := sent, br_clientCalls := k\<rparr>, res = WriteOk))"

definition sendClose :: "bridgeWrites \<Rightarrow> 16 word \<Rightarrow> string \<Rightarrow> bridge \<Rightarrow> bridge" where
  "sendClose io status reason b = fst (sendFrame io opClose (close_payload status reason) b)"

definition sendTelegram :: "bridgeWrites \<Rightarrow> byte list \<Rightarrow> bridge \<Rightarrow> bridge \<times> bool" where
  "sendTelegram io payload b =
     (case writeAll (bw_telegram io) (br_telegramCalls b) (br_toTelegram b) payload of
        (sent, k, res) \<Rightarrow> (b\<lparr>br_toTelegram := sent, br_telegramCalls := k\<rparr>, res = WriteOk))"

section \<open>The goroutines\<close>

text \<open>A read of the telegram connection: the bytes, and whether it ended (\<open>True\<close>) or failed.\<close>

definition relay_turn :: "bridgeWrites \<Rightarrow> gotime \<Rightarrow> byte list \<Rightarrow> bool option \<Rightarrow> bridge \<Rightarrow> bridge" where
  "relay_turn io now data err b =
     (if \<not> br_relaying b then b
      else
        (let (b, sent) = (if data \<noteq> [] then sendFrame io opBinary data (b\<lparr>br_lastActivity := now\<rparr>) else (b, True))
         in if \<not> sent then closeBoth (b\<lparr>br_relaying := False\<rparr>)
            else
              (case err of
                 None \<Rightarrow> b
               | Some eof \<Rightarrow>
                   (let b = (if eof then sendClose io 1000 ''telegram closed'' b
                             else sendClose io 1011 ''telegram read failed'' b)
                    in closeBoth (b\<lparr>br_relaying := False\<rparr>)))))"

definition stopReading :: "bridge \<Rightarrow> bridge" where
  "stopReading b = closeBoth (b\<lparr>br_reading := False\<rparr>)"

definition pong_turn :: "byte list \<Rightarrow> bridge \<Rightarrow> bridge" where
  "pong_turn payload b =
     (if length payload = 8 then
        (let sequence = be_uint64 payload
         in if sequence \<noteq> 0 \<and> br_expectedPong b = sequence
            then b\<lparr>br_acknowledgedPong := sequence, br_expectedPong := 0\<rparr> else b)
      else b)"

definition event_turn :: "bridgeWrites \<Rightarrow> gotime \<Rightarrow> byte \<Rightarrow> byte list \<Rightarrow> bridge \<Rightarrow> bridge" where
  "event_turn io now opcode payload b =
     (if opcode = opBinary then
        (let (b, sent) = sendTelegram io payload (b\<lparr>br_lastActivity := now\<rparr>)
         in if sent then b else stopReading (sendClose io 1011 ''telegram write failed'' b))
      else if opcode = opClose then
        (case validateClosePayload payload of
           Some e \<Rightarrow>
             (let (status, reason) = closeForReadError e in stopReading (sendClose io status reason b))
         | None \<Rightarrow> stopReading (fst (sendFrame io opClose payload b)))
      else if opcode = opPing then
        (let (b, sent) = sendFrame io opPong payload b in if sent then b else stopReading b)
      else if opcode = opPong then pong_turn payload b
      else stopReading (sendClose io 1002 ''unsupported opcode'' b))"

definition client_turn :: "bridgeWrites \<Rightarrow> gotime \<Rightarrow> bridge \<Rightarrow> bridge" where
  "client_turn io now b =
     (if \<not> br_reading b then b
      else
        (let (frames, res) = nextEvent (br_frames b); b = b\<lparr>br_frames := frames\<rparr>
         in case res of
              Inl e \<Rightarrow>
                (let (status, reason) = closeForReadError e in stopReading (sendClose io status reason b))
            | Inr (opcode, payload) \<Rightarrow> event_turn io now opcode payload b))"

text \<open>The heartbeat: a tick of its ticker, and the timer that waits for the pong.\<close>

definition clear_expected :: "bridge \<Rightarrow> bridge" where
  "clear_expected b =
     (if br_expectedPong b = br_sequence b then b\<lparr>br_expectedPong := 0\<rparr> else b)"

definition tick_turn :: "bridgeWrites \<Rightarrow> bridge \<Rightarrow> bridge" where
  "tick_turn io b =
     (if \<not> br_beating b \<or> br_waiting b then b
      else
        (let sequence = br_sequence b + 1;
             (b, sent) = sendFrame io opPing (put_uint64 sequence)
                           (b\<lparr>br_sequence := sequence, br_expectedPong := sequence\<rparr>)
         in if sent then b\<lparr>br_waiting := True\<rparr>
            else closeBoth ((clear_expected b)\<lparr>br_beating := False\<rparr>)))"

definition timer_turn :: "bridge \<Rightarrow> bridge" where
  "timer_turn b =
     (if \<not> br_beating b \<or> \<not> br_waiting b then b
      else if br_acknowledgedPong b \<noteq> br_sequence b
      then closeBoth ((clear_expected b)\<lparr>br_beating := False, br_waiting := False\<rparr>)
      else b\<lparr>br_waiting := False\<rparr>)"

definition watch_interval :: "gotime \<Rightarrow> gotime" where
  "watch_interval timeout =
     (let interval = timeout div 4;
          interval = (if interval < 100 * (second div 1000) then 100 * (second div 1000) else interval)
      in if interval > 5 * second then 5 * second else interval)"

definition watch_turn :: "bridgeSettings \<Rightarrow> gotime \<Rightarrow> bridge \<Rightarrow> bridge" where
  "watch_turn settings now b =
     (if \<not> br_watching b then b
      else if now - br_lastActivity b \<ge> bs_idleTimeout settings
      then closeBoth (b\<lparr>br_watching := False\<rparr>) else b)"

text \<open>The heartbeat and the watchdog see \<open>done\<close> and return.\<close>

definition done_turn :: "bridge \<Rightarrow> bridge" where
  "done_turn b =
     (if br_done b then b\<lparr>br_beating := False, br_waiting := False, br_watching := False\<rparr> else b)"

datatype bridgeTurn =
    TelegramRead gotime "byte list" "bool option"
  | ClientEvent gotime
  | Tick
  | PongTimer
  | WatchTick gotime
  | SeeDone

fun bridge_turn :: "bridgeSettings \<Rightarrow> bridgeWrites \<Rightarrow> bridge \<Rightarrow> bridgeTurn \<Rightarrow> bridge" where
  "bridge_turn settings io b (TelegramRead now data err) = relay_turn io now data err b"
| "bridge_turn settings io b (ClientEvent now) = client_turn io now b"
| "bridge_turn settings io b Tick = tick_turn io b"
| "bridge_turn settings io b PongTimer = timer_turn b"
| "bridge_turn settings io b (WatchTick now) = watch_turn settings now b"
| "bridge_turn settings io b SeeDone = done_turn b"

definition bridgeWebSocket ::
  "bridgeSettings \<Rightarrow> bridgeWrites \<Rightarrow> byte list \<Rightarrow> gotime \<Rightarrow> bridgeTurn list \<Rightarrow> bridge" where
  "bridgeWebSocket settings io input now turns =
     foldl (bridge_turn settings io) (startBridge settings input now) turns"

end
