(* ===== verification/Bridge_Props.thy ===== *)
theory Bridge_Props
  imports Ws_Bridge Frames_Props
begin

text \<open>
  Properties of the bridge: what it relays in each direction, and when the heartbeat and the watchdog
  close it.
\<close>

lemma opcodes_not_binary [simp]: "opPing \<noteq> opBinary" "opClose \<noteq> opBinary" "opPong \<noteq> opBinary"
  by (simp_all add: op_defs)

section \<open>Writes that succeed\<close>

definition accepting :: "(nat \<Rightarrow> byte list \<Rightarrow> int \<times> bool) \<Rightarrow> bool" where
  "accepting answer \<longleftrightarrow>
     (\<forall>k p. p \<noteq> [] \<longrightarrow> \<not> snd (answer k p) \<and> 0 < fst (answer k p) \<and> fst (answer k p) \<le> int (length p))"

lemma writeAll_accepting:
  assumes "accepting answer"
  shows "\<exists>k'. writeAll answer k sent payload = (sent @ payload, k', WriteOk)"
proof (induction "length payload" arbitrary: k sent payload rule: less_induct)
  case less
  show ?case
  proof (cases "payload = []")
    case True
    then show ?thesis by (simp add: writeAll.simps)
  next
    case False
    obtain w f where w: "answer k payload = (w, f)" by force
    then have "\<not> f" "0 < w" "w \<le> int (length payload)"
      using assms False unfolding accepting_def by (metis fst_conv snd_conv)+
    then have n: "answer k payload = (int (nat w), False)" "0 < nat w" "nat w \<le> length payload" using w by simp_all
    obtain k' where "writeAll answer (Suc k) (sent @ take (nat w) payload) (drop (nat w) payload)
        = ((sent @ take (nat w) payload) @ drop (nat w) payload, k', WriteOk)"
      using less [of "drop (nat w) payload" "Suc k" "sent @ take (nat w) payload"] n(2) False by auto
    then show ?thesis using False n by (subst writeAll.simps) (simp add: Let_def)
  qed
qed

definition server_frame :: "byte \<Rightarrow> byte list \<Rightarrow> byte list" where
  "server_frame opcode payload = frame_header opcode (length payload) @ payload"

lemma sendFrame_accepting:
  assumes "accepting (bw_client io)"
  shows "\<exists>k. sendFrame io opcode payload b =
    (b\<lparr>br_toClient := br_toClient b @ server_frame opcode payload, br_clientCalls := k\<rparr>, True)"
proof -
  obtain k1 where k1: "writeAll (bw_client io) (br_clientCalls b) (br_toClient b) (frame_header opcode (length payload))
      = (br_toClient b @ frame_header opcode (length payload), k1, WriteOk)"
    using writeAll_accepting [OF assms] by blast
  obtain k2 where "writeAll (bw_client io) k1 (br_toClient b @ frame_header opcode (length payload)) payload
      = ((br_toClient b @ frame_header opcode (length payload)) @ payload, k2, WriteOk)"
    using writeAll_accepting [OF assms] by blast
  then show ?thesis using k1 by (intro exI [of _ k2]) (simp add: sendFrame_def writeFrame_def server_frame_def)
qed

section \<open>The trace of a run\<close>

text \<open>The events the client loop gets, and the bytes the relay loop reads, along a run.\<close>

definition event_at :: "bridge \<Rightarrow> bridgeTurn \<Rightarrow> (byte \<times> byte list) list" where
  "event_at b t =
     (case t of
        ClientEvent now \<Rightarrow>
          if br_reading b then (case snd (nextEvent (br_frames b)) of Inr e \<Rightarrow> [e] | Inl e \<Rightarrow> []) else []
      | _ \<Rightarrow> [])"

definition data_at :: "bridge \<Rightarrow> bridgeTurn \<Rightarrow> byte list" where
  "data_at b t = (case t of TelegramRead now data err \<Rightarrow> if br_relaying b then data else [] | _ \<Rightarrow> [])"

fun events_read :: "bridgeSettings \<Rightarrow> bridgeWrites \<Rightarrow> bridge \<Rightarrow> bridgeTurn list \<Rightarrow> (byte \<times> byte list) list" where
  "events_read settings io b [] = []"
| "events_read settings io b (t # ts) = event_at b t @ events_read settings io (bridge_turn settings io b t) ts"

fun data_read :: "bridgeSettings \<Rightarrow> bridgeWrites \<Rightarrow> bridge \<Rightarrow> bridgeTurn list \<Rightarrow> byte list" where
  "data_read settings io b [] = []"
| "data_read settings io b (t # ts) = data_at b t @ data_read settings io (bridge_turn settings io b t) ts"

definition binary_bytes :: "(byte \<times> byte list) list \<Rightarrow> byte list" where
  "binary_bytes es = concat (map snd (filter (\<lambda>e. fst e = opBinary) es))"

lemma binary_bytes_simps [simp]:
  "binary_bytes [] = []" "binary_bytes (es @ es') = binary_bytes es @ binary_bytes es'"
  "binary_bytes (e # es) = (if fst e = opBinary then snd e @ binary_bytes es else binary_bytes es)"
  by (simp_all add: binary_bytes_def)

definition wire :: "(byte \<times> byte list) list \<Rightarrow> byte list" where
  "wire fs = concat (map (\<lambda>(opcode, payload). server_frame opcode payload) fs)"

lemma wire_simps [simp]: "wire [] = []" "wire (fs @ fs') = wire fs @ wire fs'" "wire [(opc, p)] = server_frame opc p"
  by (simp_all add: wire_def)

section \<open>The telegram side\<close>

lemma sendFrame_telegram [simp]:
  "br_toTelegram (fst (sendFrame io opc p b)) = br_toTelegram b" "br_reading (fst (sendFrame io opc p b)) = br_reading b"
  by (simp_all add: sendFrame_def split: prod.splits)

lemma other_telegram [simp]:
  "br_toTelegram (sendClose io status reason b) = br_toTelegram b"
  "br_reading (sendClose io status reason b) = br_reading b"
  "br_toTelegram (closeBoth b) = br_toTelegram b" "br_reading (closeBoth b) = br_reading b"
  "br_toTelegram (stopReading b) = br_toTelegram b" "\<not> br_reading (stopReading b)"
  "br_toTelegram (pong_turn p b) = br_toTelegram b" "br_reading (pong_turn p b) = br_reading b"
  "br_toTelegram (clear_expected b) = br_toTelegram b" "br_reading (clear_expected b) = br_reading b"
  "br_toTelegram (watch_turn settings now b) = br_toTelegram b" "br_reading (watch_turn settings now b) = br_reading b"
  "br_toTelegram (timer_turn b) = br_toTelegram b" "br_reading (timer_turn b) = br_reading b"
  "br_toTelegram (done_turn b) = br_toTelegram b" "br_reading (done_turn b) = br_reading b"
  by (simp_all add: sendClose_def closeBoth_def stopReading_def pong_turn_def clear_expected_def watch_turn_def
      timer_turn_def done_turn_def Let_def)

lemma relay_telegram:
  "br_toTelegram (relay_turn io now data err b) = br_toTelegram b \<and> br_reading (relay_turn io now data err b) = br_reading b"
proof -
  obtain b1 ok where b1: "sendFrame io opBinary data (b\<lparr>br_lastActivity := now\<rparr>) = (b1, ok)" by force
  then have "br_toTelegram b1 = br_toTelegram b" "br_reading b1 = br_reading b"
    using sendFrame_telegram [of io opBinary data "b\<lparr>br_lastActivity := now\<rparr>"] by simp_all
  then show ?thesis using b1 by (simp add: relay_turn_def Let_def split: option.splits)
qed

lemma tick_telegram:
  "br_toTelegram (tick_turn io b) = br_toTelegram b \<and> br_reading (tick_turn io b) = br_reading b"
proof -
  let ?b = "b\<lparr>br_sequence := br_sequence b + 1, br_expectedPong := br_sequence b + 1\<rparr>"
  obtain b1 ok where b1: "sendFrame io opPing (put_uint64 (br_sequence b + 1)) ?b = (b1, ok)" by force
  then have "br_toTelegram b1 = br_toTelegram b" "br_reading b1 = br_reading b"
    using sendFrame_telegram [of io opPing "put_uint64 (br_sequence b + 1)" ?b] by simp_all
  then show ?thesis using b1 by (simp add: tick_turn_def Let_def)
qed

lemma client_telegram:
  assumes "writer_ok (bw_telegram io)" and "br_reading b"
  shows "(\<exists>rest. br_toTelegram b @ binary_bytes (event_at b (ClientEvent now)) = br_toTelegram (client_turn io now b) @ rest
      \<and> (br_reading (client_turn io now b) \<longrightarrow> rest = []))"
proof -
  obtain r' res where n: "nextEvent (br_frames b) = (r', res)" by force
  let ?b = "b\<lparr>br_frames := r'\<rparr>"
  show ?thesis
  proof (cases res)
    case (Inl e)
    then show ?thesis using n assms(2) by (simp add: client_turn_def event_at_def split: prod.splits)
  next
    case (Inr e)
    obtain opc p where e: "e = (opc, p)" by force
    show ?thesis
    proof (cases "opc = opBinary")
      case True
      obtain s k w where w: "writeAll (bw_telegram io) (br_telegramCalls b) (br_toTelegram b) p = (s, k, w)"
        by (metis prod_cases3)
      obtain j where j: "s = br_toTelegram b @ take j p" "w = WriteOk \<longrightarrow> j = length p"
        using writeAll_sent [OF assms(1) w] by blast
      have "br_toTelegram b @ p = s @ drop j p" using j(1) by simp
      then show ?thesis
        using n Inr e True w j(2) assms(2)
        by (cases "w = WriteOk") (auto simp: client_turn_def event_at_def event_turn_def sendTelegram_def Let_def)
    next
      case False
      obtain b1 ok where b1: "sendFrame io opPong p ?b = (b1, ok)" by force
      then have "br_toTelegram b1 = br_toTelegram b" "br_reading b1 = br_reading b"
        using sendFrame_telegram [of io opPong p ?b] by simp_all
      then show ?thesis
        using n Inr e False b1 assms(2)
        by (auto simp: client_turn_def event_at_def event_turn_def Let_def split: option.splits prod.splits)
    qed
  qed
qed

lemma telegram_step:
  assumes "writer_ok (bw_telegram io)"
  shows "\<exists>rest. br_toTelegram b @ binary_bytes (event_at b t) = br_toTelegram (bridge_turn settings io b t) @ rest
    \<and> (br_reading b \<longrightarrow> br_reading (bridge_turn settings io b t) \<longrightarrow> rest = [])
    \<and> (\<not> br_reading b \<longrightarrow> \<not> br_reading (bridge_turn settings io b t) \<and> event_at b t = [] \<and> rest = [])"
proof (cases t)
  case (ClientEvent now)
  then show ?thesis
    using client_telegram [OF assms, of b now] by (cases "br_reading b") (auto simp: client_turn_def event_at_def)
qed (simp_all add: event_at_def relay_telegram tick_telegram)

lemma telegram_run:
  assumes "writer_ok (bw_telegram io)"
  shows "\<exists>rest. br_toTelegram b @ binary_bytes (events_read settings io b ts)
      = br_toTelegram (foldl (bridge_turn settings io) b ts) @ rest
    \<and> (br_reading (foldl (bridge_turn settings io) b ts) \<longrightarrow> rest = [])
    \<and> (\<not> br_reading b \<longrightarrow> \<not> br_reading (foldl (bridge_turn settings io) b ts) \<and> events_read settings io b ts = [] \<and> rest = [])"
proof (induction ts arbitrary: b)
  case (Cons t ts)
  let ?b = "bridge_turn settings io b t"
  obtain r1 where r1: "br_toTelegram b @ binary_bytes (event_at b t) = br_toTelegram ?b @ r1"
    "br_reading b \<longrightarrow> br_reading ?b \<longrightarrow> r1 = []" "\<not> br_reading b \<longrightarrow> \<not> br_reading ?b \<and> event_at b t = [] \<and> r1 = []"
    using telegram_step [OF assms] by blast
  obtain r2 where r2: "br_toTelegram ?b @ binary_bytes (events_read settings io ?b ts)
      = br_toTelegram (foldl (bridge_turn settings io) ?b ts) @ r2"
    "br_reading (foldl (bridge_turn settings io) ?b ts) \<longrightarrow> r2 = []"
    "\<not> br_reading ?b \<longrightarrow> \<not> br_reading (foldl (bridge_turn settings io) ?b ts) \<and> events_read settings io ?b ts = [] \<and> r2 = []"
    using Cons.IH by blast
  show ?case
  proof (cases "br_reading ?b")
    case True
    then have "r1 = []" using r1(2,3) by blast
    then have "br_toTelegram b @ binary_bytes (events_read settings io b (t # ts))
        = br_toTelegram (foldl (bridge_turn settings io) b (t # ts)) @ r2"
      using r1(1) r2(1) by (metis append_assoc append_Nil2 binary_bytes_simps(2) events_read.simps(2) foldl_Cons)
    then show ?thesis using r2(2) r1(3) True by auto
  next
    case False
    then show ?thesis using r1 r2 by auto
  qed
qed simp

section \<open>The client side\<close>

text \<open>A turn appends whole frames; those of data carry what the turn read from telegram.\<close>

definition appends :: "bridge \<Rightarrow> byte list \<Rightarrow> bridge \<Rightarrow> bool" where
  "appends b data b' \<longleftrightarrow>
     (\<exists>fs. br_toClient b' = br_toClient b @ wire fs \<and> binary_bytes fs = data
        \<and> fst ` set fs \<subseteq> {opBinary, opClose, opPing, opPong})"

lemma appends_same: "br_toClient b' = br_toClient b \<Longrightarrow> appends b [] b'"
  by (auto simp: appends_def intro: exI [of _ "[]"])

lemma appends_trans: "appends b d b' \<Longrightarrow> appends b' d' b'' \<Longrightarrow> appends b (d @ d') b''"
proof -
  assume "appends b d b'" and "appends b' d' b''"
  then obtain fs fs' where "br_toClient b' = br_toClient b @ wire fs" "binary_bytes fs = d"
    "fst ` set fs \<subseteq> {opBinary, opClose, opPing, opPong}" "br_toClient b'' = br_toClient b' @ wire fs'"
    "binary_bytes fs' = d'" "fst ` set fs' \<subseteq> {opBinary, opClose, opPing, opPong}"
    unfolding appends_def by blast
  then show ?thesis unfolding appends_def by (intro exI [of _ "fs @ fs'"]) auto
qed

lemma appends_cong: "appends b d b' \<Longrightarrow> br_toClient b = br_toClient c \<Longrightarrow> br_toClient c' = br_toClient b' \<Longrightarrow> appends c d c'"
  by (simp add: appends_def)

lemma sendFrame_appends:
  assumes "accepting (bw_client io)" and "opc \<in> {opBinary, opClose, opPing, opPong}"
    and "sendFrame io opc p b = (b', ok)"
  shows "ok \<and> appends b (if opc = opBinary then p else []) b'"
proof -
  obtain k where "sendFrame io opc p b = (b\<lparr>br_toClient := br_toClient b @ server_frame opc p, br_clientCalls := k\<rparr>, True)"
    using sendFrame_accepting [OF assms(1)] by blast
  then show ?thesis
    using assms(2,3) unfolding appends_def by (auto intro!: exI [of _ "[(opc, p)]"])
qed

lemma sendClose_appends:
  assumes "accepting (bw_client io)"
  shows "appends b [] (sendClose io status reason b)"
  using sendFrame_appends [OF assms, of opClose "close_payload status reason" b]
  by (cases "sendFrame io opClose (close_payload status reason) b") (simp add: sendClose_def)

lemma other_client [simp]:
  "br_toClient (closeBoth b) = br_toClient b" "br_toClient (stopReading b) = br_toClient b"
  "br_toClient (pong_turn p b) = br_toClient b" "br_toClient (clear_expected b) = br_toClient b"
  "br_toClient (watch_turn settings now b) = br_toClient b" "br_toClient (timer_turn b) = br_toClient b"
  "br_toClient (done_turn b) = br_toClient b" "br_toClient (fst (sendTelegram io p b)) = br_toClient b"
  by (simp_all add: closeBoth_def stopReading_def pong_turn_def clear_expected_def watch_turn_def
      timer_turn_def done_turn_def sendTelegram_def Let_def split: prod.splits)

lemma relay_appends:
  assumes "accepting (bw_client io)"
  shows "appends b (data_at b (TelegramRead now data err)) (relay_turn io now data err b)"
proof (cases "br_relaying b")
  case True
  obtain b1 ok where b1: "(if data \<noteq> [] then sendFrame io opBinary data (b\<lparr>br_lastActivity := now\<rparr>) else (b, True)) = (b1, ok)"
    by force
  have a: "ok \<and> appends b data b1"
  proof (cases "data = []")
    case False
    then show ?thesis
      using b1 sendFrame_appends [OF assms, of opBinary data "b\<lparr>br_lastActivity := now\<rparr>" b1 ok]
      by (auto elim: appends_cong)
  qed (use b1 appends_same in auto)
  have c: "appends b1 [] (closeBoth ((sendClose io status reason b1)\<lparr>br_relaying := False\<rparr>))" for status reason
    by (rule appends_cong [OF sendClose_appends [OF assms]]) simp_all
  show ?thesis
    using a appends_trans [of b data b1 "[]"] c True b1
    by (cases err) (simp_all add: relay_turn_def data_at_def)
next
  case False
  then show ?thesis by (simp add: relay_turn_def data_at_def appends_same)
qed

lemma event_appends:
  assumes "accepting (bw_client io)"
  shows "appends b [] (event_turn io now opc p b)"
proof -
  have c: "appends b' [] (stopReading (sendClose io status reason b'))" for b' status reason
    by (rule appends_cong [OF sendClose_appends [OF assms]]) simp_all
  obtain b1 ok1 where b1: "sendTelegram io p (b\<lparr>br_lastActivity := now\<rparr>) = (b1, ok1)" by force
  then have t: "br_toClient b1 = br_toClient b"
    using other_client(8) [of io p "b\<lparr>br_lastActivity := now\<rparr>"] by simp
  obtain b2 ok2 where b2: "sendFrame io opClose p b = (b2, ok2)" by force
  obtain b3 ok3 where b3: "sendFrame io opPong p b = (b3, ok3)" by force
  have a2: "appends b [] b2" and a3: "ok3 \<and> appends b [] b3"
    using sendFrame_appends [OF assms _ b2] sendFrame_appends [OF assms _ b3] by simp_all
  have binary: "appends b [] (stopReading (sendClose io status reason b1))" for status reason
    using c [of b1] t by (rule appends_cong) simp
  show ?thesis
    using b1 b2 b3 a2 a3 t c binary
    by (auto simp: event_turn_def Let_def appends_same split: option.splits prod.splits elim!: appends_cong)
qed

lemma client_appends:
  assumes "accepting (bw_client io)"
  shows "appends b [] (client_turn io now b)"
proof -
  obtain r' res where n: "nextEvent (br_frames b) = (r', res)" by force
  let ?b = "b\<lparr>br_frames := r'\<rparr>"
  have c: "appends b [] (stopReading (sendClose io status reason ?b))" for status reason
    by (rule appends_cong [OF sendClose_appends [OF assms, of ?b]]) simp_all
  have "appends b [] (event_turn io now opc p ?b)" for opc p
    by (rule appends_cong [OF event_appends [OF assms, of ?b]]) simp_all
  then show ?thesis
    using c by (auto simp: client_turn_def n Let_def appends_same split: sum.splits prod.splits)
qed

lemma tick_appends:
  assumes "accepting (bw_client io)"
  shows "appends b [] (tick_turn io b)"
proof -
  let ?b = "b\<lparr>br_sequence := br_sequence b + 1, br_expectedPong := br_sequence b + 1\<rparr>"
  obtain b1 ok where b1: "sendFrame io opPing (put_uint64 (br_sequence b + 1)) ?b = (b1, ok)" by force
  have "ok \<and> appends ?b [] b1" using sendFrame_appends [OF assms _ b1] by simp
  then show ?thesis using b1 by (auto simp: tick_turn_def Let_def appends_same elim!: appends_cong)
qed

lemma turn_appends:
  assumes "accepting (bw_client io)"
  shows "appends b (data_at b t) (bridge_turn settings io b t)"
proof (cases t)
  case (TelegramRead now data err)
  then show ?thesis using relay_appends [OF assms] by simp
next
  case (ClientEvent now)
  then show ?thesis using client_appends [OF assms] by (simp add: data_at_def)
next
  case Tick
  then show ?thesis using tick_appends [OF assms] by (simp add: data_at_def)
qed (simp_all add: data_at_def appends_same)

lemma run_appends:
  assumes "accepting (bw_client io)"
  shows "appends b (data_read settings io b ts) (foldl (bridge_turn settings io) b ts)"
proof (induction ts arbitrary: b)
  case (Cons t ts)
  show ?case using appends_trans [OF turn_appends [OF assms] Cons.IH] by simp
qed (simp add: appends_same)

text \<open>
  C8. The bridge relays faithfully, whatever the interleaving of its four goroutines and however the
  connections split reads and writes: the bytes that reached telegram are a prefix of the payloads of
  the client's binary messages in order, and all of them while the client loop runs; while the client
  takes what it is sent, it gets nothing but whole frames of the opcodes binary, close, ping and pong,
  and the binary ones carry exactly the bytes read from telegram, in order.
\<close>

theorem bridge_relays:
  assumes "writer_ok (bw_telegram io)"
  shows "(\<exists>rest. binary_bytes (events_read settings io (startBridge settings input now) turns)
        = br_toTelegram (bridgeWebSocket settings io input now turns) @ rest
      \<and> (br_reading (bridgeWebSocket settings io input now turns) \<longrightarrow> rest = []))
    \<and> (accepting (bw_client io) \<longrightarrow>
        (\<exists>fs. br_toClient (bridgeWebSocket settings io input now turns) = wire fs
           \<and> binary_bytes fs = data_read settings io (startBridge settings input now) turns
           \<and> fst ` set fs \<subseteq> {opBinary, opClose, opPing, opPong}))"
proof
  let ?b = "startBridge settings input now"
  have s: "br_toTelegram ?b = []" "br_toClient ?b = []" by (simp_all add: startBridge_def)
  show "\<exists>rest. binary_bytes (events_read settings io ?b turns) = br_toTelegram (bridgeWebSocket settings io input now turns) @ rest
      \<and> (br_reading (bridgeWebSocket settings io input now turns) \<longrightarrow> rest = [])"
    using telegram_run [OF assms, of ?b settings turns] s by (auto simp: bridgeWebSocket_def)
  show "accepting (bw_client io) \<longrightarrow>
      (\<exists>fs. br_toClient (bridgeWebSocket settings io input now turns) = wire fs
         \<and> binary_bytes fs = data_read settings io ?b turns \<and> fst ` set fs \<subseteq> {opBinary, opClose, opPing, opPong})"
    using run_appends [of io ?b settings turns] s by (auto simp: bridgeWebSocket_def appends_def)
qed

end
