(* ===== verification/Bridge_Life.thy ===== *)
theory Bridge_Life
  imports Bridge_Props
begin

text \<open>
  The bridge in time: what the heartbeat decides, and that the goroutines end together.
\<close>

section \<open>The ping payload\<close>

lemma put_uint64_bytes: "put_uint64 v = be_bytes 8 (unat v)"
  using shifted_bytes [of "unat v" 8] unsigned_less [of v] by (simp add: put_uint64_def)

lemma length_put_uint64 [simp]: "length (put_uint64 v) = 8"
  by (simp add: put_uint64_def)

lemma be_uint64_value: "be_uint64 p = of_nat (be_value p)"
  using shift_in_value [of 0 p] by (simp add: be_uint64_def shift_in_def)

lemma be_uint64_put [simp]: "be_uint64 (put_uint64 v) = v"
proof -
  have "unat v < 256 ^ 8" using unsigned_less [of v] by simp
  then show ?thesis by (simp add: be_uint64_value put_uint64_bytes be_value_be_bytes)
qed

lemma put_be_uint64: "length p = 8 \<Longrightarrow> put_uint64 (be_uint64 p) = p"
  using be_value_less [of p] be_bytes_be_value [of p]
  by (simp add: put_uint64_bytes be_uint64_value unat64)

lemma is_ping_payload: "length p = 8 \<and> be_uint64 p = v \<longleftrightarrow> p = put_uint64 v"
  using put_be_uint64 by auto

section \<open>The heartbeat\<close>

text \<open>The variables of the heartbeat, and what holds of them between two turns.\<close>

definition heart :: "bridge \<Rightarrow> 64 word \<times> 64 word \<times> 64 word \<times> bool \<times> bool" where
  "heart b = (br_expectedPong b, br_acknowledgedPong b, br_sequence b, br_waiting b, br_beating b)"

definition heart_ok :: "bridge \<Rightarrow> bool" where
  "heart_ok b \<longleftrightarrow>
     (br_beating b \<longrightarrow>
        (if br_waiting b
         then br_expectedPong b = br_sequence b \<and> br_acknowledgedPong b + 1 = br_sequence b
            \<or> br_expectedPong b = 0 \<and> br_acknowledgedPong b = br_sequence b \<and> br_sequence b \<noteq> 0
         else br_expectedPong b = 0 \<and> br_acknowledgedPong b = br_sequence b))"

lemma heart_ok_cong: "heart b = heart c \<Longrightarrow> heart_ok b = heart_ok c"
  by (simp add: heart_def heart_ok_def)

lemma sendFrame_heart [simp]: "heart (fst (sendFrame io opc p b)) = heart b"
  by (simp add: sendFrame_def heart_def split: prod.splits)

lemma sendTelegram_heart [simp]: "heart (fst (sendTelegram io p b)) = heart b"
  by (simp add: sendTelegram_def heart_def split: prod.splits)

lemma sendClose_heart [simp]: "heart (sendClose io status reason b) = heart b"
  by (simp add: sendClose_def)

lemma other_heart [simp]:
  "heart (stopReading b) = heart b" "heart (closeBoth b) = heart b"
  "heart (b\<lparr>br_lastActivity := now\<rparr>) = heart b" "heart (b\<lparr>br_frames := r\<rparr>) = heart b"
  "heart (b\<lparr>br_relaying := v\<rparr>) = heart b" "heart (watch_turn settings now b) = heart b"
  by (simp_all add: stopReading_def closeBoth_def heart_def watch_turn_def)

lemma relay_heart: "heart (relay_turn io now data err b) = heart b"
proof -
  obtain b1 ok where b1: "sendFrame io opBinary data (b\<lparr>br_lastActivity := now\<rparr>) = (b1, ok)" by force
  then have "heart b1 = heart b" using sendFrame_heart [of io opBinary data "b\<lparr>br_lastActivity := now\<rparr>"] by simp
  then show ?thesis using b1 by (simp add: relay_turn_def Let_def split: option.splits)
qed

lemma event_heart: "heart (event_turn io now opc p b) = heart (if opc = opPong then pong_turn p b else b)"
proof -
  obtain b1 ok1 where b1: "sendTelegram io p (b\<lparr>br_lastActivity := now\<rparr>) = (b1, ok1)" by force
  obtain b2 ok2 where b2: "sendFrame io opClose p b = (b2, ok2)" by force
  obtain b3 ok3 where b3: "sendFrame io opPong p b = (b3, ok3)" by force
  have "heart b1 = heart b" "heart b2 = heart b" "heart b3 = heart b"
    using sendTelegram_heart [of io p "b\<lparr>br_lastActivity := now\<rparr>"] sendFrame_heart [of io opClose p b]
      sendFrame_heart [of io opPong p b] b1 b2 b3 by simp_all
  then show ?thesis
    using b1 b2 b3 by (simp add: event_turn_def Let_def op_defs split: option.splits prod.splits)
qed

lemma client_heart:
  "heart (client_turn io now b) =
     heart (case event_at b (ClientEvent now) of [(opc, p)] \<Rightarrow> if opc = opPong then pong_turn p b else b | _ \<Rightarrow> b)"
proof -
  obtain r' res where n: "nextEvent (br_frames b) = (r', res)" by force
  have "heart (pong_turn p (b\<lparr>br_frames := r'\<rparr>)) = heart (pong_turn p b)" for p
    by (simp add: pong_turn_def heart_def Let_def)
  then show ?thesis
    by (cases res) (auto simp: client_turn_def event_at_def n Let_def event_heart split: prod.splits)
qed

lemma pong_heart:
  assumes "heart_ok b"
  shows "heart_ok (pong_turn p b)"
    and "br_beating b \<Longrightarrow> br_acknowledgedPong (pong_turn p b) = br_sequence b
      \<longleftrightarrow> br_acknowledgedPong b = br_sequence b \<or> br_waiting b \<and> br_sequence b \<noteq> 0 \<and> p = put_uint64 (br_sequence b)"
  using assms is_ping_payload [of p "br_sequence b"]
  by (auto simp: pong_turn_def heart_ok_def Let_def split: if_splits)

lemma tick_heart:
  assumes "heart_ok b"
  shows "heart_ok (tick_turn io b)"
proof -
  let ?b = "b\<lparr>br_sequence := br_sequence b + 1, br_expectedPong := br_sequence b + 1\<rparr>"
  obtain b1 ok where b1: "sendFrame io opPing (put_uint64 (br_sequence b + 1)) ?b = (b1, ok)" by force
  have "heart b1 = heart ?b" using sendFrame_heart [of io opPing "put_uint64 (br_sequence b + 1)" ?b] b1 by simp
  then show ?thesis
    using assms b1 by (auto simp: tick_turn_def Let_def heart_def heart_ok_def closeBoth_def clear_expected_def)
qed

lemma turn_heart_ok:
  assumes "heart_ok b"
  shows "heart_ok (bridge_turn settings io b t)"
proof (cases t)
  case (TelegramRead now data err)
  then show ?thesis using assms relay_heart heart_ok_cong by (metis bridge_turn.simps(1))
next
  case (ClientEvent now)
  have "heart_ok (case event_at b t of [(opc, p)] \<Rightarrow> if opc = opPong then pong_turn p b else b | _ \<Rightarrow> b)"
    using assms pong_heart(1) by (auto split: list.splits)
  then show ?thesis using client_heart heart_ok_cong ClientEvent by (metis bridge_turn.simps(2))
next
  case Tick
  then show ?thesis using tick_heart [OF assms] by simp
next
  case PongTimer
  then show ?thesis
    using assms by (auto simp: timer_turn_def heart_ok_def closeBoth_def clear_expected_def)
next
  case (WatchTick now)
  then show ?thesis using assms other_heart(6) heart_ok_cong by (metis bridge_turn.simps(5))
next
  case SeeDone
  then show ?thesis using assms by (simp add: done_turn_def heart_ok_def)
qed

lemma bridge_heart_ok: "heart_ok (bridgeWebSocket settings io input now turns)"
proof -
  have "heart_ok b \<Longrightarrow> heart_ok (foldl (bridge_turn settings io) b ts)" for b ts
    using turn_heart_ok by (induction ts arbitrary: b) auto
  then show ?thesis by (simp add: bridgeWebSocket_def startBridge_def heart_ok_def)
qed

text \<open>While a ping is out, a turn other than the timer only records whether it was answered.\<close>

lemma waiting_turn:
  assumes "heart_ok b" and "br_beating b" and "br_waiting b" and "t \<noteq> PongTimer" and "t \<noteq> SeeDone"
  shows "br_beating (bridge_turn settings io b t) \<and> br_waiting (bridge_turn settings io b t)
    \<and> br_sequence (bridge_turn settings io b t) = br_sequence b
    \<and> (br_acknowledgedPong (bridge_turn settings io b t) = br_sequence b
         \<longleftrightarrow> br_acknowledgedPong b = br_sequence b
            \<or> br_sequence b \<noteq> 0 \<and> (opPong, put_uint64 (br_sequence b)) \<in> set (event_at b t))"
proof (cases t)
  case (ClientEvent now)
  have pong: "br_beating (pong_turn p b) = br_beating b" "br_waiting (pong_turn p b) = br_waiting b"
    "br_sequence (pong_turn p b) = br_sequence b" for p
    by (simp_all add: pong_turn_def Let_def)
  have h: "br_beating (client_turn io now b) = br_beating c \<and> br_waiting (client_turn io now b) = br_waiting c
      \<and> br_sequence (client_turn io now b) = br_sequence c
      \<and> br_acknowledgedPong (client_turn io now b) = br_acknowledgedPong c"
    if "c = (case event_at b t of [(opc, p)] \<Rightarrow> if opc = opPong then pong_turn p b else b | _ \<Rightarrow> b)" for c
    using client_heart [of io now b] that ClientEvent by (simp add: heart_def)
  consider "event_at b t = []" | e where "event_at b t = [e]"
    by (cases "br_reading b"; cases "snd (nextEvent (br_frames b))") (auto simp: event_at_def ClientEvent)
  then show ?thesis
  proof cases
    case 2
    then show ?thesis
      using h [OF refl] pong assms pong_heart(2) [OF assms(1,2)] ClientEvent by (cases e) auto
  qed (use h [OF refl] assms ClientEvent in simp)
next
  case (TelegramRead now data err)
  then show ?thesis using relay_heart [of io now data err b] assms by (simp add: heart_def event_at_def)
next
  case (WatchTick now)
  then show ?thesis using other_heart(6) [of settings now b] assms by (simp add: heart_def event_at_def)
next
  case Tick
  then show ?thesis using assms by (simp add: event_at_def tick_turn_def)
qed (use assms in simp_all)

lemma waiting_run:
  assumes "heart_ok b" and "br_beating b" and "br_waiting b" and "PongTimer \<notin> set ts" and "SeeDone \<notin> set ts"
  shows "br_beating (foldl (bridge_turn settings io) b ts) \<and> br_waiting (foldl (bridge_turn settings io) b ts)
    \<and> br_sequence (foldl (bridge_turn settings io) b ts) = br_sequence b
    \<and> (br_acknowledgedPong (foldl (bridge_turn settings io) b ts) = br_sequence b
         \<longleftrightarrow> br_acknowledgedPong b = br_sequence b
            \<or> br_sequence b \<noteq> 0 \<and> (opPong, put_uint64 (br_sequence b)) \<in> set (events_read settings io b ts))"
  using assms
proof (induction ts arbitrary: b)
  case (Cons t ts)
  have t: "t \<noteq> PongTimer" "t \<noteq> SeeDone" using Cons.prems by auto
  note turn = waiting_turn [OF Cons.prems(1-3) t, of settings io]
  show ?case using Cons.IH [of "bridge_turn settings io b t"] turn turn_heart_ok Cons.prems by auto
qed simp

lemma writeAll_ok: "writeAll answer k sent payload = (s, k', WriteOk) \<Longrightarrow> s = sent @ payload"
proof (induction "length payload" arbitrary: k sent payload rule: less_induct)
  case less
  show ?case
  proof (cases "payload = []")
    case True
    then show ?thesis using less.prems by (simp add: writeAll.simps)
  next
    case False
    obtain w f where w: "answer k payload = (w, f)" by force
    then have "0 < w" "writeAll answer (Suc k) (sent @ take (nat w) payload) (drop (nat w) payload) = (s, k', WriteOk)"
      using less.prems False by (simp_all add: writeAll.simps [of answer k] Let_def split: if_splits)
    then show ?thesis using less.hyps [of "drop (nat w) payload"] False by fastforce
  qed
qed

lemma tick_sent:
  assumes "br_beating b" and "\<not> br_waiting b" and "br_waiting (tick_turn io b)"
  shows "br_toClient (tick_turn io b) = br_toClient b @ server_frame opPing (put_uint64 (br_sequence b + 1))
    \<and> br_sequence (tick_turn io b) = br_sequence b + 1 \<and> br_beating (tick_turn io b)
    \<and> br_acknowledgedPong (tick_turn io b) = br_acknowledgedPong b"
proof -
  let ?b = "b\<lparr>br_sequence := br_sequence b + 1, br_expectedPong := br_sequence b + 1\<rparr>"
  obtain b1 ok where b1: "sendFrame io opPing (put_uint64 (br_sequence b + 1)) ?b = (b1, ok)" by force
  have ok: ok and h: "heart b1 = heart ?b"
    using assms b1 sendFrame_heart [of io opPing "put_uint64 (br_sequence b + 1)" ?b]
    by (auto simp: tick_turn_def Let_def closeBoth_def clear_expected_def heart_def split: if_splits)
  have "br_toClient b1 = br_toClient b @ server_frame opPing (put_uint64 (br_sequence b + 1))"
    using b1 ok unfolding sendFrame_def writeFrame_def server_frame_def
    by (auto split: prod.splits writeResult.splits dest!: writeAll_ok)
  then show ?thesis using assms b1 ok h by (simp add: tick_turn_def Let_def heart_def)
qed

text \<open>
  C21. The heartbeat closes exactly the bridges whose client does not answer. From any state a run of
  the bridge reaches, a tick that could write sends one ping carrying the next sequence number, and
  when its timer fires, whatever the goroutines did in between, the bridge goes on if a pong with that
  very payload was read since the ping, and is closed otherwise; the number zero, reached once in
  2^64 pings, cannot be answered.
\<close>

theorem heartbeat_decides:
  assumes "b = bridgeWebSocket settings io input now turns"
    and "br_beating b" and "\<not> br_waiting b" and "pinged = bridge_turn settings io b Tick" and "br_waiting pinged"
    and "PongTimer \<notin> set between" and "SeeDone \<notin> set between"
    and "before = foldl (bridge_turn settings io) pinged between" and "after = bridge_turn settings io before PongTimer"
    and "answered \<longleftrightarrow> br_sequence b + 1 \<noteq> 0
           \<and> (opPong, put_uint64 (br_sequence b + 1)) \<in> set (events_read settings io pinged between)"
  shows "br_toClient pinged = br_toClient b @ server_frame opPing (put_uint64 (br_sequence b + 1))
    \<and> br_beating after = answered \<and> (br_done after \<longleftrightarrow> br_done before \<or> \<not> answered)"
proof -
  have ok: "heart_ok b" using bridge_heart_ok assms(1) by simp
  have sent: "br_toClient pinged = br_toClient b @ server_frame opPing (put_uint64 (br_sequence b + 1))"
    "br_sequence pinged = br_sequence b + 1" "br_beating pinged" "br_acknowledgedPong pinged = br_acknowledgedPong b"
    using tick_sent [of b io] assms(2-5) by simp_all
  have ok': "heart_ok pinged" unfolding assms(4) by (rule turn_heart_ok [OF ok])
  have "br_acknowledgedPong b = br_sequence b" using ok assms(2,3) by (simp add: heart_ok_def)
  then have "br_acknowledgedPong pinged \<noteq> br_sequence pinged" using sent by simp
  then have "br_beating before \<and> br_waiting before
      \<and> (br_acknowledgedPong before = br_sequence before \<longleftrightarrow> answered)"
    using waiting_run [OF ok' sent(3) assms(5-7), of settings io] assms(8,10) sent(2) by simp
  then show ?thesis
    using sent(1) assms(9) by (auto simp: timer_turn_def closeBoth_def clear_expected_def)
qed

section \<open>The end of a bridge\<close>

definition running :: "bridge \<Rightarrow> bool \<times> bool \<times> bool \<times> bool" where
  "running b = (br_relaying b, br_reading b, br_beating b, br_watching b)"

lemma sendFrame_running [simp]:
  "running (fst (sendFrame io opc p b)) = running b" "br_done (fst (sendFrame io opc p b)) = br_done b"
  "br_frames (fst (sendFrame io opc p b)) = br_frames b"
  by (simp_all add: sendFrame_def running_def split: prod.splits)

lemma sendTelegram_running [simp]:
  "running (fst (sendTelegram io p b)) = running b" "br_done (fst (sendTelegram io p b)) = br_done b"
  "br_frames (fst (sendTelegram io p b)) = br_frames b"
  by (simp_all add: sendTelegram_def running_def split: prod.splits)

lemma sendClose_running [simp]:
  "running (sendClose io status reason b) = running b" "br_done (sendClose io status reason b) = br_done b"
  "br_frames (sendClose io status reason b) = br_frames b"
  by (simp_all add: sendClose_def)

text \<open>A turn keeps the goroutines that run, or it has closed the bridge.\<close>

definition lives :: "bridge \<Rightarrow> bridge \<Rightarrow> bool" where
  "lives b b' \<longleftrightarrow> (br_done b \<longrightarrow> br_done b') \<and> (br_done b' \<or> running b' = running b)"

lemma lives_refl: "lives b b"
  by (simp add: lives_def)

lemma lives_trans: "lives b b' \<Longrightarrow> lives b' b'' \<Longrightarrow> lives b b''"
  by (auto simp: lives_def)

lemma relay_lives: "lives b (relay_turn io now data err b)"
proof -
  obtain b1 ok where b1: "sendFrame io opBinary data (b\<lparr>br_lastActivity := now\<rparr>) = (b1, ok)" by force
  then have "running b1 = running b" "br_done b1 = br_done b"
    using sendFrame_running [of io opBinary data "b\<lparr>br_lastActivity := now\<rparr>"] by (simp_all add: running_def)
  then show ?thesis
    using b1 by (auto simp: relay_turn_def Let_def lives_def closeBoth_def split: option.splits)
qed

lemma event_lives:
  "lives b (event_turn io now opc p b)" "br_frames (event_turn io now opc p b) = br_frames b"
  "br_relaying (event_turn io now opc p b) = br_relaying b" "br_watching (event_turn io now opc p b) = br_watching b"
proof -
  obtain b1 ok1 where b1: "sendTelegram io p (b\<lparr>br_lastActivity := now\<rparr>) = (b1, ok1)" by force
  obtain b2 ok2 where b2: "sendFrame io opClose p b = (b2, ok2)" by force
  obtain b3 ok3 where b3: "sendFrame io opPong p b = (b3, ok3)" by force
  have r: "running b1 = running b" "running b2 = running b" "running b3 = running b"
    "br_done b1 = br_done b" "br_done b2 = br_done b" "br_done b3 = br_done b"
    "br_frames b1 = br_frames b" "br_frames b2 = br_frames b" "br_frames b3 = br_frames b"
    using sendTelegram_running [of io p "b\<lparr>br_lastActivity := now\<rparr>"] sendFrame_running [of io opClose p b]
      sendFrame_running [of io opPong p b] b1 b2 b3 by (simp_all add: running_def)
  have s: "br_done (stopReading c)" "br_frames (stopReading c) = br_frames c" for c
    by (simp_all add: stopReading_def closeBoth_def)
  have pong: "running (pong_turn p b) = running b" "br_done (pong_turn p b) = br_done b"
    "br_frames (pong_turn p b) = br_frames b"
    by (simp_all add: pong_turn_def running_def Let_def)
  show "lives b (event_turn io now opc p b)"
    using b1 b2 b3 r s pong
    by (auto simp: event_turn_def Let_def lives_def split: option.splits prod.splits)
  show "br_frames (event_turn io now opc p b) = br_frames b"
    using b1 b2 b3 r s pong by (auto simp: event_turn_def Let_def split: option.splits prod.splits)
  have w: "br_relaying c = fst (running c)" "br_watching c = snd (snd (snd (running c)))"
    "fst (running (stopReading c)) = fst (running c)" "snd (snd (snd (running (stopReading c)))) = snd (snd (snd (running c)))" for c
    by (simp_all add: running_def stopReading_def closeBoth_def)
  show "br_relaying (event_turn io now opc p b) = br_relaying b"
    using b1 b2 b3 r pong by (auto simp: event_turn_def Let_def w split: option.splits prod.splits)
  show "br_watching (event_turn io now opc p b) = br_watching b"
    using b1 b2 b3 r pong by (auto simp: event_turn_def Let_def w split: option.splits prod.splits)
qed

lemma turn_lives: "lives b (bridge_turn settings io b t)"
proof (cases t)
  case (TelegramRead now data err)
  then show ?thesis using relay_lives by simp
next
  case (ClientEvent now)
  obtain r' res where n: "nextEvent (br_frames b) = (r', res)" by force
  have "lives b (event_turn io now opc p (b\<lparr>br_frames := r'\<rparr>))" for opc p
    using event_lives(1) [of "b\<lparr>br_frames := r'\<rparr>"] by (simp add: lives_def running_def)
  then show ?thesis
    using ClientEvent n
    by (cases res) (auto simp: client_turn_def Let_def lives_def stopReading_def closeBoth_def split: prod.splits)
next
  case Tick
  let ?b = "b\<lparr>br_sequence := br_sequence b + 1, br_expectedPong := br_sequence b + 1\<rparr>"
  obtain b1 ok where b1: "sendFrame io opPing (put_uint64 (br_sequence b + 1)) ?b = (b1, ok)" by force
  then have "running b1 = running b" "br_done b1 = br_done b"
    using sendFrame_running [of io opPing "put_uint64 (br_sequence b + 1)" ?b] by (simp_all add: running_def)
  then show ?thesis using Tick b1 by (simp add: tick_turn_def Let_def lives_def closeBoth_def running_def)
qed (simp_all add: lives_def timer_turn_def watch_turn_def done_turn_def closeBoth_def running_def)

lemma run_lives: "lives b (foldl (bridge_turn settings io) b ts)"
proof (induction ts arbitrary: b)
  case (Cons t ts)
  show ?case using lives_trans [OF turn_lives Cons.IH] by simp
qed (simp add: lives_refl)

text \<open>An event that is read consumes input, so a client loop whose input ends, ends.\<close>

lemma nextEvent_length:
  "nextEvent r = (r', Inr e) \<Longrightarrow> length (fr_reader r') < length (fr_reader r)"
proof (induction "length (fr_reader r)" arbitrary: r rule: less_induct)
  case less
  show ?case
  proof (cases "readClientFrame (fr_reader r) (fr_maxMessageBytes r)")
    case (Inl e')
    then show ?thesis using less.prems by (simp add: nextEvent.simps [of r])
  next
    case (Inr x)
    obtain f s where x: "x = (f, s)" by force
    then have l: "length s < length (fr_reader r)" using readClientFrame_length Inr by blast
    have step: "length (fr_reader r') < length (fr_reader r)"
      if "nextEvent (r\<lparr>fr_reader := s, fr_fragmentedOpcode := opc, fr_fragmented := acc\<rparr>) = (r', Inr e)" for opc acc
      using less.hyps [OF _ that] l by simp
    have step': "length (fr_reader r') < length (fr_reader r)"
      if "nextEvent (r\<lparr>fr_reader := s, fr_fragmented := acc\<rparr>) = (r', Inr e)" for acc
      using less.hyps [OF _ that] l by simp
    show ?thesis
      using less.prems l step step' Inr x
      by (auto simp: nextEvent.simps [of r] Let_def split: if_splits)
  qed
qed

lemma client_stops:
  "length (fr_reader (br_frames b)) < n \<Longrightarrow>
    \<not> br_reading (foldl (bridge_turn settings io) b (replicate n (ClientEvent now)))"
proof (induction n arbitrary: b)
  case (Suc n)
  have stopped: "\<not> br_reading c \<Longrightarrow> \<not> br_reading (foldl (bridge_turn settings io) c (replicate m (ClientEvent now)))" for c m
    by (induction m) (simp_all add: client_turn_def)
  obtain r' res where n: "nextEvent (br_frames b) = (r', res)" by force
  show ?case
  proof (cases "br_reading b")
    case True
    show ?thesis
    proof (cases res)
      case (Inl e)
      then show ?thesis
        using True n stopped by (simp add: client_turn_def stopReading_def closeBoth_def Let_def split: prod.splits)
    next
      case (Inr e)
      then have "length (fr_reader r') < n" using nextEvent_length n Suc.prems by fastforce
      then show ?thesis
        using True n Inr Suc.IH by (cases e) (simp add: client_turn_def Let_def event_lives(2))
    qed
  next
    case False
    then show ?thesis using stopped [of b "Suc n"] by simp
  qed
qed simp

lemma client_others:
  "br_relaying (client_turn io now b) = br_relaying b" "br_watching (client_turn io now b) = br_watching b"
  "br_beating (client_turn io now b) = br_beating b"
proof -
  have c: "br_relaying (sendClose io st re c) = br_relaying c" "br_watching (sendClose io st re c) = br_watching c" for st re c
    using sendClose_running(1) [of io st re c] by (simp_all add: running_def)
  show "br_relaying (client_turn io now b) = br_relaying b" "br_watching (client_turn io now b) = br_watching b"
    by (simp_all add: client_turn_def Let_def event_lives c stopReading_def closeBoth_def split: sum.splits prod.splits)
  have "br_beating (pong_turn p c) = br_beating c" for p c
    by (simp add: pong_turn_def Let_def)
  then show "br_beating (client_turn io now b) = br_beating b"
    using client_heart [of io now b] by (simp add: heart_def split: list.splits prod.splits if_splits)
qed

text \<open>
  C22. The goroutines of a bridge end together. Once a run has made any of them return - a read or a
  write failed, the client said goodbye or broke the protocol, the heartbeat or the watchdog gave up -
  both connections are closed, and the rest is a bounded number of turns: the read of the closed
  telegram connection fails, the heartbeat and the watchdog see that the bridge is done, and the
  client loop reads at most one event for each byte it still has buffered.
\<close>

theorem bridge_ends:
  assumes "b = bridgeWebSocket settings io input now turns"
    and "running b \<noteq> running (startBridge settings input now)"
    and "length (fr_reader (br_frames b)) < n"
  shows "br_done b
    \<and> running (foldl (bridge_turn settings io) b
        ([TelegramRead later [] (Some eof), SeeDone] @ replicate n (ClientEvent later))) = (False, False, False, False)"
proof
  show d: "br_done b"
    using run_lives [of "startBridge settings input now" settings io turns] assms(1,2)
    by (auto simp: lives_def bridgeWebSocket_def)
  let ?r = "relay_turn io later [] (Some eof) b"
  have r: "\<not> br_relaying ?r" "br_frames ?r = br_frames b"
    by (simp_all add: relay_turn_def Let_def closeBoth_def)
  have "br_done ?r" using relay_lives [of b] d by (simp add: lives_def)
  then have s: "\<not> br_relaying (done_turn ?r)" "\<not> br_beating (done_turn ?r)" "\<not> br_watching (done_turn ?r)"
    "br_frames (done_turn ?r) = br_frames b"
    using r by (simp_all add: done_turn_def)
  have "br_relaying (foldl (bridge_turn settings io) c (replicate n (ClientEvent later))) = br_relaying c
      \<and> br_watching (foldl (bridge_turn settings io) c (replicate n (ClientEvent later))) = br_watching c
      \<and> br_beating (foldl (bridge_turn settings io) c (replicate n (ClientEvent later))) = br_beating c" for c n
    by (induction n arbitrary: c) (simp_all add: client_others)
  then show "running (foldl (bridge_turn settings io) b
      ([TelegramRead later [] (Some eof), SeeDone] @ replicate n (ClientEvent later))) = (False, False, False, False)"
    using s client_stops [of "done_turn ?r" n settings io later] assms(3) by (simp add: running_def)
qed

end
