(* ===== verification/Sample_Server.thy ===== *)
theory Sample_Server
  imports Sample_Control Access_Props Admission_Props Bridge_Life
begin

text \<open>
  Instances of the properties of the HTTP server, the WebSocket handler and the bridge, on the
  configuration, control plane and topology of the earlier samples.
\<close>

section \<open>The server\<close>

definition sample_server :: server where
  "sample_server = \<lparr>sv_cfg = sample_config, sv_control = sample_start, sv_upstreams = newUpstreamPool,
     sv_sessions = newSessionLimiter, sv_topology = sample_manager\<lparr>tm_current := Some sample_snapshot\<rparr>\<rparr>"

definition sample_ws_request :: request where
  "sample_ws_request = \<lparr>rq_header = (\<lambda>name.
       if name = ''Authorization'' then ''Bearer alpha'' else if name = ''Upgrade'' then ''websocket''
       else if name = ''Connection'' then ''upgrade'' else if name = ''Sec-WebSocket-Key'' then ''key''
       else if name = ''Sec-WebSocket-Version'' then ''13''
       else if name = ''Sec-WebSocket-Protocol'' then ''binary'' else []),
     rq_remoteAddr = ''149.154.167.51:443'', rq_query = [(''dc'', [''2'']), (''media'', [''1''])]\<rparr>"

definition sample_http :: "string \<Rightarrow> string \<Rightarrow> httpRequest" where
  "sample_http verb path = \<lparr>hr_method = verb, hr_path = path, hr_request = sample_ws_request\<rparr>"

theorem served_access_witness:
  "TokenHash sample_env (bearerToken (rq_header (hr_request (sample_http ''GET'' ''/healthz'')) ''Authorization''))
    \<in> active_hashes sample_env (sv_control sample_server)"
proof -
  let ?r = "sample_http ''GET'' ''/healthz''"
  have h: "rq_header (hr_request ?r) ''Authorization'' = ''Bearer alpha''"
    by (simp add: sample_http_def sample_ws_request_def)
  have c: "sv_control sample_server = sample_start" "sv_cfg sample_server = sample_config"
    by (simp_all add: sample_server_def)
  have s: "serve (sample_codec []) sample_server None ?r run (''/healthz'', ClientAuth, Healthz)
      = (sample_start, None, Respond handleHealthz, [])" for run
    by (simp add: serve_def withClientAuth_def h c sample_authorized respond_def)
  have r: "reachable (control_init (sample_codec []) sample_config) (control_step (sample_codec []) sample_config)
      (sv_control sample_server, None)"
    using sample_reach c by simp
  have m: "(''/healthz'', ClientAuth, Healthz) \<in> set (handlerRoutes (sv_cfg sample_server))"
    by (simp add: handlerRoutes_def Let_def)
  have n: "Respond handleHealthz \<noteq> Respond (httpError ''unauthorized'' 401)" "Healthz \<noteq> ConnectLanding"
    "Healthz \<notin> owner_handlers"
    by (simp_all add: handleHealthz_def httpError_def owner_handlers_def)
  show ?thesis using served_access [OF r m s] n by (simp add: c)
qed

text \<open>A creation with an idempotency key, every system call succeeding.\<close>

definition sample_owner_run :: ownerRun where
  "sample_owner_run = \<lparr>or_decoded = Some ((''tablet'', sample_secret, ''request-1''), True), or_io = all_io, or_ioText = [],
     or_ioMissing = False, or_secretBytes = None, or_idBytes = None, or_now = ''now''\<rparr>"

text \<open>The owner's token is not a client's.\<close>

theorem roles_separated_witness:
  "authorizeAdmin sample_env sample_start ''Bearer omega'' \<and> authorizeClient sample_env sample_start ''Bearer omega'' = None"
proof -
  have "bearerToken ''Bearer omega'' = ''omega''"
    by (simp add: bearerToken_def hasPrefix_def trimPrefix_def sample_trims)
  moreover have "cp_adminTokens sample_start = [sample_owner]"
    by (simp add: sample_start_def freshControlPlane_def sample_config_def)
  moreover have "constantHashEqual sample_env (TokenHash sample_env ''omega'') (TokenHash sample_env ''omega'')"
    using sample_canonical by (simp add: constantHashEqual_canonical)
  ultimately have a: "authorizeAdmin sample_env sample_start ''Bearer omega''"
    by (simp add: authorizeAdmin_def authorizeTokens_def sample_owner_def)
  have v: "Validate (ce_go (sample_codec [])) sample_config = (sample_config, None)"
    by (simp add: sample_config_Validate)
  show ?thesis
    using a roles_separated [OF v sample_reach, of "''Bearer omega''"] by (simp add: sample_start_fields token_hashes_def)
qed

theorem owner_mutations_honest_witness:
  "honest (sample_codec [cp_state sample_second]) False sample_start None
     (sample_second, Some [], createdResponse sample_new sample_secret False, [])"
proof -
  let ?C = "sample_codec [cp_state sample_second]"
  have "rq_header sample_ws_request ''Idempotency-Key'' = []" by (simp add: sample_ws_request_def)
  then have "handleOwnerTokens ?C sample_start None (sample_http ''POST'' ''/admin/v1/tokens'') sample_owner_run
      = (sample_second, Some [], createdResponse sample_new sample_secret False, [])"
    using sample_second_create [OF sample_second_written, of None None]
    by (simp add: handleOwnerTokens_def sample_http_def sample_owner_run_def)
  then show ?thesis
    using owner_mutations_honest [OF sample_reach [of "[cp_state sample_second]"],
        of sample_owner_run "sample_http ''POST'' ''/admin/v1/tokens''"]
    by (simp add: sample_owner_run_def all_io_def)
qed

section \<open>The bridge\<close>

definition sample_io :: bridgeWrites where
  "sample_io = \<lparr>bw_client = (\<lambda>k p. (int (length p), False)), bw_telegram = (\<lambda>k p. (int (length p), False))\<rparr>"

definition sample_settings :: bridgeSettings where
  "sample_settings = \<lparr>bs_idleTimeout = 60 * second, bs_pingInterval = 25 * second, bs_pongTimeout = 10 * second,
     bs_writeTimeout = 10 * second, bs_maxMessageBytes = 1048576\<rparr>"

lemma sample_io_ok: "writer_ok (bw_telegram sample_io)" "accepting (bw_client sample_io)"
  by (simp_all add: sample_io_def writer_ok_def accepting_def)

text \<open>Telegram sends two bytes: the client gets them as binary frames.\<close>

theorem bridge_relays_witness:
  "\<exists>fs. br_toClient (bridgeWebSocket sample_settings sample_io [] 0 [TelegramRead 1 [7, 8] None]) = wire fs
     \<and> binary_bytes fs = [7, 8]"
proof -
  have "data_read sample_settings sample_io (startBridge sample_settings [] 0) [TelegramRead 1 [7, 8] None] = [7, 8]"
    by (simp add: data_at_def startBridge_def)
  then show ?thesis
    using bridge_relays [OF sample_io_ok(1), of sample_settings "[]" 0 "[TelegramRead 1 [7, 8] None]"] sample_io_ok(2)
    by auto
qed

text \<open>A first ping whose timer fires with nothing read closes the bridge.\<close>

lemma sample_start_bridge:
  "br_beating (startBridge sample_settings [] 0)" "\<not> br_waiting (startBridge sample_settings [] 0)"
  "\<not> br_done (startBridge sample_settings [] 0)" "br_frames (startBridge sample_settings [] 0) =
     \<lparr>fr_reader = [], fr_maxMessageBytes = 1048576, fr_fragmentedOpcode = 0, fr_fragmented = []\<rparr>"
  by (simp_all add: startBridge_def sample_settings_def second_def)

lemma sample_tick: "br_waiting (bridge_turn sample_settings sample_io (startBridge sample_settings [] 0) Tick)"
proof -
  let ?b = "(startBridge sample_settings [] 0)\<lparr>br_sequence := 1, br_expectedPong := 1\<rparr>"
  obtain k where "sendFrame sample_io opPing (put_uint64 1) ?b =
      (?b\<lparr>br_toClient := br_toClient ?b @ server_frame opPing (put_uint64 1), br_clientCalls := k\<rparr>, True)"
    using sendFrame_accepting [OF sample_io_ok(2)] by blast
  moreover have "br_sequence (startBridge sample_settings [] 0) = 0" by (simp add: startBridge_def)
  ultimately show ?thesis by (simp add: tick_turn_def sample_start_bridge)
qed

lemma sample_run_nil: "startBridge sample_settings [] 0 = bridgeWebSocket sample_settings sample_io [] 0 []"
  by (simp add: bridgeWebSocket_def)

theorem heartbeat_decides_witness:
  "br_done (bridge_turn sample_settings sample_io
     (bridge_turn sample_settings sample_io (startBridge sample_settings [] 0) Tick) PongTimer)"
  using heartbeat_decides [OF sample_run_nil sample_start_bridge(1,2) refl sample_tick, of "[]", OF _ _ refl refl refl]
  by simp

theorem bridge_ends_witness:
  "running (foldl (bridge_turn sample_settings sample_io)
     (bridgeWebSocket sample_settings sample_io [] 0 [ClientEvent 0])
     ([TelegramRead 1 [] (Some True), SeeDone] @ replicate 1 (ClientEvent 1))) = (False, False, False, False)"
proof -
  let ?b = "startBridge sample_settings [] 0"
  have n: "nextEvent (br_frames ?b) = (br_frames ?b, Inl ReadIO)"
    by (simp add: nextEvent.simps readClientFrame_def readFull_def sample_start_bridge)
  have b: "bridgeWebSocket sample_settings sample_io [] 0 [ClientEvent 0] = client_turn sample_io 0 ?b"
    by (simp add: bridgeWebSocket_def)
  have c: "\<not> br_reading (client_turn sample_io 0 ?b)" "br_frames (client_turn sample_io 0 ?b) = br_frames ?b"
    by (simp_all add: client_turn_def n Let_def stopReading_def closeBoth_def split: prod.splits)
  have r: "running (bridgeWebSocket sample_settings sample_io [] 0 [ClientEvent 0]) \<noteq> running ?b"
    using c by (simp add: running_def b) (simp add: startBridge_def)
  have l: "length (fr_reader (br_frames (bridgeWebSocket sample_settings sample_io [] 0 [ClientEvent 0]))) < 1"
    by (simp add: b c sample_start_bridge)
  show ?thesis by (rule bridge_ends [OF refl r l, THEN conjunct2])
qed

section \<open>The WebSocket handler\<close>

definition sample_ws :: wsEnv where
  "sample_ws = \<lparr>we_control = sample_codec [], we_topology = sample_topoenv, we_sha1 = sample_sha256\<rparr>"

text \<open>The dial succeeds with connection 7; how the hijack ends is the argument.\<close>

definition sample_ws_run :: "hijackOutcome \<Rightarrow> wsRun" where
  "sample_ws_run hijack = \<lparr>wx_seen = sample_manager\<lparr>tm_current := Some sample_snapshot\<rparr>, wx_routeNow = 5, wx_parentDone = False,
     wx_fetch = FetchFailed, wx_fetched = 5, wx_io = all_io,
     wx_waves = (\<lambda>k. \<lparr>wr_arrivals = (if k = 0 then [(6, ''149.154.167.51:443'', Dialled (Some 7) None None)] else []),
       wr_parentAt = None, wr_parentErr = Canceled, wr_ctxErr = None\<rparr>),
     wx_dialNow = 6, wx_hijack = hijack, wx_close = 1, wx_startText = ''now'', wx_startNow = 6,
     wx_flushed = True, wx_endText = ''later''\<rparr>"

definition sample_route :: wsRoute where
  "sample_route = \<lparr>wo_subprotocol = ''binary'', wo_dc = 2, wo_test = False, wo_media = True\<rparr>"

definition sample_reservation :: "bool \<Rightarrow> sessionReservation" where
  "sample_reservation dialled = \<lparr>sr_tokenID = ''primary'', sr_dialDone = dialled, sr_released = False\<rparr>"

lemma sample_headers:
  "rq_header sample_ws_request ''Upgrade'' = ''websocket''" "rq_header sample_ws_request ''Connection'' = ''upgrade''"
  "rq_header sample_ws_request ''Sec-WebSocket-Key'' = ''key''" "rq_header sample_ws_request ''Sec-WebSocket-Version'' = ''13''"
  "rq_header sample_ws_request ''Sec-WebSocket-Protocol'' = ''binary''"
  by (simp_all add: sample_ws_request_def)

lemma sample_subprotocol: "selectedWebSocketSubprotocol sample_ws_request = ''binary''"
  by (simp add: selectedWebSocketSubprotocol_def sample_headers headerContainsToken_def
      plain_char_def equalFoldAscii_def runes_def codes_def Let_def)

lemma sample_upgrade: "isWebSocketUpgrade sample_env sample_ws_request"
  by (simp add: isWebSocketUpgrade_def sample_headers sample_subprotocol equalFoldAscii_def runes_def codes_def
      toLower_def sample_env_def is_ascii_def hasPrefix_def lower_char_def lower_code_def char_of_eq_code)

lemma sample_query: "query_get sample_ws_request ''dc'' = ''2''" "query_get sample_ws_request ''media'' = ''1''"
  "query_get sample_ws_request ''test'' = []" "validateRouteQuery sample_ws_request = None"
  by (simp_all add: query_get_def sample_ws_request_def mget_def validateRouteQuery_def check_def)

lemma sample_requestedRoute: "requestedRoute sample_env sample_ws_request = Inr sample_route"
  by (simp add: requestedRoute_def sample_subprotocol sample_upgrade sample_query sample_route_def atoi_def
      parse_digits_def is_digit_def)

lemma sample_not_blocked: "\<not> deviceBlocked sample_env sample_start sample_token (Some sample_ws_request)"
  by (simp add: deviceBlocked_def sample_start_fields Let_def list_ex_iff)

lemma sample_ws_order:
  "ordered newUpstreamPool [''149.154.167.51:443''] 6 = (\<lparr>up_health = [], up_cursor = 1\<rparr>, [''149.154.167.51:443''])"
  by (simp add: ordered_def newUpstreamPool_def sliceStable_def retry_less_def zeroEndpoint_def)

lemma sample_ws_dial:
  "dialTelegramRoute (wx_waves (sample_ws_run hijack)) newUpstreamPool [''149.154.167.51:443''] 6
     = (\<lparr>up_health = [], up_cursor = 1\<rparr>, Inr (7, ''149.154.167.51:443''), [])"
  by (simp add: dialTelegramRoute_def sample_ws_order sample_ws_run_def dial_waves.simps dialEndpointWave_def
      wave_loop.simps wave_results_def wave_self_closed_def endpointRaceWidth_def succeeded_def
      closeLateEndpointConnections_def late_connections_def)

definition sample_events :: "wsEvent list" where
  "sample_events = [Reserves (sample_reservation False), Opens 7, DialDone, Closes 7, Releases (sample_reservation True)]"

lemma sample_ws_fields:
  "we_control sample_ws = sample_codec []" "we_topology sample_ws = sample_topoenv"
  "wx_hijack (sample_ws_run hijack) = hijack" "wx_flushed (sample_ws_run hijack)"
  "wx_seen (sample_ws_run hijack) = sample_manager\<lparr>tm_current := Some sample_snapshot\<rparr>"
  "wx_dialNow (sample_ws_run hijack) = 6"
  "sv_control sample_server = sample_start" "sv_upstreams sample_server = newUpstreamPool"
  "sv_sessions sample_server = newSessionLimiter"
  "sv_topology sample_server = sample_manager\<lparr>tm_current := Some sample_snapshot\<rparr>"
  "wo_dc sample_route = 2" "\<not> wo_test sample_route" "wo_media sample_route"
  by (simp_all add: sample_ws_def sample_ws_run_def sample_server_def sample_route_def)

lemmas sample_step_simps = ws_step_def sample_ws_fields sample_offered

text \<open>A step of the sample run, whatever it leaves of the server.\<close>

abbreviation sample_moves :: "hijackOutcome \<Rightarrow> wsPhase \<Rightarrow> wsPhase \<Rightarrow> wsEvent list \<Rightarrow> bool" where
  "sample_moves hijack phase phase' es \<equiv> \<exists>s f.
     ws_step sample_ws (sample_ws_run hijack) sample_ws_request sample_token sample_server None phase = (s, f, phase', es)"

lemma sample_steps:
  "sample_moves hijack Start (Checked sample_route) []"
  "sample_moves hijack (Checked sample_route) (Routed sample_route) []"
  "sample_moves hijack (Routed sample_route) (Reserved sample_route (sample_reservation False))
     [Reserves (sample_reservation False)]"
  "sample_moves hijack (Reserved sample_route (sample_reservation False))
     (DialReturned sample_route (sample_reservation False) (Some 7)) [Opens 7]"
  "sample_moves hijack (DialReturned sample_route (sample_reservation False) (Some 7))
     (Connected sample_route (sample_reservation True) 7) [DialDone]"
  by (simp_all add: sample_step_simps sample_requestedRoute sample_not_blocked route_step_def ensureRoute_def
      reserve_step_def reserve_def newSessionLimiter_def limiter_bounds sample_stable_id sample_reservation_def mget_def
      dial_step_def race_events_def sample_ws_dial dialDone_step_def upstreamDialDone_def)

lemma sample_lost:
  "sample_moves HijackFailed (Connected sample_route (sample_reservation True) 7)
     (Leaving (sample_reservation True) None) [Closes 7]"
  "sample_moves HijackFailed (Leaving (sample_reservation True) None) Finished [Releases (sample_reservation True)]"
  by (simp_all add: sample_step_simps hijack_step_def leave_step_def)

lemma ws_run_next:
  assumes "ws_run W x q token ss phase es" and "phase \<noteq> Finished"
    and "\<exists>s' f'. ws_step W x q token s f phase = (s', f', phase', es')"
  shows "ws_run W x q token (ss @ [s]) phase' (es @ es')"
  using assms ws_run_step by metis

lemma sample_ws_connected:
  "ws_run sample_ws (sample_ws_run hijack) sample_ws_request sample_token (replicate 5 sample_server)
     (Connected sample_route (sample_reservation True) 7) [Reserves (sample_reservation False), Opens 7, DialDone]"
proof -
  note start = ws_run_start [of sample_ws "sample_ws_run hijack" sample_ws_request sample_token]
  note checked = ws_run_next [OF start _ sample_steps(1)]
  note routed = ws_run_next [OF checked _ sample_steps(2)]
  note reserved = ws_run_next [OF routed _ sample_steps(3)]
  note dialled = ws_run_next [OF reserved _ sample_steps(4)]
  show ?thesis using ws_run_next [OF dialled _ sample_steps(5)] by (simp add: eval_nat_numeral)
qed

lemma sample_ws_finished:
  "ws_run sample_ws (sample_ws_run HijackFailed) sample_ws_request sample_token (replicate 7 sample_server) Finished sample_events"
proof -
  note leaving = ws_run_next [OF sample_ws_connected _ sample_lost(1)]
  show ?thesis
    using ws_run_next [OF leaving _ sample_lost(2)] by (simp add: sample_events_def eval_nat_numeral)
qed

text \<open>A run that reserves, dials, loses the client at the hijack and leaves.\<close>

theorem websocket_leaks_nothing_witness:
  "opened sample_events = closed sample_events \<and> length (released sample_events) = reserved sample_events
    \<and> dials_done sample_events = reserved sample_events"
  using websocket_leaks_nothing [OF sample_ws_finished] by blast

text \<open>A run whose client is connected, registered and relayed.\<close>

lemma sample_admits:
  "\<exists>c h l. registerSession sample_env sample_start sample_token sample_ws_request n now at = (c, Some h, True, l)"
proof -
  have r: "\<not> refuseSession sample_env sample_start sample_token
      (sessionIdentityDetails sample_env sample_token (Some sample_ws_request))"
    by (simp add: refuseSession_def sample_start_fields sample_token_active list_ex_iff)
  obtain c h l where "enterSession sample_env sample_start
      (sessionIdentityDetails sample_env sample_token (Some sample_ws_request)) sample_ws_request n now at = (c, h, l)"
    by (metis prod_cases3)
  then show ?thesis using r by (simp add: registerSession_def sample_start_enabled Let_def)
qed

lemma sample_ws_bridged:
  obtains phase es where "ws_run sample_ws (sample_ws_run (HijackDone 9)) sample_ws_request sample_token
      (replicate 8 sample_server) phase es" and "Bridges 9 7 \<in> set es"
proof -
  obtain c h l where g: "registerSession sample_env sample_start sample_token sample_ws_request (Suc 0) ''now'' 6 = (c, Some h, True, l)"
    using sample_admits by blast
  have w: "wx_close (sample_ws_run (HijackDone 9)) = Suc 0" "wx_startText (sample_ws_run (HijackDone 9)) = ''now''"
    "wx_startNow (sample_ws_run (HijackDone 9)) = 6" by (simp_all add: sample_ws_run_def)
  have "sample_moves (HijackDone 9) (Connected sample_route (sample_reservation True) 7)
      (Hijacked sample_route (sample_reservation True) 7 9) [Opens 9]"
    by (simp add: sample_step_simps hijack_step_def)
  note hijacked = ws_run_next [OF sample_ws_connected _ this]
  obtain es where "sample_moves (HijackDone 9) (Hijacked sample_route (sample_reservation True) 7 9)
      (Registered sample_route (sample_reservation True) 7 9 (Some h)) es"
    by (simp add: sample_step_simps register_step_def g w)
  note registered = ws_run_next [OF hijacked _ this]
  obtain a where "sample_moves (HijackDone 9) (Registered sample_route (sample_reservation True) 7 9 (Some h))
      (Bridging (sample_reservation True) 7 9 (Some h)) [a, Bridges 9 7]"
    by (simp add: sample_step_simps switch_step_def)
  note bridging = ws_run_next [OF registered _ this, simplified]
  have eight: "replicate 5 sample_server @ [sample_server, sample_server, sample_server] = replicate 8 sample_server"
    by (simp add: eval_nat_numeral)
  from that [OF bridging [unfolded eight]] show thesis by simp
qed

theorem bridge_admitted_witness:
  "validateTelegramAddress ''149.154.167.51:443'' = None \<and> clientTokenActive sample_env sample_start sample_token"
proof -
  obtain phase es where r: "ws_run sample_ws (sample_ws_run (HijackDone 9)) sample_ws_request sample_token
      (replicate 8 sample_server) phase es" "Bridges 9 7 \<in> set es"
    by (rule sample_ws_bridged)
  have ok: "route_runs_ok [''149.154.167.51:443''] 0 (wx_waves (sample_ws_run (HijackDone 9)))"
    by (auto simp: route_runs_ok_def run_ok_def wave_valid_def sample_ws_run_def endpointRaceWidth_def)
  have s: "(replicate 8 sample_server) ! 3 = sample_server" "(replicate 8 sample_server) ! 6 = sample_server"
    by simp_all
  have e: "te_go sample_topoenv = sample_env" "ce_go (sample_codec []) = sample_env" using sample_offered by simp_all
  show ?thesis
    using bridge_admitted [OF r, of sample_dynamic sample_dynamic False "Some ''bundle''" 2] sample_dynamic_Validate
      sample_dynamic_reachable ok
    by (simp add: s e sample_ws_fields sample_offered sample_requestedRoute sample_ws_order sample_ws_dial sample_start_enabled
        del: replicate.simps)
qed

end
