(* ===== verification/Control_Memory.thy ===== *)
theory Control_Memory
  imports Control_Runs
begin

text \<open>
  What the control plane holds in memory only - the active sessions, the cache of locations and the
  lookups under way - and its well-formedness in every reachable world.
\<close>

section \<open>The invariant\<close>

definition sessions_ok :: "(string, sessions) gomap \<Rightarrow> bool" where
  "sessions_ok active \<longleftrightarrow> gomap_ok active \<and> (\<forall>(t, ss) \<in> set active. gomap_ok ss \<and> ss \<noteq> [])"

definition memory_ok :: "controlPlane \<Rightarrow> bool" where
  "memory_ok c \<longleftrightarrow>
     sessions_ok (cp_active c)
     \<and> gomap_ok (cp_locationCache c) \<and> length (cp_locationCache c) \<le> maxLocationCache
     \<and> distinct (cp_locationBusy c)"

text \<open>The part of the control plane the invariant is about.\<close>

definition memory :: "controlPlane \<Rightarrow> (string, sessions) gomap \<times> (string, cachedLocation) gomap \<times> string list" where
  "memory c = (cp_active c, cp_locationCache c, cp_locationBusy c)"

lemma memory_ok_same: "memory c' = memory c \<Longrightarrow> memory_ok c' = memory_ok c"
  by (simp add: memory_def memory_ok_def)

lemma memory_simps [simp]:
  "memory (c\<lparr>cp_state := s\<rparr>) = memory c" "memory (c\<lparr>cp_clientDirty := d\<rparr>) = memory c"
  "memory (c\<lparr>cp_clientFlush := f\<rparr>) = memory c" "memory (c\<lparr>cp_shuttingDown := v\<rparr>) = memory c"
  "memory (setClient c k w) = memory c" "memory (scheduleClientPersist c) = memory c"
  "memory (pruneClients c) = memory c" "memory (touchClient c k now) = memory c"
  by (simp_all add: memory_def setClient_def scheduleClientPersist_def pruneClients_def touchClient_def Let_def
      split: option.split)

section \<open>Operations that leave it alone\<close>

lemma persistLocked_memory:
  assumes "persistLocked C c disk io = (c', disk', fl)"
  shows "memory c' = memory c"
  using assms by (auto simp: persistLocked_def Let_def split: if_splits option.splits prod.splits)

lemma persistCriticalLocked_memory:
  assumes "persistCriticalLocked C c disk io = (c', disk', fl)"
  shows "memory c' = memory c"
  using assms by (auto simp: persistCriticalLocked_def dest!: persistLocked_memory split: prod.splits bool.splits)

lemma prepareIdentity_memory: "prepareIdentity C c disk io = (c', disk', e) \<Longrightarrow> memory c' = memory c"
  by (auto simp: prepareIdentity_def dest: persistCriticalLocked_memory split: if_splits)

lemma createToken_memory:
  assumes "createToken C c disk io name secret key sb ib now = (c', disk', res)"
  shows "memory c' = memory c"
  using assms
  by (auto simp: createToken_def createToken_locked_def Let_def dest!: persistCriticalLocked_memory
      split: if_splits sum.splits prod.splits option.splits bool.splits)

lemma deleteToken_memory:
  assumes "deleteToken C c disk io tokenID = (c', disk', e, closers)"
  shows "memory c' = memory c"
  using assms
  by (auto simp: deleteToken_def Let_def dest!: persistCriticalLocked_memory
      split: if_splits prod.splits option.splits bool.splits)

lemma setDeviceBlocked_memory:
  assumes "setDeviceBlocked C c disk io t d b now = (c', disk', e, closers)"
  shows "memory c' = memory c"
  using assms
  by (auto simp: setDeviceBlocked_def dest!: persistCriticalLocked_memory
      split: if_splits sum.splits prod.splits bool.splits)

lemma flushClientState_memory: "flushClientState C c disk io = (c', disk') \<Longrightarrow> memory c' = memory c"
  by (auto simp: flushClientState_def Let_def dest!: persistLocked_memory split: if_splits prod.splits bool.splits)

lemma shutdown_finish_memory: "shutdown_finish C c disk io = (c', disk', e) \<Longrightarrow> memory c' = memory c"
  by (auto simp: shutdown_finish_def Let_def dest!: persistLocked_memory split: if_splits prod.splits bool.splits)

lemma resolveLocation_cached_memory: "resolveLocation_cached c k ip nowT = (c', b) \<Longrightarrow> memory c' = memory c"
  by (auto simp: resolveLocation_cached_def Let_def split: option.splits if_splits)

lemmas other_memory = prepareIdentity_memory createToken_memory deleteToken_memory setDeviceBlocked_memory
  flushClientState_memory shutdown_finish_memory resolveLocation_cached_memory

lemmas other_memory_ok = other_memory [THEN memory_ok_same]

section \<open>Sessions and locations\<close>

lemma moved_keys: "map fst (map (\<lambda>(k, s). (k, f s)) ss) = map fst ss"
  by (simp add: split_def)

lemma sessions_ok_move:
  assumes "sessions_ok active"
  shows "sessions_ok (moveSessions old new active)"
  unfolding sessions_ok_def
proof
  have "map fst (moveSessions old new active) = map fst active" by (simp add: moveSessions_def split_def)
  then show "gomap_ok (moveSessions old new active)" using assms by (simp add: sessions_ok_def gomap_ok_def)
  show "\<forall>(t, ss) \<in> set (moveSessions old new active). gomap_ok ss \<and> ss \<noteq> []"
  proof (intro ballI, clarify)
    fix t ss
    assume "(t, ss) \<in> set (moveSessions old new active)"
    then obtain ss' where m: "(t, ss') \<in> set active"
      and ss: "ss = map (\<lambda>(k, s). (k, if ts_clientKey s = old then s\<lparr>ts_clientKey := new\<rparr> else s)) ss'"
      by (auto simp: moveSessions_def)
    have "gomap_ok ss'" "ss' \<noteq> []" using assms m by (auto simp: sessions_ok_def)
    then show "gomap_ok ss \<and> ss \<noteq> []" unfolding ss gomap_ok_def moved_keys by simp
  qed
qed

lemma mergeClientKey_memory: "memory_ok c \<Longrightarrow> memory_ok (mergeClientKey c old new t d)"
  by (auto simp: mergeClientKey_def memory_ok_def Let_def sessions_ok_move split: option.split)

lemma migrate_memory: "memory_ok c \<Longrightarrow> memory_ok (migrateClientIdentity E c i r ip)"
proof -
  have "memory_ok c \<Longrightarrow> memory_ok (foldl (\<lambda>c old. if old = new \<or> \<not> mhas (cs_Clients (cp_state c)) old then c
      else mergeClientKey c old new t d) c ks)" for new t d ks c
    by (induction ks arbitrary: c) (simp_all add: mergeClientKey_memory)
  then show "memory_ok c \<Longrightarrow> memory_ok (migrateClientIdentity E c i r ip)"
    by (simp add: migrateClientIdentity_def Let_def)
qed

lemma sessions_ok_add:
  assumes "sessions_ok active"
  shows "sessions_ok (mset_key t (mset_key k s (mget [] active t)) active)"
proof -
  have "gomap_ok (mget [] active t)"
    using assms by (auto simp: sessions_ok_def mget_def split: option.split dest: map_of_SomeD)
  moreover have "mset_key k s ss \<noteq> []" for ss :: sessions by (cases ss) auto
  ultimately show ?thesis
    using assms by (auto simp: sessions_ok_def dest!: set_mset_keyD)
qed

lemma addSession_memory: "memory_ok c \<Longrightarrow> memory_ok (addSession c t s)"
  by (simp add: addSession_def memory_ok_def Let_def sessions_ok_add)

lemma startLocation_memory:
  assumes "startLocation c k w ip nowT = (c', lookup)" and "memory_ok c"
  shows "memory_ok c'"
proof -
  have "memory_ok (scheduleClientPersist (setClient c k v))" for v
    using assms(2) memory_ok_same [of "scheduleClientPersist (setClient c k v)" c] by simp
  then show ?thesis
    using assms
    by (auto simp: startLocation_def Let_def memory_ok_def containsString_def split: if_splits option.splits)
qed

lemma registerSession_memory:
  assumes "registerSession E c token r cl now nowT = (c', h, ok, lookup)" and "memory_ok c"
  shows "memory_ok c'"
proof (cases "c' = c")
  case False
  let ?i = "sessionIdentityDetails E token (Some r)"
  let ?ip = "clientRemoteIP (Some r)"
  let ?m = "migrateClientIdentity E (pruneClients c) ?i r ?ip"
  have m: "memory_ok ?m" using assms(2) memory_ok_same [of "pruneClients c" c] migrate_memory by simp
  obtain k w t s where l: "startLocation (scheduleClientPersist (addSession (setClient ?m k w) t s)) k w ?ip nowT = (c', lookup)"
    using assms(1) False
    by (auto simp: registerSession_def enterSession_def Let_def split: if_splits prod.splits)
  have "memory_ok (setClient ?m k w)" using m memory_ok_same [of "setClient ?m k w" ?m] by simp
  then have "memory_ok (addSession (setClient ?m k w) t s)" by (rule addSession_memory)
  then have "memory_ok (scheduleClientPersist (addSession (setClient ?m k w) t s))"
    using memory_ok_same [of "scheduleClientPersist (addSession (setClient ?m k w) t s)"] by simp
  then show ?thesis using startLocation_memory [OF l] by simp
qed (use assms(2) in simp)

lemma sessions_ok_remove:
  assumes "sessions_ok active" and "map_of active t = Some ss"
  shows "sessions_ok (if mdel k ss = [] then mdel t active else mset_key t (mdel k ss) active)"
proof -
  have "gomap_ok ss" using assms by (auto simp: sessions_ok_def dest: map_of_SomeD)
  then show ?thesis
    using assms(1) by (auto simp: sessions_ok_def dest!: set_mset_keyD)
qed

lemma unregister_memory:
  assumes "unregister c h now = (c', h')" and "memory_ok c"
  shows "memory_ok c'"
proof -
  have r: "memory_ok (removeSession c t k)" for t k
    using assms(2) sessions_ok_remove
    by (auto simp: removeSession_def memory_ok_def split: option.splits if_splits)
  have "memory_ok (scheduleClientPersist (touchClient (removeSession c t k) key now))" for t k key
    using r memory_ok_same [of "scheduleClientPersist (touchClient (removeSession c t k) key now)" "removeSession c t k"] by simp
  then show ?thesis using assms by (auto simp: unregister_def split: if_splits)
qed

lemma storeLocation_memory:
  assumes "memory_ok c"
  shows "memory_ok (storeLocation c ip l nowT)"
proof -
  let ?cache = "cp_locationCache c"
  have c: "gomap_ok ?cache" "length ?cache \<le> maxLocationCache" using assms by (simp_all add: memory_ok_def)
  define rest where "rest = (if length ?cache \<ge> maxLocationCache
    then (case ?cache of [] \<Rightarrow> [] | (key, _) # _ \<Rightarrow> mdel key ?cache) else ?cache)"
  have "gomap_ok rest \<and> length rest < maxLocationCache"
  proof (cases ?cache)
    case Nil
    then show ?thesis by (simp add: rest_def maxLocationCache_def)
  next
    case (Cons kv more)
    obtain k v where kv: "kv = (k, v)" by force
    have "mdel k more = more" using c(1) Cons kv by (auto simp: gomap_ok_def intro: delete_id)
    then show ?thesis using c Cons kv by (auto simp: rest_def gomap_ok_def)
  qed
  then have "gomap_ok (mset_key ip x rest) \<and> length (mset_key ip x rest) \<le> maxLocationCache" for x
    by (simp add: length_mset_key)
  then show ?thesis using assms by (simp add: storeLocation_def memory_ok_def Let_def rest_def)
qed

lemma resolveLocation_store_memory:
  assumes "memory_ok c"
  shows "memory_ok (resolveLocation_store c k ip answer nowT)"
proof -
  have s: "memory_ok (storeLocation c ip l nowT)" for l using assms by (rule storeLocation_memory)
  have "memory_ok (scheduleClientPersist (setClient (storeLocation c ip l nowT) k w))" for l w
    using s memory_ok_same [of "scheduleClientPersist (setClient (storeLocation c ip l nowT) k w)"] by simp
  then show ?thesis using assms s by (simp add: resolveLocation_store_def Let_def split: option.split)
qed

section \<open>Runs\<close>

lemma newControlPlane_memory: "newControlPlane C cfg file raw = Inr c \<Longrightarrow> memory_ok c"
proof -
  have f: "memory_ok c'" if "finishControlPlane cfg raw c = Inr c'" "memory c = ([], [], [])" for c c'
    using that
    by (auto simp: finishControlPlane_def Let_def memory_def memory_ok_def sessions_ok_def split: if_splits option.splits)
  assume "newControlPlane C cfg file raw = Inr c"
  then show "memory_ok c"
    by (auto simp: newControlPlane_def freshControlPlane_def Let_def memory_def intro!: f
        split: if_splits sum.splits option.splits)
qed

lemma memory_step:
  assumes "memory_ok (fst w)" and "control_step C cfg w w'"
  shows "memory_ok (fst w')"
  using assms(2)
proof cases
  case step_register
  then show ?thesis using registerSession_memory assms(1) by simp
next
  case step_unregister
  then show ?thesis using unregister_memory assms(1) by simp
next
  case step_restart
  then show ?thesis using newControlPlane_memory by simp
next
  case (step_store c k ip answer nowT disk)
  then show ?thesis using resolveLocation_store_memory assms(1) by simp
next
  case (step_done c ip disk)
  then show ?thesis using assms(1) by (simp add: resolveLocation_done_def memory_ok_def)
next
  case (step_shutdown c disk)
  then show ?thesis using assms(1) by (simp add: shutdown_begin_def memory_ok_def)
qed (use assms(1) in \<open>simp_all add: other_memory_ok\<close>)

interpretation control_memory: invariant_system "control_init C cfg" "control_step C cfg" "\<lambda>w. memory_ok (fst w)" for C cfg
  by unfold_locales (auto simp: control_init_def intro: newControlPlane_memory memory_step)

text \<open>At most 1024 hashes are added to the configured ones.\<close>

lemma allTokens_limit:
  assumes "tokens_ok E (cp_baseTokens c) (cp_state c)"
    and "hashes_ok E (cp_baseTokens c @ cs_AddedTokens (cp_state c))"
  shows "length (allTokens E c) \<le> length (cp_baseTokens c) + 1024"
proof -
  let ?base = "token_hashes E (cp_baseTokens c)" and ?added = "token_hashes E (cs_AddedTokens (cp_state c))"
  have "card (active_hashes E c) \<le> card (set ?base \<union> (set ?added - set ?base))"
    by (intro card_mono) (auto simp: active_hashes_def token_hashes_def)
  also have "\<dots> \<le> card (set ?base) + card (set ?added - set ?base)" by (rule card_Un_le)
  also have "\<dots> \<le> length ?base + 1024"
    using assms(1) card_length [of ?base] by (simp add: tokens_ok_def)
  finally show ?thesis by (simp add: length_allTokens [OF assms(2)] token_hashes_def)
qed

text \<open>
  Claim C6. The owner state is well formed, the part that is written and the part in memory only. In
  every world the control plane can reach, by any operations of the owner and the clients (creations
  with a known or a revoked secret included), with failing writes and restarts anywhere: the lists of
  revocations, deletions and clients keep their limits; the hashes of added tokens are canonical, only
  configured hashes are revoked, and the tokens the relay lists have distinct hashes, none of them
  revoked, at most 1024 more than the configuration has; each client stands under the key made of its
  token and device, each block names a tracked client and holds its time; each token with sessions has
  at least one, every session once; the location cache keeps its limit and no lookup of an address runs
  twice.
\<close>

theorem owner_state_well_formed:
  assumes "reachable (control_init C cfg) (control_step C cfg) (c, disk)"
  shows "cs_Version (cp_state c) = controlStateVersion \<and> ValidInstanceID (cs_InstanceID (cp_state c))
    \<and> length (cs_RevokedHashes (cp_state c)) \<le> 2048 \<and> length (cs_DeletedTokenIDs (cp_state c)) \<le> 2048
    \<and> length (cs_Clients (cp_state c)) \<le> maxTrackedClients
    \<and> (\<forall>t \<in> set (cs_AddedTokens (cp_state c)). canonical_hash (tk_Hash t) \<and> hasPrefix (tk_Hash t) ''sha256:'')
    \<and> set (cs_RevokedHashes (cp_state c)) \<subseteq> set (token_hashes (ce_go C) (cp_baseTokens c))
    \<and> distinct (map tk_Hash (allTokens (ce_go C) c))
    \<and> (\<forall>u \<in> set (allTokens (ce_go C) c). tk_Hash u \<notin> set (cs_RevokedHashes (cp_state c)))
    \<and> length (allTokens (ce_go C) c) \<le> length (cp_baseTokens c) + 1024
    \<and> distinct (map fst (cs_Clients (cp_state c)))
    \<and> (\<forall>(k, client) \<in> set (cs_Clients (cp_state c)).
         tc_Key client = k \<and> k = tc_TokenID client @ '':'' @ tc_DeviceID client)
    \<and> distinct (map fst (cs_BlockedDevices (cp_state c)))
    \<and> (\<forall>(k, at) \<in> set (cs_BlockedDevices (cp_state c)).
         mhas (cs_Clients (cp_state c)) k \<and> ge_rfc3339 (ce_go C) at \<noteq> None)
    \<and> distinct (map fst (cp_active c)) \<and> (\<forall>(t, ss) \<in> set (cp_active c). ss \<noteq> [] \<and> distinct (map fst ss))
    \<and> distinct (map fst (cp_locationCache c)) \<and> length (cp_locationCache c) \<le> maxLocationCache
    \<and> distinct (cp_locationBusy c)"
proof -
  note r = reachable_control [OF assms] and ok = reachable_control(1) [OF assms]
  have base: "cp_baseTokens c = cf_Tokens cfg" using control_okD(1) [OF ok] by (simp add: settings_ok_def)
  have s: "state_ok (ce_go C) cfg (cp_state c)" using control_okD(2) [OF ok] .
  have m: "memory_ok c" using control_memory.inv_reachable [OF assms] by simp
  have "tk_Hash u \<notin> set (cs_RevokedHashes (cp_state c))" if "u \<in> set (allTokens (ce_go C) c)" for u
    using that active_hashes_allTokens [OF r(3)] by (auto simp: active_hashes_def)
  moreover have "length (allTokens (ce_go C) c) \<le> length (cp_baseTokens c) + 1024"
    using allTokens_limit [OF _ r(3)] control_okD(6) [OF ok] by (simp add: base)
  moreover have "set (cs_RevokedHashes (cp_state c)) \<subseteq> set (token_hashes (ce_go C) (cp_baseTokens c))"
    "\<forall>t \<in> set (cs_AddedTokens (cp_state c)). canonical_hash (tk_Hash t) \<and> hasPrefix (tk_Hash t) ''sha256:''"
    using control_okD(6) [OF ok] by (simp_all add: base tokens_ok_def added_ok_def canonical_hash_def)
  ultimately show ?thesis
    using s m distinct_allTokens [OF r(3)]
    by (auto simp: state_ok_def instance_ok_def tokens_ok_def devices_ok_def clients_ok_def
        client_ok_def blocked_ok_def rfc_text_def memory_ok_def sessions_ok_def gomap_ok_def)
qed

end
