(* ===== verification/Control_Shutdown.thy ===== *)
theory Control_Shutdown
  imports Control_Memory Session_Props
begin

text \<open>
  The wait between the two sections of \<open>shutdown\<close> in \<open>internal/relay/control_plane.go\<close>, and what the
  whole of it achieves while the other goroutines go on.
\<close>

section \<open>The wait\<close>

definition shutdownWait :: gotime where "shutdownWait = 2 * second"
definition shutdownPoll :: gotime where "shutdownPoll = 10 * (second div 1000)"

definition active_sessions :: "controlPlane \<Rightarrow> nat" where
  "active_sessions c = sum_list (map (\<lambda>(t, ss). length ss) (cp_active c))"

text \<open>
  The loop on what its rounds find: the clock and, if it goes on, the control plane it then locks. The
  answer is the number of looks it took, none when the rounds given do not end it.
\<close>

fun shutdown_wait :: "gotime \<Rightarrow> (gotime \<times> controlPlane) list \<Rightarrow> nat option" where
  "shutdown_wait deadline [] = None"
| "shutdown_wait deadline ((now, c) # rounds) =
     (if \<not> now < deadline then Some 0
      else if active_sessions c = 0 then Some 1
      else map_option Suc (shutdown_wait deadline rounds))"

lemma no_session_ids:
  assumes "active_sessions c = 0"
  shows "session_ids c = {}"
proof -
  have "ss = []" if "(t, ss) \<in> set (cp_active c)" for t ss
    using assms that by (auto simp: active_sessions_def)
  then have "mget [] (cp_active c) t = []" for t
    by (auto simp: mget_def split: option.split dest: map_of_SomeD)
  then show ?thesis by (intro session_ids_eqI) (simp add: in_session_ids)
qed

lemma store_active: "cp_active (resolveLocation_store c k ip answer nowT) = cp_active c"
  by (simp add: resolveLocation_store_def storeLocation_def setClient_def scheduleClientPersist_def Let_def
      split: option.split)

lemma shutdown_wait_ends:
  assumes "deadline \<le> start + int n * shutdownPoll" and "n < length rounds"
    and "successively (\<lambda>a b. fst a + shutdownPoll \<le> fst b) rounds" and "start \<le> fst (hd rounds)"
  shows "\<exists>k \<le> n. shutdown_wait deadline rounds = Some k"
  using assms
proof (induction n arbitrary: start rounds)
  case 0
  then show ?case by (cases rounds) auto
next
  case (Suc n)
  then obtain now c rest where r: "rounds = (now, c) # rest" by (cases rounds) auto
  then have l: "n < length rest" using Suc.prems(2) by simp
  then have "rest \<noteq> []" by auto
  then have "now + shutdownPoll \<le> fst (hd rest)" "successively (\<lambda>a b. fst a + shutdownPoll \<le> fst b) rest"
    using Suc.prems(3) r by (auto simp: successively_Cons)
  moreover have "deadline \<le> now + shutdownPoll + int n * shutdownPoll"
    using Suc.prems(1,4) r by (simp add: algebra_simps)
  ultimately obtain k where "k \<le> n" "shutdown_wait deadline rest = Some k"
    using Suc.IH [of "now + shutdownPoll" rest] l by auto
  then show ?case unfolding r by auto
qed

section \<open>The other goroutines\<close>

text \<open>A step of the process while it shuts down; a restart is not one, it clears the mark.\<close>

definition closing_step :: "controlenv \<Rightarrow> Config \<Rightarrow> world \<Rightarrow> world \<Rightarrow> bool" where
  "closing_step C cfg w w' \<longleftrightarrow> control_step C cfg w w' \<and> cp_shuttingDown (fst w')"

lemma memory_sessions: "memory c' = memory c \<Longrightarrow> session_ids c' = session_ids c"
  by (rule session_ids_active) (simp add: memory_def)

lemmas other_memory_sessions = other_memory [THEN memory_sessions]

lemma newControlPlane_running: "newControlPlane C cfg file raw = Inr c \<Longrightarrow> \<not> cp_shuttingDown c"
proof -
  have f: "cp_shuttingDown c' = cp_shuttingDown c" if "finishControlPlane cfg raw c = Inr c'" for c c'
    using that by (auto simp: finishControlPlane_def Let_def split: if_splits option.splits)
  assume "newControlPlane C cfg file raw = Inr c"
  then show ?thesis
    by (auto simp: newControlPlane_def freshControlPlane_def Let_def dest!: f split: if_splits sum.splits option.splits)
qed

text \<open>Registration is refused under the mark.\<close>

lemma refused_closing:
  assumes "cp_shuttingDown c" and "cp_enabled c"
  shows "registerSession E c token r cl now nowT = (c, None, False, None)"
  using assms by (simp add: registerSession_def refuseSession_def Let_def)

lemma closing_sessions:
  assumes "cp_shuttingDown (fst w)" and "cp_enabled (fst w)" and "closing_step C cfg w w'"
  shows "session_ids (fst w') \<subseteq> session_ids (fst w)"
proof -
  have "control_step C cfg w w'" and s: "cp_shuttingDown (fst w')" using assms(3) by (simp_all add: closing_step_def)
  then show ?thesis
  proof cases
    case step_register
    then show ?thesis using refused_closing assms(1,2) by auto
  next
    case (step_unregister c h now c' h' disk)
    then show ?thesis using unregister_sessions(1) by (cases "sh_done h") (auto simp: unregister_def)
  next
    case step_restart
    then show ?thesis using newControlPlane_running s by auto
  next
    case step_store
    then show ?thesis using session_ids_active [OF store_active] by simp
  next
    case step_done
    then show ?thesis by (simp add: session_ids_def resolveLocation_done_def)
  next
    case step_shutdown
    then show ?thesis by (simp add: session_ids_def shutdown_begin_def)
  qed (use other_memory_sessions in \<open>simp_all, blast?\<close>)
qed

lemma closing_run:
  assumes "reachable (control_init C cfg) (control_step C cfg) w" and "cp_shuttingDown (fst w)"
    and "(closing_step C cfg)\<^sup>*\<^sup>* w w'"
  shows "reachable (control_init C cfg) (control_step C cfg) w' \<and> cp_shuttingDown (fst w')
    \<and> session_ids (fst w') \<subseteq> session_ids (fst w)"
  using assms(3)
proof (induction rule: rtranclp_induct)
  case base
  then show ?case using assms(1,2) by simp
next
  case (step v u)
  have "cp_enabled (fst v)" using step.IH reachable_control(5) [of C cfg "fst v" "snd v"] by simp
  then have "session_ids (fst u) \<subseteq> session_ids (fst v)" using closing_sessions step by blast
  moreover have "reachable (control_init C cfg) (control_step C cfg) u"
    using step.IH step.hyps(2) by (auto simp: closing_step_def intro: reachable_step)
  ultimately show ?case using step by (auto simp: closing_step_def)
qed

section \<open>The theorem\<close>

text \<open>
  Claim C23. A shutdown ends, whatever the clients do. From any reachable state: \<open>shutdown\<close> calls the
  close function of every session there is; from then on, through any operations of the process, no
  session is added and every registration is refused; the wait for the sessions takes at most two
  hundred looks, each at least ten milliseconds after the one before, and the last write reports an
  error or leaves the present state on disk.
\<close>

theorem shutdown_drains:
  assumes "reachable (control_init C cfg) (control_step C cfg) (c, disk)"
    and "shutdown_begin c = (closing, closers)" and "(closing_step C cfg)\<^sup>*\<^sup>* (closing, disk) (c', disk')"
    and "200 < length rounds" and "successively (\<lambda>a b. fst a + shutdownPoll \<le> fst b) rounds"
    and "start \<le> fst (hd rounds)"
  shows "(\<forall>(t, ss) \<in> set (cp_active c). \<forall>(k, s) \<in> set ss. \<forall>f. ts_close s = Some f \<longrightarrow> f \<in> set closers)
    \<and> session_ids c' \<subseteq> session_ids c
    \<and> registerSession (ce_go C) c' token r cl now nowT = (c', None, False, None)
    \<and> (\<exists>looks \<le> 200. shutdown_wait (start + shutdownWait) rounds = Some looks)
    \<and> (\<forall>io c'' disk'' failed. shutdown_finish C c' disk' io = (c'', disk'', failed) \<longrightarrow>
         failed \<or> \<not> cp_clientDirty c'' \<and> (cp_clientDirty c' \<longrightarrow> disk'' = ce_marshalState C (cp_state c')))"
proof -
  have b: "closing = c\<lparr>cp_shuttingDown := True\<rparr>"
    and f: "closers = concat (map (\<lambda>(t, ss). session_closers (\<lambda>_. True) ss) (cp_active c))"
    using assms(2) by (simp_all add: shutdown_begin_def)
  have "control_step C cfg (c, disk) (closing, disk)" using step_shutdown [of C cfg c disk] assms(2) by simp
  then have "reachable (control_init C cfg) (control_step C cfg) (closing, disk)"
    using assms(1) by (blast intro: reachable_step)
  from closing_run [OF this _ assms(3)] have r: "reachable (control_init C cfg) (control_step C cfg) (c', disk')"
    and s: "cp_shuttingDown c'" and i: "session_ids c' \<subseteq> session_ids closing" by (simp_all add: b)
  have "session_ids closing = session_ids c" by (rule session_ids_active) (simp add: b)
  moreover have "\<forall>(t, ss) \<in> set (cp_active c). \<forall>(k, s) \<in> set ss. \<forall>f. ts_close s = Some f \<longrightarrow> f \<in> set closers"
  proof clarify
    fix t ss k s g
    assume "(t, ss) \<in> set (cp_active c)" "(k, s) \<in> set ss" "ts_close s = Some g"
    moreover from this have "g \<in> set (session_closers (\<lambda>_. True) ss)"
      unfolding session_closers_def set_concat set_map by (intro UN_I [of "(k, s)"] UN_I [OF imageI]) auto
    ultimately show "g \<in> set closers"
      unfolding f set_concat set_map by (intro UN_I [OF imageI]) auto
  qed
  moreover have "\<exists>looks \<le> 200. shutdown_wait (start + shutdownWait) rounds = Some looks"
    using shutdown_wait_ends [of "start + shutdownWait" start 200 rounds] assms(4-6)
    by (simp add: shutdownWait_def shutdownPoll_def second_def)
  moreover have "failed \<or> \<not> cp_clientDirty c'' \<and> (cp_clientDirty c' \<longrightarrow> disk'' = ce_marshalState C (cp_state c'))"
    if "shutdown_finish C c' disk' io = (c'', disk'', failed)" for io c'' disk'' failed
    using shutdown_finish_writes [OF r that] by blast
  ultimately show ?thesis using i refused_closing [OF s reachable_control(5) [OF r]] by blast
qed

end
