(* ===== verification/Bridge_Idle.thy ===== *)
theory Bridge_Idle
  imports Bridge_Life
begin

text \<open>
  The idle watchdog of a bridge: what counts as activity, and when a silent bridge is closed.
\<close>

section \<open>Activity\<close>

text \<open>A turn is activity when it carries data: bytes of telegram, or a binary message of the client.\<close>

definition carries_data :: "bridge \<Rightarrow> bridgeTurn \<Rightarrow> gotime option" where
  "carries_data b t =
     (case t of
        TelegramRead now data err \<Rightarrow> if br_relaying b \<and> data \<noteq> [] then Some now else None
      | ClientEvent now \<Rightarrow> if opBinary \<in> set (map fst (event_at b t)) then Some now else None
      | _ \<Rightarrow> None)"

fun last_data :: "bridgeSettings \<Rightarrow> bridgeWrites \<Rightarrow> bridge \<Rightarrow> gotime \<Rightarrow> bridgeTurn list \<Rightarrow> gotime" where
  "last_data settings io b active [] = active"
| "last_data settings io b active (t # ts) =
     last_data settings io (bridge_turn settings io b t)
       (case carries_data b t of None \<Rightarrow> active | Some now \<Rightarrow> now) ts"

lemma writes_activity [simp]:
  "br_lastActivity (fst (sendFrame io opc p b)) = br_lastActivity b"
  "br_lastActivity (fst (sendTelegram io p b)) = br_lastActivity b"
  "br_lastActivity (sendClose io st re b) = br_lastActivity b"
  "br_lastActivity (stopReading b) = br_lastActivity b" "br_lastActivity (closeBoth b) = br_lastActivity b"
  "br_lastActivity (pong_turn p b) = br_lastActivity b" "br_lastActivity (clear_expected b) = br_lastActivity b"
  by (simp_all add: sendFrame_def sendTelegram_def sendClose_def stopReading_def closeBoth_def pong_turn_def
      clear_expected_def Let_def split: prod.splits)

lemma event_activity:
  "br_lastActivity (event_turn io now opc p b) = (if opc = opBinary then now else br_lastActivity b)"
proof -
  obtain b1 ok1 where b1: "sendTelegram io p (b\<lparr>br_lastActivity := now\<rparr>) = (b1, ok1)" by force
  obtain b2 ok2 where b2: "sendFrame io opClose p b = (b2, ok2)" by force
  obtain b3 ok3 where b3: "sendFrame io opPong p b = (b3, ok3)" by force
  have "br_lastActivity b1 = now" "br_lastActivity b2 = br_lastActivity b" "br_lastActivity b3 = br_lastActivity b"
    using writes_activity(2) [of io p "b\<lparr>br_lastActivity := now\<rparr>"] writes_activity(1) [of io opClose p b]
      writes_activity(1) [of io opPong p b] b1 b2 b3 by simp_all
  then show ?thesis
    using b1 b2 b3 by (simp add: event_turn_def Let_def split: option.splits prod.splits)
qed

lemma turn_activity:
  "br_lastActivity (bridge_turn settings io b t) =
     (case carries_data b t of None \<Rightarrow> br_lastActivity b | Some now \<Rightarrow> now)"
proof (cases t)
  case (TelegramRead now data err)
  obtain b1 ok where b1: "sendFrame io opBinary data (b\<lparr>br_lastActivity := now\<rparr>) = (b1, ok)" by force
  then have "br_lastActivity b1 = now" using writes_activity(1) [of io opBinary data "b\<lparr>br_lastActivity := now\<rparr>"] by simp
  then show ?thesis
    using TelegramRead b1 by (simp add: relay_turn_def carries_data_def Let_def split: option.splits)
next
  case (ClientEvent now)
  obtain r' res where n: "nextEvent (br_frames b) = (r', res)" by force
  have e: "event_at b t = (if br_reading b then case res of Inr e \<Rightarrow> [e] | Inl e \<Rightarrow> [] else [])"
    using ClientEvent n by (simp add: event_at_def)
  have c: "br_lastActivity (client_turn io now b) =
      (if br_reading b then case res of Inl e \<Rightarrow> br_lastActivity b
         | Inr (opc, p) \<Rightarrow> if opc = opBinary then now else br_lastActivity b else br_lastActivity b)"
    unfolding client_turn_def n by (simp add: event_activity split_beta split: sum.split)
  have d: "carries_data b t = (if opBinary \<in> set (map fst (event_at b t)) then Some now else None)"
    unfolding ClientEvent carries_data_def by simp
  have r: "br_lastActivity (bridge_turn settings io b t) = br_lastActivity (client_turn io now b)"
    unfolding ClientEvent by simp
  show ?thesis
    unfolding r c d e by (cases res; cases "br_reading b") (simp_all add: split_beta)
next
  case Tick
  let ?b = "b\<lparr>br_sequence := br_sequence b + 1, br_expectedPong := br_sequence b + 1\<rparr>"
  obtain b1 ok where b1: "sendFrame io opPing (put_uint64 (br_sequence b + 1)) ?b = (b1, ok)" by force
  then have "br_lastActivity b1 = br_lastActivity b"
    using writes_activity(1) [of io opPing "put_uint64 (br_sequence b + 1)" ?b] by simp
  then show ?thesis using Tick b1 by (simp add: tick_turn_def carries_data_def Let_def)
qed (simp_all add: timer_turn_def watch_turn_def done_turn_def carries_data_def Let_def)

lemma run_activity:
  "br_lastActivity (foldl (bridge_turn settings io) b ts) = last_data settings io b (br_lastActivity b) ts"
  by (induction ts arbitrary: b) (simp_all add: turn_activity)

section \<open>The ticks\<close>

lemma watch_interval_bounds:
  assumes "0 < timeout"
  shows "0 < watch_interval timeout" and "watch_interval timeout \<le> 5 * second"
    and "4 * watch_interval timeout \<le> max timeout (400 * (second div 1000))"
proof -
  have "4 * (timeout div 4) \<le> timeout" by simp
  then show "0 < watch_interval timeout" "watch_interval timeout \<le> 5 * second"
    "4 * watch_interval timeout \<le> max timeout (400 * (second div 1000))"
    by (auto simp: watch_interval_def second_def Let_def)
qed

text \<open>A ticker that started no later than some moment ticks within one interval after any later deadline.\<close>

lemma tick_after:
  fixes start deadline interval :: int
  assumes "0 < interval" and "start < deadline"
  shows "\<exists>k \<ge> 1. deadline \<le> start + int k * interval \<and> start + int k * interval < deadline + interval"
proof -
  define k where "k = (deadline - start + interval - 1) div interval"
  have m: "k * interval = deadline - start + interval - 1 - (deadline - start + interval - 1) mod interval"
    unfolding k_def by (simp add: minus_mod_eq_div_mult)
  have r: "0 \<le> (deadline - start + interval - 1) mod interval" "(deadline - start + interval - 1) mod interval < interval"
    using assms(1) by simp_all
  have "1 \<le> k" unfolding k_def using assms by (simp add: pos_imp_zdiv_pos_iff int_one_le_iff_zero_less)
  then have "1 \<le> nat k" "int (nat k) = k" by simp_all
  then show ?thesis using m r by (intro exI [of _ "nat k"]) auto
qed

text \<open>
  Claim C25. The idle watchdog closes the bridges that carry no data and no others. In a bridge with an
  idle timeout, after any turns of its goroutines, a tick of the watchdog closes a bridge that was open
  exactly if the timeout has passed since the last data in either direction (pings, pongs and other
  control frames do not count); and its ticker, which starts with the bridge, has a tick between the
  moment the timeout is reached and one interval later, where the interval is at most five seconds
  and at most a quarter of the timeout (or 100 milliseconds).
\<close>

theorem idle_watchdog:
  assumes "0 < bs_idleTimeout settings"
    and "before = bridgeWebSocket settings io input start turns"
    and "active = last_data settings io (startBridge settings input start) start turns" and "start \<le> active"
  shows "(br_done (bridge_turn settings io before (WatchTick now))
           \<longleftrightarrow> br_done before \<or> bs_idleTimeout settings \<le> now - active)
    \<and> (\<exists>k \<ge> 1. active + bs_idleTimeout settings \<le> start + int k * watch_interval (bs_idleTimeout settings)
         \<and> start + int k * watch_interval (bs_idleTimeout settings)
             < active + bs_idleTimeout settings + watch_interval (bs_idleTimeout settings))
    \<and> watch_interval (bs_idleTimeout settings) \<le> 5 * second
    \<and> 4 * watch_interval (bs_idleTimeout settings) \<le> max (bs_idleTimeout settings) (400 * (second div 1000))"
proof -
  let ?start = "startBridge settings input start"
  note i = watch_interval_bounds [OF assms(1)]
  have "br_lastActivity before = active"
    using run_activity [of settings io ?start turns] assms(2,3) by (simp add: bridgeWebSocket_def startBridge_def)
  moreover have "br_done before" if "\<not> br_watching before"
    using run_lives [of ?start settings io turns] that assms(1,2)
    by (auto simp: lives_def running_def bridgeWebSocket_def startBridge_def)
  ultimately have "br_done (bridge_turn settings io before (WatchTick now))
      \<longleftrightarrow> br_done before \<or> bs_idleTimeout settings \<le> now - active"
    by (auto simp: watch_turn_def closeBoth_def)
  then show ?thesis using tick_after [OF i(1), of start "active + bs_idleTimeout settings"] i assms(1,4) by auto
qed

end
