(* ===== verification/Ws_Server.thy ===== *)
theory Ws_Server
  imports Ws_Props
begin

text \<open>
  All the WebSocket handlers of a server at once. Each is a run of \<open>handleWebSocket\<close> on the one server;
  in between, the owner, the timers and the other endpoints may change whatever they like except the
  session limiter, which only the handlers use.
\<close>

section \<open>The concurrent server\<close>

record handler =
  hd_run :: wsRun
  hd_request :: request
  hd_token :: Token
  hd_phase :: wsPhase

record wsServer =
  ws_server :: server
  ws_file :: "string option"
  ws_handlers :: "handler list"

definition ws_init :: "wsServer \<Rightarrow> bool" where
  "ws_init S \<longleftrightarrow> sv_sessions (ws_server S) = newSessionLimiter \<and> ws_handlers S = []"

inductive ws_server_step :: "wsEnv \<Rightarrow> wsServer \<Rightarrow> wsServer \<Rightarrow> bool" for W where
  arrives: "hd_phase h = Start \<Longrightarrow> ws_server_step W S (S\<lparr>ws_handlers := ws_handlers S @ [h]\<rparr>)"
| handler_turn: "i < length (ws_handlers S) \<Longrightarrow> h = ws_handlers S ! i \<Longrightarrow> hd_phase h \<noteq> Finished \<Longrightarrow>
    ws_step W (hd_run h) (hd_request h) (hd_token h) (ws_server S) (ws_file S) (hd_phase h) = (s, file, phase, es) \<Longrightarrow>
    ws_server_step W S (S\<lparr>ws_server := s, ws_file := file, ws_handlers := (ws_handlers S)[i := h\<lparr>hd_phase := phase\<rparr>]\<rparr>)"
| elsewhere: "sv_sessions s = sv_sessions (ws_server S) \<Longrightarrow>
    ws_server_step W S (S\<lparr>ws_server := s, ws_file := file\<rparr>)"

section \<open>What a step does to the limiter\<close>

definition holds :: "handler \<Rightarrow> bool" where
  "holds h \<longleftrightarrow> reservation_of (hd_phase h) \<noteq> None"

definition dialling :: "handler \<Rightarrow> bool" where
  "dialling h \<longleftrightarrow> dial_pending (hd_phase h)"

definition holds_for :: "goenv \<Rightarrow> string \<Rightarrow> handler \<Rightarrow> bool" where
  "holds_for E t h \<longleftrightarrow> holds h \<and> StableTokenID E (hd_token h) = t"

definition handler_ok :: "goenv \<Rightarrow> handler \<Rightarrow> bool" where
  "handler_ok E h \<longleftrightarrow> phase_ok (hd_phase h)
     \<and> (\<forall>r. reservation_of (hd_phase h) = Some r \<longrightarrow> sr_tokenID r = StableTokenID E (hd_token h))"

lemma limiter_effect:
  assumes "ws_step W x q token s f phase = (s', f', phase', es)" and "phase_ok phase" and "phase \<noteq> Finished"
  obtains (keeps) "sv_sessions s' = sv_sessions s" "reservation_of phase' = reservation_of phase"
      "dial_pending phase' = dial_pending phase"
    | (reserves) r status where
      "reserve (sv_sessions s) (StableTokenID (ce_go (we_control W)) token) = (sv_sessions s', Some r, status)"
      "reservation_of phase = None" "\<not> dial_pending phase" "reservation_of phase' = Some r" "dial_pending phase'"
    | (dialled) r where "reservation_of phase = Some r" "dial_pending phase"
      "sv_sessions s' = (sv_sessions s)\<lparr>sl_pending := sl_pending (sv_sessions s) - 1\<rparr>"
      "reservation_of phase' = Some (r\<lparr>sr_dialDone := True\<rparr>)" "\<not> dial_pending phase'"
    | (releases) r where "reservation_of phase = Some r" "\<not> dial_pending phase" "sr_dialDone r" "\<not> sr_released r"
      "sv_sessions s' = fst (release (sv_sessions s) (Some r))" "reservation_of phase' = None" "\<not> dial_pending phase'"
proof (cases phase)
  case Start
  then show ?thesis using assms(1) by (intro keeps) (auto simp: step_defs split: sum.splits if_splits)
next
  case (Checked rt)
  then show ?thesis using assms(1) by (intro keeps) (auto simp: step_defs split: prod.splits if_splits)
next
  case (Routed rt)
  obtain l res status where r: "reserve (sv_sessions s) (StableTokenID (ce_go (we_control W)) token) = (l, res, status)"
    by (metis prod_cases3)
  show ?thesis
  proof (cases res)
    case None
    then have "l = sv_sessions s" using r reserve_refused_same by blast
    then show ?thesis using Routed assms(1) r None by (intro keeps) (auto simp: step_defs)
  next
    case (Some v)
    then show ?thesis using Routed assms(1) r by (intro reserves [of v status]) (auto simp: step_defs)
  qed
next
  case (Reserved rt r)
  then show ?thesis using assms(1) by (intro keeps) (auto simp: step_defs split: prod.splits sum.splits)
next
  case (DialReturned rt r d)
  then have "\<not> sr_dialDone r" using assms(2) by (simp add: phase_ok_def)
  then show ?thesis
    using DialReturned assms(1) by (intro dialled [of r]) (cases d; auto simp: step_defs upstreamDialDone_def)+
next
  case (Connected rt r telegram)
  then show ?thesis using assms(1) by (intro keeps) (cases "wx_hijack x"; auto simp: step_defs)+
next
  case (Hijacked rt r telegram client)
  obtain c h ok l where g: "registerSession (ce_go (we_control W)) (sv_control s) token q (wx_close x) (wx_startText x)
      (wx_startNow x) = (c, h, ok, l)" by (metis prod_cases4)
  show ?thesis using Hijacked assms(1) g by (intro keeps) (cases ok; auto simp: step_defs)+
next
  case (Registered rt r telegram client h)
  then show ?thesis using assms(1) by (intro keeps) (auto simp: step_defs split: if_splits)
next
  case (Bridging r telegram client h)
  then show ?thesis using assms(1) by (intro keeps) (auto simp: step_defs)
next
  case (Leaving r h)
  then have ok: "sr_dialDone r" "\<not> sr_released r" using assms(2) by (simp_all add: phase_ok_def)
  show ?thesis
  proof (cases h)
    case None
    then show ?thesis using Leaving assms(1) ok by (intro releases [of r]) (auto simp: step_defs)
  next
    case (Some v)
    then show ?thesis using Leaving assms(1) by (intro keeps) (auto simp: step_defs)
  qed
qed (use assms(3) in simp)

section \<open>The invariant\<close>

definition ws_inv :: "wsEnv \<Rightarrow> wsServer \<Rightarrow> bool" where
  "ws_inv W S \<longleftrightarrow>
     (let l = sv_sessions (ws_server S); hs = ws_handlers S; E = ce_go (we_control W) in
        (\<forall>h \<in> set hs. handler_ok E h)
      \<and> sl_active l = count_if holds hs \<and> sl_pending l = count_if dialling hs
      \<and> (\<forall>t. mget 0 (sl_byToken l) t = count_if (holds_for E t) hs)
      \<and> (\<forall>t. mhas (sl_byToken l) t \<longrightarrow> 0 < mget 0 (sl_byToken l) t)
      \<and> sl_active l \<le> maxRelaySessions \<and> sl_pending l \<le> maxPendingUpstreamDials
      \<and> (\<forall>t. mget 0 (sl_byToken l) t \<le> maxRelaySessionsPerToken))"

lemma reserve_grants:
  assumes "reserve l t = (l', Some r, status)"
  shows "sr_tokenID r = t" "sl_active l' = sl_active l + 1" "sl_pending l' = sl_pending l + 1"
    "sl_byToken l' = mset_key t (mget 0 (sl_byToken l) t + 1) (sl_byToken l)"
    "sl_active l < maxRelaySessions" "sl_pending l < maxPendingUpstreamDials"
    "mget 0 (sl_byToken l) t < maxRelaySessionsPerToken"
  using assms by (auto simp: reserve_def split: if_splits)

lemmas handler_simps = holds_def dialling_def holds_for_def

lemma handler_turn_inv:
  assumes inv: "ws_inv W S" and i: "i < length (ws_handlers S)" and h: "h = ws_handlers S ! i"
    and fin: "hd_phase h \<noteq> Finished"
    and step: "ws_step W (hd_run h) (hd_request h) (hd_token h) (ws_server S) (ws_file S) (hd_phase h) = (s, file, phase, es)"
  shows "ws_inv W (S\<lparr>ws_server := s, ws_file := file, ws_handlers := (ws_handlers S)[i := h\<lparr>hd_phase := phase\<rparr>]\<rparr>)"
proof -
  let ?E = "ce_go (we_control W)" and ?l = "sv_sessions (ws_server S)" and ?hs = "ws_handlers S"
  let ?h = "h\<lparr>hd_phase := phase\<rparr>"
  have mem: "h \<in> set ?hs" using i h by simp
  then have ok: "phase_ok (hd_phase h)"
    and tok: "\<And>r. reservation_of (hd_phase h) = Some r \<Longrightarrow> sr_tokenID r = StableTokenID ?E (hd_token h)"
    using inv by (auto simp: ws_inv_def Let_def handler_ok_def)
  have ok': "phase_ok phase" using step_balanced [OF step ok fin] by simp
  have rest: "\<forall>g \<in> set (?hs[i := ?h]). g = ?h \<or> handler_ok ?E g"
    using inv set_update_subset_insert [of ?hs i ?h] by (auto simp: ws_inv_def Let_def)
  have count: "count_if P (?hs[i := ?h]) = count_if P ?hs - of_bool (P h) + of_bool (P ?h)" for P
    using count_if_update [OF i] h by simp
  note I = inv [unfolded ws_inv_def Let_def]
  from step ok fin show ?thesis
  proof (cases rule: limiter_effect)
    case keeps
    then have "handler_ok ?E ?h" using ok' tok by (simp add: handler_ok_def)
    then show ?thesis
      using I rest keeps by (auto simp: ws_inv_def Let_def count handler_simps)
  next
    case (reserves r status)
    note l = reserve_grants [OF reserves(1)]
    have "handler_ok ?E ?h" using ok' reserves l(1) by (simp add: handler_ok_def)
    then show ?thesis
      using I rest reserves l by (auto simp: ws_inv_def Let_def count handler_simps)
  next
    case (dialled r)
    then have "handler_ok ?E ?h" using ok' tok by (simp add: handler_ok_def)
    then show ?thesis
      using I rest dialled by (auto simp: ws_inv_def Let_def count handler_simps)
  next
    case (releases r)
    let ?t = "StableTokenID ?E (hd_token h)"
    let ?n = "mget 0 (sl_byToken ?l) ?t - 1"
    have l: "sl_active (sv_sessions s) = sl_active ?l - 1" "sl_pending (sv_sessions s) = sl_pending ?l"
      "sl_byToken (sv_sessions s) = (if ?n \<le> 0 then mdel ?t (mset_key ?t ?n (sl_byToken ?l)) else mset_key ?t ?n (sl_byToken ?l))"
      using releases tok by (simp_all add: release_def Let_def)
    have "1 \<le> count_if (holds_for ?E ?t) ?hs"
      using count_if_pos [OF i] h releases by (simp add: handler_simps)
    moreover have lim: "count_if (holds_for ?E u) ?hs \<le> maxRelaySessionsPerToken" for u using I by metis
    moreover have "count_if (holds_for ?E u) ?hs - 1 \<le> maxRelaySessionsPerToken" "0 \<le> maxRelaySessionsPerToken" for u
      using lim [of u] by (simp_all add: maxRelaySessionsPerToken_def)
    moreover have "handler_ok ?E ?h" using ok' releases by (simp add: handler_ok_def)
    ultimately show ?thesis
      using I rest releases l by (auto simp: ws_inv_def Let_def count handler_simps)
  qed
qed

interpretation ws_servers: invariant_system ws_init "ws_server_step W" "ws_inv W" for W
proof
  show "ws_inv W S" if "ws_init S" for S
    using that by (simp add: ws_init_def ws_inv_def newSessionLimiter_def limiter_bounds)
  show "ws_inv W S'" if "ws_inv W S" "ws_server_step W S S'" for S S'
    using that(2,1)
  proof cases
    case (arrives h)
    then show ?thesis
      using that(1) by (auto simp: ws_inv_def Let_def handler_simps handler_ok_def phase_ok_def)
  next
    case handler_turn
    then show ?thesis using handler_turn_inv that(1) by blast
  next
    case elsewhere
    then show ?thesis using that(1) by (auto simp: ws_inv_def Let_def)
  qed
qed

section \<open>The theorem\<close>

lemma owned_bound: "size (owned phase) \<le> (if reservation_of phase = None then 0 else 2)"
  by (cases phase) (auto split: option.split)

lemma owned_total:
  "int (sum_list (map (\<lambda>h. size (owned (hd_phase h))) hs)) \<le> 2 * count_if holds hs"
proof (induction hs)
  case (Cons h hs)
  have "int (size (owned (hd_phase h))) \<le> 2 * of_bool (holds h)"
    using owned_bound [of "hd_phase h"] by (cases "reservation_of (hd_phase h)") (simp_all add: holds_def)
  then show ?case using Cons.IH by (simp add: algebra_simps)
qed simp

text \<open>
  Claim C16. The relay keeps within its capacity. However many clients connect, and however their
  handlers, the owner and the other endpoints interleave: the handlers that hold a session slot are
  exactly those the limiter counts, at most 1024, at most 128 of any one token, and at most 128 of them
  dial. Between them the handlers hold at most 2048 selected Telegram connections and client connections.
  (The dial is one step here: the connections of its races, up to three for each of the at most 128
  handlers that dial, and late ones the dial closes itself, are not in that count.) When no handler holds
  a slot the limiter is as new.
\<close>

theorem server_capacity:
  assumes "reachable ws_init (ws_server_step W) S"
  shows "sl_active (sv_sessions (ws_server S))
      = int (length (filter (\<lambda>h. reservation_of (hd_phase h) \<noteq> None) (ws_handlers S)))
    \<and> length (filter (\<lambda>h. reservation_of (hd_phase h) \<noteq> None) (ws_handlers S)) \<le> 1024
    \<and> length (filter (\<lambda>h. reservation_of (hd_phase h) \<noteq> None
         \<and> StableTokenID (ce_go (we_control W)) (hd_token h) = t) (ws_handlers S)) \<le> 128
    \<and> length (filter (\<lambda>h. dial_pending (hd_phase h)) (ws_handlers S)) \<le> 128
    \<and> sum_list (map (\<lambda>h. size (owned (hd_phase h))) (ws_handlers S)) \<le> 2048
    \<and> ((\<forall>h \<in> set (ws_handlers S). reservation_of (hd_phase h) = None) \<longrightarrow>
         sv_sessions (ws_server S) = newSessionLimiter)"
proof -
  let ?l = "sv_sessions (ws_server S)" and ?hs = "ws_handlers S" and ?E = "ce_go (we_control W)"
  note I = ws_servers.inv_reachable [OF assms, unfolded ws_inv_def Let_def]
  have c: "count_if holds ?hs \<le> 1024" "count_if dialling ?hs \<le> 128" "count_if (holds_for ?E t) ?hs \<le> 128" for t
    using I by (auto simp: limiter_bounds)
  have "?l = newSessionLimiter" if none: "\<forall>h \<in> set ?hs. reservation_of (hd_phase h) = None"
  proof -
    have idle: "\<not> holds h \<and> \<not> dialling h \<and> \<not> holds_for ?E t h" if "h \<in> set ?hs" for h t
      using none that pending_reserved [of "hd_phase h"] by (auto simp: handler_simps)
    have "count_if holds ?hs = 0" "count_if dialling ?hs = 0" "count_if (holds_for ?E t) ?hs = 0" for t
      using idle by (simp_all add: count_if_none)
    then have z: "sl_active ?l = 0" "sl_pending ?l = 0" "\<not> mhas (sl_byToken ?l) t" for t using I by auto
    then have "sl_byToken ?l = []" by (cases "sl_byToken ?l") (auto simp: mhas_def)
    then show ?thesis using z by (simp add: newSessionLimiter_def)
  qed
  moreover have "int (sum_list (map (\<lambda>h. size (owned (hd_phase h))) ?hs)) \<le> 2048"
    using owned_total [of ?hs] c(1) by simp
  moreover have "(\<lambda>h. reservation_of (hd_phase h) \<noteq> None) = holds" "(\<lambda>h. dial_pending (hd_phase h)) = dialling"
    "(\<lambda>h. reservation_of (hd_phase h) \<noteq> None \<and> StableTokenID ?E (hd_token h) = t) = holds_for ?E t"
    by (simp_all add: fun_eq_iff handler_simps)
  ultimately show ?thesis
    using I c(1,2) c(3) [of t] by (simp only: count_if_def) simp
qed

end
