(* ===== verification/Sample_Life.thy ===== *)
theory Sample_Life
  imports Sample_Server Control_Shutdown Bridge_Idle Ws_Server
begin

text \<open>
  Instances of the properties about time and endings: the owner state at rest, a shutdown with a
  session that does not end, and a silent bridge.
\<close>

theorem owner_state_well_formed_witness:
  "length (cs_Clients (cp_state sample_entered)) \<le> maxTrackedClients \<and> distinct (map fst (cp_active sample_entered))"
  using owner_state_well_formed [OF sample_entered_reach [of "[]"]] by blast

definition sample_rounds :: "(gotime \<times> controlPlane) list" where
  "sample_rounds = map (\<lambda>i. (int i * shutdownPoll, sample_entered)) [0..<201]"

theorem shutdown_drains_witness:
  "\<exists>looks \<le> 200. shutdown_wait shutdownWait sample_rounds = Some looks"
proof -
  have r: "200 < length sample_rounds" "successively (\<lambda>a b. fst a + shutdownPoll \<le> fst b) sample_rounds"
    "0 \<le> fst (hd sample_rounds)"
    by (simp_all add: sample_rounds_def successively_conv_nth algebra_simps hd_map)
  show ?thesis
    using shutdown_drains [OF sample_entered_reach [of "[]"] surjective_pairing rtranclp.rtrancl_refl r] by simp
qed

text \<open>A minute without data and a tick: the bridge is closed.\<close>

theorem idle_watchdog_witness:
  "br_done (bridge_turn sample_settings sample_io (bridgeWebSocket sample_settings sample_io [] 0 [Tick]) (WatchTick (60 * second)))"
proof -
  have t: "0 < bs_idleTimeout sample_settings" "bs_idleTimeout sample_settings \<le> 60 * second - 0"
    by (simp_all add: sample_settings_def second_def)
  have l: "0 = last_data sample_settings sample_io (startBridge sample_settings [] 0) 0 [Tick]"
    by (simp add: carries_data_def)
  show ?thesis using idle_watchdog [OF t(1) refl l] t(2) by simp
qed

section \<open>One handler of the server\<close>

definition sample_handler :: "wsPhase \<Rightarrow> handler" where
  "sample_handler phase = \<lparr>hd_run = sample_ws_run HijackFailed, hd_request = sample_ws_request, hd_token = sample_token,
     hd_phase = phase\<rparr>"

definition sample_world :: "server \<Rightarrow> handler list \<Rightarrow> wsServer" where
  "sample_world s hs = \<lparr>ws_server = s, ws_file = None, ws_handlers = hs\<rparr>"

text \<open>A turn of the only handler, after which the rest of the server is put back.\<close>

lemma sample_turn:
  assumes "reachable ws_init (ws_server_step sample_ws) (sample_world sample_server [sample_handler phase])"
    and "\<exists>s f. ws_step sample_ws (sample_ws_run HijackFailed) sample_ws_request sample_token sample_server None phase
           = (s, f, phase', es) \<and> sv_sessions s = sv_sessions s'" and "phase \<noteq> Finished"
  shows "reachable ws_init (ws_server_step sample_ws) (sample_world s' [sample_handler phase'])"
proof -
  obtain s f where w: "ws_step sample_ws (sample_ws_run HijackFailed) sample_ws_request sample_token sample_server None phase
      = (s, f, phase', es)" and l: "sv_sessions s = sv_sessions s'" using assms(2) by blast
  let ?S = "sample_world sample_server [sample_handler phase]"
  let ?T = "?S\<lparr>ws_server := s, ws_file := f, ws_handlers := (ws_handlers ?S)[0 := (sample_handler phase)\<lparr>hd_phase := phase'\<rparr>]\<rparr>"
  have "ws_server_step sample_ws ?S ?T"
    by (rule handler_turn) (use w assms(3) in \<open>simp_all add: sample_world_def sample_handler_def\<close>)
  then have t: "reachable ws_init (ws_server_step sample_ws) ?T" using assms(1) by (blast intro: reachable_step)
  have "ws_server_step sample_ws ?T (?T\<lparr>ws_server := s', ws_file := None\<rparr>)"
    by (rule elsewhere) (simp add: l)
  then have "reachable ws_init (ws_server_step sample_ws) (?T\<lparr>ws_server := s', ws_file := None\<rparr>)"
    using t by (blast intro: reachable_step)
  moreover have "?T\<lparr>ws_server := s', ws_file := None\<rparr> = sample_world s' [sample_handler phase']"
    by (simp add: sample_world_def sample_handler_def)
  ultimately show ?thesis by simp
qed

theorem server_capacity_witness:
  "\<exists>l. sl_active l = 1 \<and> reachable ws_init (ws_server_step sample_ws)
     (sample_world (sample_server\<lparr>sv_sessions := l\<rparr>) [sample_handler (Reserved sample_route (sample_reservation False))])"
proof -
  have "reachable ws_init (ws_server_step sample_ws) (sample_world sample_server [])"
    by (rule reachable_init) (simp add: ws_init_def sample_world_def sample_server_def)
  moreover have "ws_server_step sample_ws (sample_world sample_server []) (sample_world sample_server [sample_handler Start])"
    using arrives [of "sample_handler Start" sample_ws "sample_world sample_server []"]
    by (simp add: sample_world_def sample_handler_def)
  ultimately have start: "reachable ws_init (ws_server_step sample_ws) (sample_world sample_server [sample_handler Start])"
    by (blast intro: reachable_step)
  have checked: "reachable ws_init (ws_server_step sample_ws) (sample_world sample_server [sample_handler (Checked sample_route)])"
    by (rule sample_turn [OF start, where es = "[]"])
      (simp_all add: sample_step_simps sample_requestedRoute sample_not_blocked)
  have routed: "reachable ws_init (ws_server_step sample_ws) (sample_world sample_server [sample_handler (Routed sample_route)])"
    by (rule sample_turn [OF checked, where es = "[]"]) (simp_all add: sample_step_simps route_step_def ensureRoute_def)
  let ?l = "fst (reserve newSessionLimiter ''primary'')"
  have reserved: "reachable ws_init (ws_server_step sample_ws)
      (sample_world (sample_server\<lparr>sv_sessions := ?l\<rparr>) [sample_handler (Reserved sample_route (sample_reservation False))])"
    by (rule sample_turn [OF routed, where es = "[Reserves (sample_reservation False)]"])
      (simp_all add: sample_step_simps reserve_step_def reserve_def newSessionLimiter_def limiter_bounds sample_stable_id
        sample_reservation_def mget_def)
  have "sl_active ?l = 1"
    using server_capacity [OF reserved, of "[]"] by (simp add: sample_world_def sample_handler_def)
  then show ?thesis using reserved by blast
qed

end
