(* ===== verification/Topology_Sign.thy ===== *)
theory Topology_Sign
  imports Topology_Manager
begin

text \<open>
  \<open>cmd/tgproxy-topology-sign\<close>: the command that makes the key files and signs a payload. The files
  are a map from paths to contents; whether a system call succeeds is an argument, and a system error
  carries no more than that it happened.
\<close>

type_synonym files = "(string, string) gomap"

text \<open>A failed write is the number of bytes written before it.\<close>

record writeIO =
  wi_open :: bool
  wi_write :: "nat option"
  wi_sync :: bool
  wi_close :: bool
  wi_remove :: bool

definition removeFile :: "bool \<Rightarrow> files \<Rightarrow> string \<Rightarrow> files" where
  "removeFile ok files path = (if ok then mdel path files else files)"

text \<open>The second component says whether an error is returned.\<close>

definition writeExclusive :: "writeIO \<Rightarrow> files \<Rightarrow> string \<Rightarrow> string \<Rightarrow> files \<times> bool" where
  "writeExclusive io files path data =
     (if mhas files path \<or> \<not> wi_open io then (files, True)
      else
        (case wi_write io of
           Some n \<Rightarrow> (removeFile (wi_remove io) (mset_key path (take n data) files) path, True)
         | None \<Rightarrow>
             if \<not> wi_sync io then (removeFile (wi_remove io) (mset_key path data files) path, True)
             else (mset_key path data files, \<not> wi_close io)))"

definition generateKeys ::
  "(nat list \<times> nat list) option \<Rightarrow> writeIO \<Rightarrow> writeIO \<Rightarrow> bool \<Rightarrow> files \<Rightarrow> string \<Rightarrow> files \<times> bool" where
  "generateKeys generated privateIO publicIO removed files prefix =
     (case generated of
        None \<Rightarrow> (files, True)
      | Some (publicKey, privateKey) \<Rightarrow>
          (let privatePath = prefix @ ''.private''; publicPath = prefix @ ''.public''
           in case writeExclusive privateIO files privatePath
                     (b64Encode StdAlphabet False privateKey @ [CHR 0x0A]) of
                (files, True) \<Rightarrow> (files, True)
              | (files, False) \<Rightarrow>
                  (case writeExclusive publicIO files publicPath
                          (b64Encode StdAlphabet False publicKey @ [CHR 0x0A]) of
                     (files, True) \<Rightarrow> (removeFile removed files privatePath, True)
                   | (files, False) \<Rightarrow> (files, False))))"

definition decodePrivateKey :: "string \<Rightarrow> nat list option" where
  "decodePrivateKey value =
     (let raw = trimSpace value;
          decoded = (case b64Decode StdAlphabet False raw of
                       Some d \<Rightarrow> Some d
                     | None \<Rightarrow> b64Decode StdAlphabet True raw)
      in case decoded of
           None \<Rightarrow> None
         | Some d \<Rightarrow> if length d \<noteq> 64 then None else Some d)"

record signArgs =
  sa_in :: string
  sa_out :: string
  sa_key :: string
  sa_prefix :: string

text \<open>
  The outside of one run: the generated key pair, the decoder of payloads (which also says whether the
  input ended after the object), whether an existing file can be read, the clock, and the write of the
  bundle: not opened, or opened and cut at a length, or complete.
\<close>

datatype outputWrite = NotOpened | CutAt nat | Written

record signRun =
  sg_generated :: "(nat list \<times> nat list) option"
  sg_privateIO :: writeIO
  sg_publicIO :: writeIO
  sg_removed :: bool
  sg_decode :: "string \<Rightarrow> (Payload \<times> bool) option"
  sg_readable :: "string \<Rightarrow> bool"
  sg_now :: int
  sg_output :: outputWrite

datatype signError = SystemError | SignError string

definition readFrom :: "signRun \<Rightarrow> files \<Rightarrow> string \<Rightarrow> string option" where
  "readFrom run files path = (if sg_readable run path then map_of files path else None)"

definition writeOutput :: "signRun \<Rightarrow> files \<Rightarrow> string \<Rightarrow> string \<Rightarrow> files \<times> signError option" where
  "writeOutput run files path data =
     (case sg_output run of
        NotOpened \<Rightarrow> (files, Some SystemError)
      | CutAt n \<Rightarrow> (mset_key path (take n data) files, Some SystemError)
      | Written \<Rightarrow> (mset_key path data files, None))"

text \<open>\<open>main\<close>: the files afterwards and the error it exits with.\<close>

definition signMain :: "topoenv \<Rightarrow> signArgs \<Rightarrow> signRun \<Rightarrow> files \<Rightarrow> files \<times> signError option" where
  "signMain T args run files =
     (if sa_prefix args \<noteq> [] then
        (case generateKeys (sg_generated run) (sg_privateIO run) (sg_publicIO run) (sg_removed run) files
                (sa_prefix args) of
           (files, err) \<Rightarrow> (files, if err then Some SystemError else None))
      else if sa_in args = [] \<or> sa_out args = [] \<or> sa_key args = []
      then (files, Some (SignError ''-in, -out and -key are required''))
      else
        (case readFrom run files (sa_in args) of
           None \<Rightarrow> (files, Some SystemError)
         | Some data \<Rightarrow>
             (case sg_decode run data of
                None \<Rightarrow> (files, Some SystemError)
              | Some (payload, atEnd) \<Rightarrow>
                  if \<not> atEnd
                  then (files, Some (SignError ''input must contain exactly one JSON object''))
                  else
                    (case readFrom run files (sa_key args) of
                       None \<Rightarrow> (files, Some SystemError)
                     | Some keyData \<Rightarrow>
                         (case decodePrivateKey keyData of
                            None \<Rightarrow>
                              (files, Some (SignError ''key file must contain a base64 Ed25519 private key''))
                          | Some privateKey \<Rightarrow>
                              (case Sign T payload privateKey (sg_now run) of
                                 Inl e \<Rightarrow> (files, Some (SignError e))
                               | Inr bundle \<Rightarrow>
                                   writeOutput run files (sa_out args) (bundle @ [CHR 0x0A])))))))"

end
