(* ===== verification/Sign_Props.thy ===== *)
theory Sign_Props
  imports Topology_Sign Topology_Props
begin

text \<open>
  The signing command: what it does to files, that its key files decode to the generated keys, and that
  the relay loads the bundles it writes.
\<close>

section \<open>Key files\<close>

lemma trimSpace_newline:
  assumes "s \<noteq> []" and "\<forall>c \<in> set s. plain_char c"
  shows "trimSpace (s @ [CHR 0x0A]) = s"
proof -
  from assms(1) obtain c r where s: "s = c # r" by (cases s) auto
  from assms(1) obtain d q where q: "rev s = d # q" by (cases "rev s") auto
  have "plain_char c" using assms(2) s by simp
  then have l: "drop_spaces front_space n (s @ [CHR 0x0A]) = s @ [CHR 0x0A]" for n
    by (intro drop_spaces_none) (simp add: s front_space_plain)
  have "d \<in> set s" using q by (metis list.set_intros(1) set_rev)
  then have d: "plain_char d" using assms(2) by blast
  have nl: "back_space (CHR 0x0A # rs) = 1" for rs
    by (simp add: back_space_def rune_is_space_def)
  have b: "back_space (rev s) = 0" using d by (simp add: q back_space_plain)
  show ?thesis unfolding trimSpace_def Let_def l by (simp add: nl b)
qed

lemma b64Encode_Nil: "b64Encode al pad bs = [] \<longleftrightarrow> bs = []"
  by (cases "(al, pad, bs)" rule: b64Encode.cases) auto

lemma key_text:
  assumes "bs \<noteq> []" and "\<forall>b \<in> set bs. b < 256"
  shows "trimSpace (b64Encode StdAlphabet False bs @ [CHR 0x0A]) = b64Encode StdAlphabet False bs"
  using assms b64Encode_plain b64Encode_Nil by (intro trimSpace_newline) blast+

lemma decode_key_text:
  assumes "\<forall>b \<in> set bs. b < 256"
  shows "length bs = 64 \<Longrightarrow> decodePrivateKey (b64Encode StdAlphabet False bs @ [CHR 0x0A]) = Some bs"
    and "length bs = 32 \<Longrightarrow> decodeTopologyPublicKey (b64Encode StdAlphabet False bs @ [CHR 0x0A]) = Some bs"
proof -
  have "bs \<noteq> [] \<Longrightarrow> b64Decode StdAlphabet False (trimSpace (b64Encode StdAlphabet False bs @ [CHR 0x0A])) = Some bs"
    using assms by (simp add: key_text b64Decode_encode_raw)
  then show "length bs = 64 \<Longrightarrow> decodePrivateKey (b64Encode StdAlphabet False bs @ [CHR 0x0A]) = Some bs"
    and "length bs = 32 \<Longrightarrow> decodeTopologyPublicKey (b64Encode StdAlphabet False bs @ [CHR 0x0A]) = Some bs"
    by (cases bs; simp add: decodePrivateKey_def decodeTopologyPublicKey_def Let_def)+
qed

text \<open>A written file is complete, or something failed; no other file changes, and no existing one.\<close>

lemma writeExclusive_files:
  assumes "writeExclusive io files path data = (files', err)"
  shows "\<not> err \<Longrightarrow> map_of files path = None \<and> map_of files' = (map_of files)(path \<mapsto> data)"
    and "map_of files path \<noteq> None \<Longrightarrow> err \<and> files' = files"
    and "other \<noteq> path \<Longrightarrow> map_of files' other = map_of files other"
  using assms by (auto simp: writeExclusive_def removeFile_def mhas_iff_map_of split: if_splits option.splits)

lemma generateKeys_files:
  assumes "generateKeys generated io1 io2 rm files prefix = (files', err)"
  shows "map_of files path \<noteq> None \<Longrightarrow> map_of files' path = map_of files path"
    and "path \<notin> {prefix @ ''.private'', prefix @ ''.public''} \<Longrightarrow> map_of files' path = map_of files path"
    and "generated = Some (public, private) \<Longrightarrow> \<not> err \<Longrightarrow> map_of files' = (map_of files)
      (prefix @ ''.private'' \<mapsto> b64Encode StdAlphabet False private @ [CHR 0x0A],
       prefix @ ''.public'' \<mapsto> b64Encode StdAlphabet False public @ [CHR 0x0A])"
proof -
  let ?sk = "prefix @ ''.private''" and ?pk = "prefix @ ''.public''"
  have key: "(map_of files path \<noteq> None \<longrightarrow> map_of files' path = map_of files path)
      \<and> (path \<notin> {?sk, ?pk} \<longrightarrow> map_of files' path = map_of files path)
      \<and> (\<not> err \<longrightarrow> map_of files' = (map_of files)(?sk \<mapsto> b64Encode StdAlphabet False q @ [CHR 0x0A],
            ?pk \<mapsto> b64Encode StdAlphabet False p @ [CHR 0x0A]))"
    if g: "generated = Some (p, q)" for p q path
  proof -
    obtain f1 e1 where w1: "writeExclusive io1 files ?sk (b64Encode StdAlphabet False q @ [CHR 0x0A]) = (f1, e1)" by force
    obtain f2 e2 where w2: "writeExclusive io2 f1 ?pk (b64Encode StdAlphabet False p @ [CHR 0x0A]) = (f2, e2)" by force
    note x1 = writeExclusive_files [OF w1] and x2 = writeExclusive_files [OF w2]
    show ?thesis
    proof (cases e1)
      case True
      then have "files' = f1" "err" using assms g w1 by (simp_all add: generateKeys_def Let_def)
      then show ?thesis using x1(2) x1(3) [of path] by (cases "path = ?sk") auto
    next
      case False
      note f1 = x1(1) [OF False]
      show ?thesis
      proof (cases e2)
        case True
        then have f: "files' = removeFile rm f2 ?sk" and err using assms g w1 w2 False
          by (simp_all add: generateKeys_def Let_def)
        have "map_of f2 path = map_of files path" if "path \<notin> {?sk, ?pk}" using x2(3) that f1 by simp
        moreover have "map_of f2 ?pk = map_of files ?pk" if "map_of files ?pk \<noteq> None"
          using x2(2) that f1 by simp
        ultimately show ?thesis using f1 \<open>err\<close> unfolding f removeFile_def
          by (cases "path = ?pk"; cases "path = ?sk") auto
      next
        case e2: False
        then have "files' = f2" "\<not> err" using assms g w1 w2 False by (simp_all add: generateKeys_def Let_def)
        then show ?thesis using f1 x2(1) [OF e2] by (auto simp: fun_eq_iff)
      qed
    qed
  qed
  have none: "files' = files \<and> err" if "generated = None" using assms that by (simp add: generateKeys_def)
  show "map_of files path \<noteq> None \<Longrightarrow> map_of files' path = map_of files path"
    "path \<notin> {?sk, ?pk} \<Longrightarrow> map_of files' path = map_of files path"
    using key none by (cases generated; fastforce)+
  show "generated = Some (public, private) \<Longrightarrow> \<not> err \<Longrightarrow> map_of files' = (map_of files)
      (?sk \<mapsto> b64Encode StdAlphabet False private @ [CHR 0x0A], ?pk \<mapsto> b64Encode StdAlphabet False public @ [CHR 0x0A])"
    using key by blast
qed

section \<open>Bundles\<close>

text \<open>What a successful run of the command without a key prefix has done.\<close>

lemma signMain_signed:
  assumes "signMain T args run files = (files', None)" and "sa_prefix args = []"
  obtains inp payload keyData sk bd where
    "map_of files (sa_in args) = Some inp" "sg_decode run inp = Some (payload, True)"
    "map_of files (sa_key args) = Some keyData" "decodePrivateKey keyData = Some sk"
    "Sign T payload sk (sg_now run) = Inr bd"
    "map_of files' = (map_of files)(sa_out args \<mapsto> bd @ [CHR 0x0A])"
  using assms
  by (auto simp: signMain_def readFrom_def writeOutput_def split: if_splits option.splits prod.splits sum.splits
      outputWrite.splits)

text \<open>The decoder skips a newline after the object.\<close>

definition skips_newline :: "topoenv \<Rightarrow> bool" where
  "skips_newline T \<longleftrightarrow>
     (\<forall>d b. te_decode T d = Some (b, True) \<longrightarrow> te_decode T (d @ [CHR 0x0A]) = Some (b, True))"

lemma Sign_decodes:
  assumes "Sign T payload private now = Inr data" and "json_roundtrip T" and "key_pair T public private"
    and "json_payload payload"
  shows "\<exists>b. te_decode T data = Some (b, True)"
proof -
  obtain canonical where "te_marshalIndent T
      \<lparr>bu_Schema = pl_Schema payload, bu_Generation = pl_Generation payload,
       bu_NotBefore = pl_NotBefore payload, bu_ExpiresAt = pl_ExpiresAt payload,
       bu_Production = pl_Production payload, bu_Test = pl_Test payload,
       bu_Signature = b64Encode StdAlphabet False (te_sign T private canonical)\<rparr> = Some data"
    (is "te_marshalIndent T ?b = _")
    using assms(1) by (auto simp: Sign_def split: option.splits if_splits)
  moreover have "bundle_payload ?b = payload" by (simp add: bundle_payload_def)
  moreover have "json_text (bu_Signature ?b)"
    using assms(3) by (auto simp: key_pair_def intro!: json_text_ascii plain_ascii b64Encode_plain)
  ultimately show ?thesis using assms(2,4) unfolding json_roundtrip_def by metis
qed

text \<open>
  Claim C27. The tool and the relay fit together. Whether key generation succeeds or fails, in whatever
  system call, every file that existed before is as it was and no file but the two key files changes;
  after a success the two key files decode to the pair, and a bundle that a later run writes with that
  private key file is loaded as last-known-good state, also after it expired, by a relay whose
  configuration holds the content of the public key file, with the routes of the payload.
\<close>

theorem signed_bundle_loads:
  assumes "generateKeys (Some (public, private)) io1 io2 removed files prefix = (files1, False)"
    and "length private = 64" and "\<forall>b \<in> set public. b < 256" and "\<forall>b \<in> set private. b < 256"
    and "key_pair T public private" and "json_roundtrip T" and "skips_newline T"
    and "map_of files2 (prefix @ ''.private'') = map_of files1 (prefix @ ''.private'')"
    and "sa_prefix args = []" and "sa_key args = prefix @ ''.private''"
    and "signMain T args run files2 = (files3, None)"
    and "map_of files2 (sa_in args) = Some input" and "sg_decode run input = Some (payload, True)"
    and "json_payload payload" and "map_of files3 (sa_out args) = Some data" and "length data \<le> 2 ^ 20"
    and "map_of files1 (prefix @ ''.public'') = Some (tp_PublicKey (tg_Topology telegram))"
    and "trimSpace (tp_URL (tg_Topology telegram)) \<noteq> []" and "sg_now run \<le> later"
  shows "(\<forall>keys ioA ioB rm old name new err path. generateKeys keys ioA ioB rm old name = (new, err) \<longrightarrow>
         map_of old path \<noteq> None \<or> path \<notin> {name @ ''.private'', name @ ''.public''} \<longrightarrow> map_of new path = map_of old path)
    \<and> (\<exists>text. map_of files1 (prefix @ ''.private'') = Some text \<and> decodePrivateKey text = Some private)
    \<and> decodeTopologyPublicKey (tp_PublicKey (tg_Topology telegram)) = Some public
    \<and> (\<exists>m snapshot. newTopologyManager T telegram (FileData data) later = Inr m \<and> tm_current m = Some snapshot
         \<and> sn_Generation snapshot = pl_Generation payload \<and> sn_Production snapshot = pl_Production payload
         \<and> sn_Test snapshot = pl_Test payload)"
proof (intro conjI allI impI)
  note f1 = generateKeys_files(3) [OF assms(1) refl, simplified]
  show "map_of new path = map_of old path" if "generateKeys keys ioA ioB rm old name = (new, err)"
    "map_of old path \<noteq> None \<or> path \<notin> {name @ ''.private'', name @ ''.public''}" for keys ioA ioB rm old name new err path
    using generateKeys_files(1,2) [OF that(1)] that(2) by blast
  show "\<exists>text. map_of files1 (prefix @ ''.private'') = Some text \<and> decodePrivateKey text = Some private"
    using f1 decode_key_text(1) [OF assms(4,2)] by simp
  have "length public = 32" using assms(5) by (simp add: key_pair_def)
  then show pk: "decodeTopologyPublicKey (tp_PublicKey (tg_Topology telegram)) = Some public"
    using f1 assms(17) decode_key_text(2) [OF assms(3)] by simp
  obtain sk bd where r: "Sign T payload sk (sg_now run) = Inr bd"
    "map_of files3 = (map_of files2)(sa_out args \<mapsto> bd @ [CHR 0x0A])"
    "Some sk = Some private"
    using signMain_signed [OF assms(11,9)] assms(12,13,8,10) f1 decode_key_text(1) [OF assms(4,2)] by force
  have sign: "Sign T payload private (sg_now run) = Inr bd" and data: "data = bd @ [CHR 0x0A]"
    using r assms(15) by simp_all
  obtain b where "te_decode T bd = Some (b, True)" using Sign_decodes [OF sign assms(6,5,14)] by blast
  then have dec: "te_decode T (bd @ [CHR 0x0A]) = te_decode T bd"
    using assms(7) by (simp add: skips_newline_def)
  have "length (bd @ [CHR 0x0A]) \<le> 2 ^ 20" using assms(16) unfolding data .
  note v = Sign_verified [OF sign assms(6,5,14) this assms(19) _ dec, of True, simplified]
  show "\<exists>m snapshot. newTopologyManager T telegram (FileData data) later = Inr m \<and> tm_current m = Some snapshot
      \<and> sn_Generation snapshot = pl_Generation payload \<and> sn_Production snapshot = pl_Production payload
      \<and> sn_Test snapshot = pl_Test payload"
    using assms(18) by (simp add: newTopologyManager_def Let_def pk v data)
qed

end
