(* ===== verification/Relay_Main.thy ===== *)
theory Relay_Main
  imports Server_Http
begin

text \<open>
  The life of the process: \<open>LoadFile\<close> of \<open>internal/config/config.go\<close>, \<open>cmd/tgproxy-relay\<close>, and
  \<open>ListenAndServeContext\<close> of \<open>internal/relay/server.go\<close> around the HTTP server of the library.
\<close>

section \<open>The configuration file\<close>

text \<open>
  \<open>encoding/json\<close>: the members of an object as raw texts (\<open>json.Unmarshal\<close> into a map), and decoding
  into a configuration that already holds values, with whether the input ended after the object.
\<close>

record jsonReader =
  jr_object :: "string \<Rightarrow> (string, string) gomap option"
  jr_decode :: "string \<Rightarrow> Config \<Rightarrow> (Config \<times> bool) option"

definition maxConfigBytes :: nat where "maxConfigBytes = 2 ^ 20"

definition resetMaps :: "(string, string) gomap \<Rightarrow> TelegramConfig \<Rightarrow> TelegramConfig" where
  "resetMaps telegram t =
     (let t = (if mhas telegram ''dcMap'' then t\<lparr>tg_DCMap := None\<rparr> else t);
          t = (if mhas telegram ''testDcMap'' then t\<lparr>tg_TestDCMap := None\<rparr> else t);
          t = (if mhas telegram ''dcOptions'' then t\<lparr>tg_DCOptions := []\<rparr> else t)
      in if mhas telegram ''testDcOptions'' then t\<lparr>tg_TestDCOptions := []\<rparr> else t)"

definition resetExplicitTelegramMaps :: "jsonReader \<Rightarrow> string \<Rightarrow> Config \<Rightarrow> Config" where
  "resetExplicitTelegramMaps J data cfg =
     (case jr_object J data of
        None \<Rightarrow> cfg
      | Some root \<Rightarrow>
          (case map_of root ''telegram'' of
             None \<Rightarrow> cfg
           | Some raw \<Rightarrow>
               (case jr_object J raw of
                  None \<Rightarrow> cfg
                | Some telegram \<Rightarrow> cfg\<lparr>cf_Telegram := resetMaps telegram (cf_Telegram cfg)\<rparr>)))"

definition LoadFile :: "jsonReader \<Rightarrow> goenv \<Rightarrow> readFile \<Rightarrow> string + Config" where
  "LoadFile J E file =
     (case file of
        FileAbsent \<Rightarrow> Inl ''open''
      | FileError \<Rightarrow> Inl ''read''
      | FileData content \<Rightarrow>
          (let data = take (maxConfigBytes + 1) content
           in if length data > maxConfigBytes then Inl ''config must not exceed 1048576 bytes''
              else
                (case jr_decode J data (resetExplicitTelegramMaps J data defaultConfig) of
                   None \<Rightarrow> Inl ''decode''
                 | Some (cfg, atEnd) \<Rightarrow>
                     if \<not> atEnd then Inl ''config must contain exactly one JSON object''
                     else
                       (case Validate E cfg of
                          (cfg, Some e) \<Rightarrow> Inl e
                        | (cfg, None) \<Rightarrow> Inr cfg))))"

section \<open>The command\<close>

text \<open>A flag that is not given takes the value of its environment variable.\<close>

record mainArgs =
  ma_config :: "string option"
  ma_listen :: "string option"
  ma_token :: "string option"
  ma_printTokenHash :: bool
  ma_version :: bool
  ma_checkConfig :: bool

definition env_value :: "(string \<Rightarrow> string) \<Rightarrow> string \<Rightarrow> string \<Rightarrow> string" where
  "env_value getenv key fallback = (let v = getenv key in if v = [] then fallback else v)"

definition flag_value :: "(string \<Rightarrow> string) \<Rightarrow> string option \<Rightarrow> string \<Rightarrow> string" where
  "flag_value getenv given key = (case given of Some v \<Rightarrow> v | None \<Rightarrow> env_value getenv key [])"

text \<open>The files the process reads at its start, the clock, and the random bytes of a new identity.\<close>

record mainRun =
  mr_files :: "string \<Rightarrow> readFile"
  mr_topologyFile :: readFile
  mr_now :: gotime
  mr_stateFile :: readFile
  mr_raw :: "nat list option"

definition loadConfig :: "jsonReader \<Rightarrow> goenv \<Rightarrow> (string \<Rightarrow> readFile) \<Rightarrow> string \<Rightarrow> string + Config" where
  "loadConfig J E files path = (if path = [] then Inr defaultConfig else LoadFile J E (files path))"

definition bootstrap :: "goenv \<Rightarrow> string \<Rightarrow> string \<Rightarrow> Config \<Rightarrow> Config" where
  "bootstrap E listen token cfg =
     (let cfg = (if listen \<noteq> [] then cfg\<lparr>cf_Listen := listen\<rparr> else cfg)
      in if token \<noteq> []
         then cfg\<lparr>cf_Tokens := cf_Tokens cfg
                    @ [\<lparr>tk_ID = [], tk_Name = ''env'', tk_Hash = TokenHash E token, tk_CreatedAt = []\<rparr>]\<rparr>
         else cfg)"

text \<open>A line printed, an error logged before exit, or a server that goes on to serve.\<close>

datatype mainOutcome = Prints string | Fatal string | Serves server

definition relayMain ::
  "controlenv \<Rightarrow> topoenv \<Rightarrow> jsonReader \<Rightarrow> (string \<Rightarrow> string) \<Rightarrow> mainArgs \<Rightarrow> mainRun \<Rightarrow> mainOutcome" where
  "relayMain C T J getenv args run =
     (let configPath = flag_value getenv (ma_config args) ''TGPROXY_RELAY_CONFIG'';
          listen = flag_value getenv (ma_listen args) ''TGPROXY_RELAY_LISTEN'';
          token = flag_value getenv (ma_token args) ''TGPROXY_RELAY_TOKEN''
      in if ma_version args then Prints Version
         else if ma_printTokenHash args then
           (if token = [] then Fatal ''-token or TGPROXY_RELAY_TOKEN is required''
            else Prints (TokenHash (ce_go C) token))
         else
           (case loadConfig J (ce_go C) (mr_files run) configPath of
              Inl e \<Rightarrow> Fatal e
            | Inr cfg \<Rightarrow>
                (case newServer C T (bootstrap (ce_go C) listen token cfg) (mr_topologyFile run) (mr_now run)
                        (mr_stateFile run) (mr_raw run) of
                   Inl e \<Rightarrow> Fatal e
                 | Inr s \<Rightarrow> if ma_checkConfig args then Prints ''config ok'' else Serves s)))"

section \<open>Serving and stopping\<close>

text \<open>What \<open>http.Server.ListenAndServe\<close> returned.\<close>

datatype served_by = ServerClosed | ServeError string

definition serve_failure :: "served_by \<Rightarrow> string option" where
  "serve_failure r = (case r of ServerClosed \<Rightarrow> None | ServeError e \<Rightarrow> Some e)"

text \<open>
  Either the listener ends by itself, or the context does: then the HTTP server is shut down, the
  sessions are closed, the other goroutines finish what they do (\<open>during\<close>), and the client data is
  written. The last components are the closed sessions and the error returned.
\<close>

record stopRun =
  st_shutdownError :: "string option"
  st_during :: "controlPlane \<times> string option \<Rightarrow> controlPlane \<times> string option"
  st_io :: persistIO
  st_served :: served_by

definition stopServing ::
  "controlenv \<Rightarrow> controlPlane \<Rightarrow> string option \<Rightarrow> stopRun
   \<Rightarrow> controlPlane \<times> string option \<times> nat list \<times> string option" where
  "stopServing C c disk run =
     (case shutdown_begin c of
        (c, closers) \<Rightarrow>
          (case st_during run (c, disk) of
             (c, disk) \<Rightarrow>
               (case shutdown_finish C c disk (st_io run) of
                  (c, disk, controlError) \<Rightarrow>
                    (c, disk, closers,
                     case st_shutdownError run of
                       Some e \<Rightarrow> Some e
                     | None \<Rightarrow>
                         if controlError then Some ''flush owner state'' else serve_failure (st_served run)))))"

text \<open>The start: the identity is durable before the first request is accepted.\<close>

definition startServing ::
  "controlenv \<Rightarrow> server \<Rightarrow> string option \<Rightarrow> persistIO \<Rightarrow> server \<times> string option \<times> bool" where
  "startServing C s disk io =
     (case prepareIdentity C (sv_control s) disk io of
        (c, disk, err) \<Rightarrow> (s\<lparr>sv_control := c\<rparr>, disk, err))"

text \<open>
  The whole of \<open>ListenAndServeContext\<close>: what the requests, the timers and the refresh goroutine make of
  the server and the file while it serves is \<open>serving\<close>. The answer holds the closed sessions and the
  error returned.
\<close>

datatype serveEnd = ListenerEnded served_by | ContextDone stopRun

definition ListenAndServeContext ::
  "controlenv \<Rightarrow> server \<Rightarrow> string option \<Rightarrow> persistIO \<Rightarrow> (server \<times> string option \<Rightarrow> server \<times> string option)
   \<Rightarrow> serveEnd \<Rightarrow> server \<times> string option \<times> nat list \<times> string option" where
  "ListenAndServeContext C s disk io serving ending =
     (case startServing C s disk io of
        (s, disk, True) \<Rightarrow> (s, disk, [], Some ''prepare identity'')
      | (s, disk, False) \<Rightarrow>
          (case serving (s, disk) of
             (s, disk) \<Rightarrow>
               (case ending of
                  ListenerEnded served \<Rightarrow> (s, disk, [], serve_failure served)
                | ContextDone run \<Rightarrow>
                    (case stopServing C (sv_control s) disk run of
                       (c, disk, closers, failure) \<Rightarrow> (s\<lparr>sv_control := c\<rparr>, disk, closers, failure)))))"

end
