(* ===== verification/Start_Props.thy ===== *)
theory Start_Props
  imports Relay_Main Control_Props Config_Props Topology_Props Upstream_Props
begin

text \<open>
  The start of the process: a server that was started is in an initial state of every transition
  system the other properties are about, so they hold of every state it reaches.
\<close>

section \<open>What validation gives the control plane\<close>

lemma ValidInstanceID_trim:
  assumes "ValidInstanceID v"
  shows "list_all plain_char (trimSpace v)" and "ValidInstanceID (trimSpace v)"
proof -
  have v: "hasPrefix (trimSpace v) ''ri_''" "list_all is_lower_hex (trimPrefix (trimSpace v) ''ri_'')"
    using assms by (simp_all add: ValidInstanceID_def Let_def)
  have "w = p @ trimPrefix w p" if "hasPrefix w p" for w p
    using that unfolding hasPrefix_def trimPrefix_def by (metis append_take_drop_id)
  then have "trimSpace v = ''ri_'' @ trimPrefix (trimSpace v) ''ri_''" using v(1) .
  moreover have "list_all plain_char (''ri_'' @ h)" if "list_all is_lower_hex h" for h
    using that lower_hex_plain by (auto simp: list_all_iff plain_char_def)
  ultimately show p: "list_all plain_char (trimSpace v)" using v(2) by metis
  then have "trimSpace (trimSpace v) = trimSpace v" by (intro trimSpace_all_plain) (simp add: list_all_iff)
  then show "ValidInstanceID (trimSpace v)" using assms by (simp add: ValidInstanceID_def)
qed

lemma owner_config_Validate:
  assumes "goenv_ok E" and "Validate E c = (c', None)" and "ac_Tokens (cf_Admin c') \<noteq> []"
  shows "owner_config E c'"
proof -
  note v = Validate_ok(2) [OF assms(2)]
  note t = validateTokens_facts [OF Validate_tokens(2) [OF assms(2)]]
  have "trimSpace (cf_InstanceID c') \<noteq> [] \<Longrightarrow> ValidInstanceID (cf_InstanceID c')"
    "validStatePath (ac_StatePath (cf_Admin c'))"
    using v assms(3) by (simp_all add: validate_checks_def Let_def)
  moreover have "trimSpace (ac_StatePath (cf_Admin c')) \<noteq> []"
    using calculation(2) by (auto simp: validStatePath_def Let_def)
  ultimately show ?thesis
    unfolding owner_config_def
    using assms(1,3) ValidInstanceID_trim t(2,3,4) by (simp add: goenv_ok_def)
qed

section \<open>The start\<close>

lemma newServer_parts:
  assumes "newServer C T cfg topologyFile now stateFile raw = Inr s"
  shows "Validate (ce_go C) cfg = (sv_cfg s, None)"
    and "newTopologyManager T (cf_Telegram (sv_cfg s)) topologyFile now = Inr (sv_topology s)"
    and "newControlPlane C (sv_cfg s) stateFile raw = Inr (sv_control s)"
    and "sv_upstreams s = newUpstreamPool" and "sv_sessions s = newSessionLimiter"
  using assms by (auto simp: newServer_def split: prod.splits option.splits sum.splits)

lemma relayMain_server:
  assumes "relayMain C T J getenv args run = Serves s"
  obtains cfg where "newServer C T cfg (mr_topologyFile run) (mr_now run) (mr_stateFile run) (mr_raw run) = Inr s"
  using assms by (auto simp: relayMain_def Let_def split: if_splits sum.splits)

lemma newServer_topology:
  assumes "newTopologyManager T tg sf now = Inr m"
  obtains disk where "topo_init T tg (m, disk, now)" and "trimSpace (tp_URL (tg_Topology tg)) \<noteq> [] \<longrightarrow> sf = on_disk disk"
proof (cases sf)
  case (FileData d)
  then show ?thesis using that [of "Some d"] assms by (simp add: topo_init_def)
next
  case FileAbsent
  then show ?thesis using that [of None] assms by (simp add: topo_init_def)
next
  case FileError
  then have "trimSpace (tp_URL (tg_Topology tg)) = []"
    using assms by (auto simp: newTopologyManager_def Let_def split: option.splits if_splits)
  then show ?thesis using that [of None] assms by (simp add: topo_init_def newTopologyManager_def)
qed

text \<open>
  Claim C26. A started process satisfies the preconditions of the other properties, whatever flags,
  environment and configuration file started it: its configuration is accepted unchanged by
  \<open>Validate\<close>; its topology manager, with a bundle source or without one, is an initial state of the
  topology's transition system, on the state file it read if it has a source; its session limiter and its
  endpoint pool are initial. With owner tokens, its control plane is an initial state when there was no
  state file; when the file is the one an earlier process under this configuration left, after any
  operations and failures, the control plane is a state that process could have reached by a restart.
\<close>

theorem started_server_initial:
  assumes "relayMain C T J getenv args run = Serves s"
    and "codec_ok C" and "goenv_ok (ce_go C)" and "times_ok (ce_go C)" and "sixteen_bytes (mr_raw run)"
  shows "Validate (ce_go C) (sv_cfg s) = (sv_cfg s, None)
    \<and> (\<exists>disk. topo_init T (cf_Telegram (sv_cfg s)) (sv_topology s, disk, mr_now run)
         \<and> (trimSpace (tp_URL (tg_Topology (cf_Telegram (sv_cfg s)))) \<noteq> [] \<longrightarrow> mr_topologyFile run = on_disk disk))
    \<and> limiter_init \<lparr>ls_limiter = sv_sessions s, ls_reservations = []\<rparr>
    \<and> pool_init (sv_upstreams s)
    \<and> (ac_Tokens (cf_Admin (sv_cfg s)) \<noteq> [] \<longrightarrow>
         (mr_stateFile run = FileAbsent \<longrightarrow> control_init C (sv_cfg s) (sv_control s, None))
         \<and> (\<forall>c0 d. reachable (control_init C (sv_cfg s)) (control_step C (sv_cfg s)) (c0, Some d) \<longrightarrow>
              mr_stateFile run = FileData d \<longrightarrow>
              reachable (control_init C (sv_cfg s)) (control_step C (sv_cfg s)) (sv_control s, Some d)))"
proof -
  obtain cfg where "newServer C T cfg (mr_topologyFile run) (mr_now run) (mr_stateFile run) (mr_raw run) = Inr s"
    using relayMain_server [OF assms(1)] .
  note n = newServer_parts [OF this]
  have v: "Validate (ce_go C) (sv_cfg s) = (sv_cfg s, None)" using Validate_stable [OF n(1)] .
  have "control_init C (sv_cfg s) (sv_control s, None)"
    if "ac_Tokens (cf_Admin (sv_cfg s)) \<noteq> []" "mr_stateFile run = FileAbsent"
    using n(3) that assms(2-5) owner_config_Validate [OF assms(3) n(1)]
    by (auto simp: control_init_def control_env_def)
  moreover have "reachable (control_init C (sv_cfg s)) (control_step C (sv_cfg s)) (sv_control s, Some d)"
    if r: "reachable (control_init C (sv_cfg s)) (control_step C (sv_cfg s)) (c0, Some d)" and f: "mr_stateFile run = FileData d"
    for c0 d
  proof (rule reachable_step [OF r])
    show "control_step C (sv_cfg s) (c0, Some d) (sv_control s, Some d)"
      using n(3) f by (intro step_restart [OF _ assms(5)]) (simp add: file_of_def)
  qed
  moreover obtain disk where "topo_init T (cf_Telegram (sv_cfg s)) (sv_topology s, disk, mr_now run)"
    "trimSpace (tp_URL (tg_Topology (cf_Telegram (sv_cfg s)))) \<noteq> [] \<longrightarrow> mr_topologyFile run = on_disk disk"
    using newServer_topology [OF n(2)] .
  ultimately show ?thesis
    using v n(4,5) by (auto simp: limiter_init_def pool_init_def)
qed

end
