(* ===== verification/Life_Cycle.thy ===== *)
theory Life_Cycle
  imports Start_Props Control_Shutdown
begin

text \<open>
  The life of a relay process from \<open>main\<close> to the end of \<open>ListenAndServeContext\<close>, and the next start.
\<close>

section \<open>A stop without an error\<close>

text \<open>What \<open>stopServing\<close> leaves when it returns no error.\<close>

lemma stopServing_clean:
  assumes "reachable (control_init C cfg) (control_step C cfg) (c, disk)"
    and "\<And>w. (closing_step C cfg)\<^sup>*\<^sup>* w (st_during stop w)"
    and "stopServing C c disk stop = (c', disk', closers, None)"
  shows "reachable (control_init C cfg) (control_step C cfg) (c', disk') \<and> \<not> cp_clientDirty c'"
proof -
  let ?b = "fst (shutdown_begin c)"
  obtain d e where d: "st_during stop (?b, disk) = (d, e)" by force
  then have fin: "shutdown_finish C d e (st_io stop) = (c', disk', False)"
    using assms(3) by (auto simp: stopServing_def split: prod.splits option.splits if_splits)
  have "reachable (control_init C cfg) (control_step C cfg) (?b, disk)"
    using assms(1) step_shutdown by (blast intro: reachable_step)
  moreover have "cp_shuttingDown (fst (?b, disk))" by (simp add: shutdown_begin_def)
  moreover have "(closing_step C cfg)\<^sup>*\<^sup>* (?b, disk) (d, e)" using assms(2) [of "(?b, disk)"] d by simp
  ultimately have r: "reachable (control_init C cfg) (control_step C cfg) (d, e) \<and> cp_shuttingDown d"
    using closing_run [of C cfg "(?b, disk)" "(d, e)"] by simp
  have "control_step C cfg (d, e) (c', disk')" using step_finish [OF _ fin] r by blast
  then have "reachable (control_init C cfg) (control_step C cfg) (c', disk')"
    using r by (blast intro: reachable_step)
  then show ?thesis using shutdown_finish_writes [OF conjunct1 [OF r] fin] by simp
qed

lemma startServing_step:
  assumes "startServing C s disk io = (s', disk', err)"
  shows "control_step C cfg (sv_control s, disk) (sv_control s', disk') \<and> sv_cfg s' = sv_cfg s"
  using assms by (auto simp: startServing_def split: prod.splits intro: step_prepare)

lemma served_reachable:
  assumes "reachable (control_init C cfg) (control_step C cfg) (sv_control s, disk)"
    and "\<And>v e. (control_step C cfg)\<^sup>*\<^sup>* (sv_control v, e) (sv_control (fst (serving (v, e))), snd (serving (v, e)))"
    and "\<And>w. (closing_step C cfg)\<^sup>*\<^sup>* w (st_during stop w)"
    and "ListenAndServeContext C s disk io serving (ContextDone stop) = (s', disk', closers, None)"
  shows "reachable (control_init C cfg) (control_step C cfg) (sv_control s', disk') \<and> \<not> cp_clientDirty (sv_control s')"
proof -
  obtain s1 d1 err where st: "startServing C s disk io = (s1, d1, err)" by (metis prod_cases3)
  obtain s2 d2 where sv: "serving (s1, d1) = (s2, d2)" by force
  have ok: "\<not> err" using assms(4) st by (auto simp: ListenAndServeContext_def split: bool.splits)
  obtain c' where c': "stopServing C (sv_control s2) d2 stop = (c', disk', closers, None)" "sv_control s' = c'"
    using assms(4) st ok sv by (auto simp: ListenAndServeContext_def split: prod.splits)
  have "(control_step C cfg)\<^sup>*\<^sup>* (sv_control s, disk) (sv_control s1, d1)"
    using startServing_step [OF st] by blast
  moreover have "(control_step C cfg)\<^sup>*\<^sup>* (sv_control s1, d1) (sv_control s2, d2)"
    using assms(2) [of s1 d1] sv by simp
  ultimately have "(control_step C cfg)\<^sup>*\<^sup>* (sv_control s, disk) (sv_control s2, d2)" by (rule rtranclp_trans)
  then have "reachable (control_init C cfg) (control_step C cfg) (sv_control s2, d2)"
    using assms(1) by (induction rule: rtranclp_induct) (auto intro: reachable_step)
  from stopServing_clean [OF this assms(3) c'(1)] show ?thesis unfolding c'(2) .
qed

section \<open>The theorem\<close>

text \<open>What \<open>main\<close> does before the files of the server are read.\<close>

lemma relayMain_config:
  assumes "relayMain C T J getenv args run = Serves s"
  obtains cfg where "newServer C T cfg (mr_topologyFile run) (mr_now run) (mr_stateFile run) (mr_raw run) = Inr s"
    and "\<And>next s'. mr_files next = mr_files run \<Longrightarrow>
      newServer C T cfg (mr_topologyFile next) (mr_now next) (mr_stateFile next) (mr_raw next) = Inr s' \<Longrightarrow>
      relayMain C T J getenv args next = Serves s'"
  using assms by (auto simp: relayMain_def Let_def split: if_splits sum.splits)

text \<open>
  Claim C5. A relay that stopped without an error starts again with everything it knew. Take a process
  started by \<open>main\<close> with owner control, without a state file or on one an earlier process under this
  configuration left, any requests, flushes and failures while it
  serves, and anything the remaining goroutines do while it shuts down: if \<open>ListenAndServeContext\<close>
  returns no error, no two of its tokens share a hash or an identifier (a creation with a known secret
  makes such a pair), and there is a state file, of at most 8 MiB, then the same command started on it
  (with a topology state it can load) serves again, with the same instance identity, the same accepted
  client tokens, the same deleted identifiers, the same blocked devices and the same known clients.
\<close>

theorem clean_exit_restarts:
  assumes "relayMain C T J getenv args run = Serves s"
    and "codec_ok C" and "goenv_ok (ce_go C)" and "times_ok (ce_go C)" and "sixteen_bytes (mr_raw run)"
    and "ac_Tokens (cf_Admin (sv_cfg s)) \<noteq> []" and "mr_stateFile run = file_of disk"
    and "disk = None \<or> (\<exists>c0. reachable (control_init C (sv_cfg s)) (control_step C (sv_cfg s)) (c0, disk))"
    and "\<And>v e. (control_step C (sv_cfg s))\<^sup>*\<^sup>* (sv_control v, e) (sv_control (fst (serving (v, e))), snd (serving (v, e)))"
    and "\<And>w. (closing_step C (sv_cfg s))\<^sup>*\<^sup>* w (st_during stop w)"
    and "ListenAndServeContext C s disk io serving (ContextDone stop) = (s', Some d, closers, None)"
    and "length d \<le> 8 * 1024 * 1024"
    and "unambiguous (ce_go C) (cp_baseTokens (sv_control s') @ cs_AddedTokens (cp_state (sv_control s')))"
    and "mr_files next = mr_files run" and "mr_stateFile next = FileData d"
    and "newTopologyManager T (cf_Telegram (sv_cfg s)) (mr_topologyFile next) (mr_now next) = Inr m"
  shows "\<exists>again. relayMain C T J getenv args next = Serves again
    \<and> cs_InstanceID (cp_state (sv_control again)) = cs_InstanceID (cp_state (sv_control s'))
    \<and> active_hashes (ce_go C) (sv_control again) = active_hashes (ce_go C) (sv_control s')
    \<and> cs_DeletedTokenIDs (cp_state (sv_control again)) = cs_DeletedTokenIDs (cp_state (sv_control s'))
    \<and> map_of (cs_BlockedDevices (cp_state (sv_control again))) = map_of (cs_BlockedDevices (cp_state (sv_control s')))
    \<and> dom (map_of (cs_Clients (cp_state (sv_control again)))) = dom (map_of (cs_Clients (cp_state (sv_control s'))))"
proof -
  obtain cfg where n: "newServer C T cfg (mr_topologyFile run) (mr_now run) (mr_stateFile run) (mr_raw run) = Inr s"
    and again: "\<And>next s'. mr_files next = mr_files run \<Longrightarrow>
      newServer C T cfg (mr_topologyFile next) (mr_now next) (mr_stateFile next) (mr_raw next) = Inr s' \<Longrightarrow>
      relayMain C T J getenv args next = Serves s'"
    using relayMain_config [OF assms(1)] by metis
  note parts = newServer_parts [OF n]
  have env: "control_env C (sv_cfg s)"
    using assms(2-4) owner_config_Validate [OF assms(3) parts(1) assms(6)] by (simp add: control_env_def)
  have new: "newControlPlane C (sv_cfg s) (file_of disk) (mr_raw run) = Inr (sv_control s)"
    using parts(3) assms(7) by simp
  have "reachable (control_init C (sv_cfg s)) (control_step C (sv_cfg s)) (sv_control s, disk)"
  proof (cases disk)
    case None
    then have "control_init C (sv_cfg s) (sv_control s, None)"
      using env assms(5) new by (auto simp: control_init_def file_of_def)
    then show ?thesis unfolding None by (rule reachable_init)
  next
    case (Some d)
    then obtain c0 where "reachable (control_init C (sv_cfg s)) (control_step C (sv_cfg s)) (c0, disk)"
      using assms(8) by auto
    then show ?thesis using step_restart [OF new assms(5)] by (rule reachable_step)
  qed
  from served_reachable [OF this assms(9,10,11)]
  have r: "reachable (control_init C (sv_cfg s)) (control_step C (sv_cfg s)) (sv_control s', Some d)"
    and clean: "\<not> cp_clientDirty (sv_control s')" by simp_all
  obtain c where c: "newControlPlane C (sv_cfg s) (FileData d) (mr_raw next) = Inr c"
    and same: "cs_InstanceID (cp_state c) = cs_InstanceID (cp_state (sv_control s'))"
      "active_hashes (ce_go C) c = active_hashes (ce_go C) (sv_control s')"
      "cs_DeletedTokenIDs (cp_state c) = cs_DeletedTokenIDs (cp_state (sv_control s'))"
      "map_of (cs_BlockedDevices (cp_state c)) = map_of (cs_BlockedDevices (cp_state (sv_control s')))"
      "dom (map_of (cs_Clients (cp_state c))) = dom (map_of (cs_Clients (cp_state (sv_control s'))))"
    using restart_state [OF r assms(12,13), of "mr_raw next"] clean by blast
  have "newServer C T cfg (mr_topologyFile next) (mr_now next) (mr_stateFile next) (mr_raw next) =
      Inr \<lparr>sv_cfg = sv_cfg s, sv_control = c, sv_upstreams = newUpstreamPool, sv_sessions = newSessionLimiter,
           sv_topology = m\<rparr>"
    by (simp add: newServer_def parts(1) assms(15,16) c)
  from again [OF assms(14) this] show ?thesis
    by (intro exI [of _ "\<lparr>sv_cfg = sv_cfg s, sv_control = c, sv_upstreams = newUpstreamPool,
      sv_sessions = newSessionLimiter, sv_topology = m\<rparr>"]) (use same in simp)
qed

end
