(* ===== verification/Sample_Start.thy ===== *)
theory Sample_Start
  imports Sample_Control Sign_Props Life_Cycle
begin

text \<open>
  Instances of the properties of the two commands: a process started from the sample configuration, and
  a key pair generated, used and loaded.
\<close>

section \<open>The relay\<close>

definition sample_json :: jsonReader where
  "sample_json = \<lparr>jr_object = (\<lambda>s. None), jr_decode = (\<lambda>d c. Some (sample_config, True))\<rparr>"

definition sample_args :: mainArgs where
  "sample_args = \<lparr>ma_config = Some ''config.json'', ma_listen = None, ma_token = None, ma_printTokenHash = False,
     ma_version = False, ma_checkConfig = False\<rparr>"

definition sample_main_run :: mainRun where
  "sample_main_run = \<lparr>mr_files = (\<lambda>path. FileData ''{}''), mr_topologyFile = FileAbsent, mr_now = 5,
     mr_stateFile = FileAbsent, mr_raw = Some (replicate 16 171)\<rparr>"

definition sample_base_manager :: topologyManager where
  "sample_base_manager = \<lparr>tm_lastOnDemand = 0, tm_base = cf_Telegram sample_config,
     tm_remote = tg_Topology (cf_Telegram sample_config), tm_publicKey = [], tm_current = None, tm_client = False\<rparr>"

definition sample_served :: server where
  "sample_served = \<lparr>sv_cfg = sample_config, sv_control = sample_start, sv_upstreams = newUpstreamPool,
     sv_sessions = newSessionLimiter, sv_topology = sample_base_manager\<rparr>"

lemma sample_main:
  "relayMain (sample_codec tbl) sample_topoenv sample_json (\<lambda>key. []) sample_args sample_main_run = Serves sample_served"
proof -
  have load: "loadConfig sample_json sample_env (mr_files sample_main_run) ''config.json'' = Inr sample_config"
    by (simp add: loadConfig_def LoadFile_def sample_main_run_def maxConfigBytes_def sample_json_def
        sample_config_Validate)
  have top: "newTopologyManager sample_topoenv (cf_Telegram sample_config) FileAbsent 5 = Inr sample_base_manager"
    by (simp add: newTopologyManager_def sample_base_manager_def)
      (simp add: sample_config_def defaultConfig_def noTopology_def)
  have flags: "flag_value (\<lambda>key. []) (ma_config sample_args) k = ''config.json''" "flag_value (\<lambda>key. []) (ma_listen sample_args) k = []"
    "flag_value (\<lambda>key. []) (ma_token sample_args) k = []" for k
    by (simp_all add: flag_value_def env_value_def sample_args_def)
  have run: "mr_topologyFile sample_main_run = FileAbsent" "mr_now sample_main_run = 5"
    "mr_stateFile sample_main_run = FileAbsent" "mr_raw sample_main_run = Some (replicate 16 171)"
    "\<not> ma_version sample_args" "\<not> ma_printTokenHash sample_args" "\<not> ma_checkConfig sample_args"
    by (simp_all add: sample_main_run_def sample_args_def)
  have new: "newServer (sample_codec tbl) sample_topoenv sample_config FileAbsent 5 FileAbsent (Some (replicate 16 171))
      = Inr sample_served"
    by (simp add: newServer_def sample_config_Validate top sample_start_new sample_served_def)
  show ?thesis
    by (simp add: relayMain_def flags run load bootstrap_def new Let_def)
qed

theorem started_server_initial_witness: "control_init (sample_codec []) sample_config (sample_start, None)"
proof -
  have c: "codec_ok (sample_codec [])" "goenv_ok (ce_go (sample_codec []))" "times_ok (ce_go (sample_codec []))"
    using sample_control_env [of "[]"] by (simp_all add: control_env_def)
  have r: "sixteen_bytes (mr_raw sample_main_run)" by (simp add: sixteen_bytes_def sample_main_run_def)
  have a: "ac_Tokens (cf_Admin sample_config) \<noteq> []" by (simp add: sample_config_def)
  have s: "sv_cfg sample_served = sample_config" "sv_control sample_served = sample_start"
    "mr_stateFile sample_main_run = FileAbsent"
    by (simp_all add: sample_served_def sample_main_run_def)
  show ?thesis using started_server_initial [OF sample_main c r] s a by simp
qed

text \<open>The process serves nobody, is told to stop, and is started again.\<close>

definition sample_stop :: stopRun where
  "sample_stop = \<lparr>st_shutdownError = None, st_during = id, st_io = all_io, st_served = ServerClosed\<rparr>"

abbreviation sample_life :: controlenv where
  "sample_life \<equiv> sample_codec [cp_state sample_start]"

lemma sample_stopped:
  "ListenAndServeContext sample_life sample_served None all_io id (ContextDone sample_stop)
   = (sample_served\<lparr>sv_control := sample_start\<lparr>cp_clientDirty := False, cp_clientFlush := None, cp_shuttingDown := True\<rparr>\<rparr>,
      Some [], [], None)"
proof -
  have p: "persistCriticalLocked sample_life sample_start None all_io
      = (sample_start\<lparr>cp_clientDirty := False, cp_clientFlush := None\<rparr>, Some [], False)"
    by (rule sample_persist) (simp_all add: sample_start_enabled sample_start_fields sample_codec_one)
  have s: "sv_control sample_served = sample_start" by (simp add: sample_served_def)
  show ?thesis
    by (simp add: ListenAndServeContext_def startServing_def prepareIdentity_def sample_start_enabled s p stopServing_def
        sample_stop_def shutdown_begin_def shutdown_finish_def sample_start_fields serve_failure_def)
qed

theorem clean_exit_restarts_witness:
  "\<exists>again. relayMain sample_life sample_topoenv sample_json (\<lambda>key. []) sample_args
       (sample_main_run\<lparr>mr_stateFile := FileData []\<rparr>) = Serves again
     \<and> cs_InstanceID (cp_state (sv_control again)) = cs_InstanceID (cp_state sample_start)"
proof -
  have c: "codec_ok sample_life" "goenv_ok (ce_go sample_life)" "times_ok (ce_go sample_life)"
    using sample_control_env [of "[cp_state sample_start]"] by (simp_all add: control_env_def)
  have r: "sixteen_bytes (mr_raw sample_main_run)" "mr_stateFile sample_main_run = file_of None"
    by (simp_all add: sixteen_bytes_def sample_main_run_def file_of_def)
  let ?s = "sample_served\<lparr>sv_control := sample_start\<lparr>cp_clientDirty := False, cp_clientFlush := None, cp_shuttingDown := True\<rparr>\<rparr>"
  have u: "unambiguous (ce_go sample_life) (cp_baseTokens (sv_control ?s) @ cs_AddedTokens (cp_state (sv_control ?s)))"
    by (simp add: unambiguous_def token_hashes_def sample_start_fields)
  have a: "ac_Tokens (cf_Admin (sv_cfg sample_served)) \<noteq> []" by (simp add: sample_served_def sample_config_def)
  have i: "(control_step sample_life cfg)\<^sup>*\<^sup>* (sv_control v, e) (sv_control (fst (id (v, e))), snd (id (v, e)))"
    "(closing_step sample_life cfg)\<^sup>*\<^sup>* w (st_during sample_stop w)" for cfg v e w
    by (simp_all add: sample_stop_def)
  have t: "newTopologyManager sample_topoenv (cf_Telegram (sv_cfg sample_served))
      (mr_topologyFile (sample_main_run\<lparr>mr_stateFile := FileData []\<rparr>)) (mr_now (sample_main_run\<lparr>mr_stateFile := FileData []\<rparr>))
      = Inr sample_base_manager"
    by (simp add: newTopologyManager_def sample_base_manager_def sample_served_def)
      (simp add: sample_config_def defaultConfig_def noTopology_def)
  show ?thesis
    using clean_exit_restarts [OF sample_main c r(1) a r(2) _ i sample_stopped _ u _ _ t] by auto
qed

section \<open>The signing command\<close>

definition sample_tool :: topoenv where
  "sample_tool = sample_topoenv
     \<lparr>te_decode := (\<lambda>d. if takeWhile (\<lambda>c. c \<noteq> CHR 0x0A) d = ''bundle'' then Some (sample_bundle, True) else None)\<rparr>"

lemma sample_tool_laws: "json_roundtrip sample_tool" "key_pair sample_tool sample_public sample_private"
  "skips_newline sample_tool"
proof -
  have t: "takeWhile P (d @ [c]) = takeWhile P d" if "\<not> P c" for P d and c :: char
    using that by (induction d) auto
  show "json_roundtrip sample_tool" "key_pair sample_tool sample_public sample_private"
    by (auto simp: json_roundtrip_def key_pair_def sample_tool_def sample_topoenv_def sample_public_def)
  show "skips_newline sample_tool"
    by (auto simp: skips_newline_def sample_tool_def t)
qed

definition all_written :: writeIO where
  "all_written = \<lparr>wi_open = True, wi_write = None, wi_sync = True, wi_close = True, wi_remove = True\<rparr>"

definition key_file :: "nat list \<Rightarrow> string" where
  "key_file key = b64Encode StdAlphabet False key @ [CHR 0x0A]"

definition sample_sign_run :: signRun where
  "sample_sign_run = \<lparr>sg_generated = Some (sample_public, sample_private), sg_privateIO = all_written,
     sg_publicIO = all_written, sg_removed = True, sg_decode = (\<lambda>d. Some (sample_payload, True)),
     sg_readable = (\<lambda>path. True), sg_now = 0, sg_output = Written\<rparr>"

definition sample_sign_args :: signArgs where
  "sample_sign_args = \<lparr>sa_in = ''in'', sa_out = ''out'', sa_key = ''k.private'', sa_prefix = []\<rparr>"

definition sample_keys :: files where
  "sample_keys = [(''in'', ''{}''), (''k.private'', key_file sample_private), (''k.public'', key_file sample_public)]"

definition sample_published :: TelegramConfig where
  "sample_published = sample_telegram\<lparr>tg_Topology := (tg_Topology sample_telegram)\<lparr>tp_PublicKey := key_file sample_public\<rparr>\<rparr>"

lemma sample_generated:
  "generateKeys (Some (sample_public, sample_private)) all_written all_written True [(''in'', ''{}'')] ''k''
   = (sample_keys, False)"
  by (simp add: generateKeys_def writeExclusive_def all_written_def sample_keys_def key_file_def mhas_def)

lemma sample_key_bytes: "\<forall>b \<in> set sample_public. b < 256" "\<forall>b \<in> set sample_private. b < 256" "length sample_private = 64"
  by (auto simp: sample_public_def sample_private_def)

lemma sample_tool_Sign: "Sign sample_tool sample_payload sample_private 0 = Inr ''bundle''"
proof -
  have g: "te_go sample_tool = te_go sample_topoenv" by (simp add: sample_tool_def)
  have "validatePayload sample_tool p now allow = validatePayload sample_topoenv p now allow" for p now allow
    unfolding validatePayload_def g ..
  moreover have "te_marshal sample_tool = te_marshal sample_topoenv" "te_sign sample_tool = te_sign sample_topoenv"
    "te_marshalIndent sample_tool = te_marshalIndent sample_topoenv"
    by (simp_all add: sample_tool_def)
  ultimately have "Sign sample_tool sample_payload sample_private 0 = Sign sample_topoenv sample_payload sample_private 0"
    by (simp only: Sign_def)
  then show ?thesis using sample_Sign by simp
qed

lemma sample_signed:
  "signMain sample_tool sample_sign_args sample_sign_run sample_keys
   = (mset_key ''out'' (''bundle'' @ [CHR 0x0A]) sample_keys, None)"
proof -
  have a: "sa_prefix sample_sign_args = []" "sa_in sample_sign_args = ''in''" "sa_out sample_sign_args = ''out''"
    "sa_key sample_sign_args = ''k.private''" by (simp_all add: sample_sign_args_def)
  have r: "readFrom sample_sign_run sample_keys path = map_of sample_keys path" "sg_now sample_sign_run = 0"
    "sg_decode sample_sign_run d = Some (sample_payload, True)" "sg_output sample_sign_run = Written" for path d
    by (simp_all add: readFrom_def sample_sign_run_def)
  have k: "map_of sample_keys ''in'' = Some ''{}''" "map_of sample_keys ''k.private'' = Some (key_file sample_private)"
    by (simp_all add: sample_keys_def)
  have "decodePrivateKey (key_file sample_private) = Some sample_private"
    unfolding key_file_def by (rule decode_key_text(1) [OF sample_key_bytes(2,3)])
  then show ?thesis by (simp add: signMain_def a r k sample_tool_Sign writeOutput_def)
qed

theorem signed_bundle_loads_witness:
  "\<exists>m snapshot. newTopologyManager sample_tool sample_published (FileData (''bundle'' @ [CHR 0x0A])) 9 = Inr m
     \<and> tm_current m = Some snapshot \<and> sn_Generation snapshot = 7"
proof -
  have keys: "map_of sample_keys (''k'' @ ''.private'') = map_of sample_keys (''k'' @ ''.private'')"
    "map_of sample_keys (''k'' @ ''.public'') = Some (tp_PublicKey (tg_Topology sample_published))"
    "map_of sample_keys (sa_in sample_sign_args) = Some ''{}''"
    by (simp_all add: sample_keys_def sample_published_def sample_sign_args_def)
  have args: "sa_prefix sample_sign_args = []" "sa_key sample_sign_args = ''k'' @ ''.private''"
    "sg_decode sample_sign_run ''{}'' = Some (sample_payload, True)" "sg_now sample_sign_run \<le> 9"
    by (simp_all add: sample_sign_args_def sample_sign_run_def)
  have out: "map_of (mset_key ''out'' (''bundle'' @ [CHR 0x0A]) sample_keys) (sa_out sample_sign_args)
      = Some (''bundle'' @ [CHR 0x0A])" "length (''bundle'' @ [CHR 0x0A]) \<le> 2 ^ 20"
    "trimSpace (tp_URL (tg_Topology sample_published)) \<noteq> []"
    using sample_url by (simp_all add: sample_sign_args_def sample_published_def)
  have g: "pl_Generation sample_payload = 7" by (simp add: sample_payload_def)
  show ?thesis
    using signed_bundle_loads [OF sample_generated sample_key_bytes(3,1,2) sample_tool_laws(2,1,3) keys(1) args(1,2)
        sample_signed keys(3) args(3) sample_json out(1,2) keys(2) out(3) args(4)] g by auto
qed

end
