(* ===== verification/Spec2Isabelle.thy ===== *)
theory Spec2Isabelle
  imports Session_Limiter Config_Props Upstream_Props Frames_Props Sample_Refresh Sample_Life Sample_Start
begin

text \<open>
  \<^bold>\<open>TG-Proxy-Relay: a WebSocket to TCP relay in front of Telegram.\<close>

  A client application opens a WebSocket to the relay with a bearer token and a DC number; the relay
  checks token, device and route, dials a Telegram endpoint of that DC and copies binary messages
  between the two connections. An owner manages client tokens and devices over HTTP; the owner's state
  is one JSON file. Routes come from the configuration or from a signed bundle that is refreshed.

  \<^bold>\<open>Parts and how they call each other.\<close> \<open>cmd/tgproxy-relay\<close> loads the configuration
  (\<open>internal/config\<close>), starts a \<open>Server\<close> (\<open>internal/relay/server.go\<close>) and serves. The server owns a
  control plane (\<open>control_plane.go\<close>), a topology manager (\<open>topology_manager.go\<close> over
  \<open>internal/topology/bundle.go\<close>), an endpoint pool and a session limiter (\<open>upstream_pool.go\<close>). Its
  route table wraps every handler but the landing page with the client or the owner authorisation of the
  control plane; \<open>handleWebSocket\<close> (\<open>websocket.go\<close>) uses all four and ends in \<open>bridgeWebSocket\<close>.
  \<open>cmd/tgproxy-topology-sign\<close> makes the bundles.

  \<^bold>\<open>Theories.\<close>
  \<^item> \<open>Relay_Prelude\<close>: Go maps as association lists, error lists, the \<open>invariant_system\<close> locale
    (an initial predicate, a step relation and an invariant they keep; every state machine below
    interprets it and takes its safety facts from \<open>inv_reachable\<close>), theorem collections.
  \<^item> \<open>Go_Strings\<close>, \<open>Go_Base64\<close>, \<open>Go_Net\<close>: the package functions the program uses, executable: UTF-8
    decoding and trimming, prefixes, splitting, decimal numbers, hexadecimal and base64, IP literals and
    \<open>host:port\<close>. A string is a list of bytes.
  \<^item> \<open>Config\<close>: \<open>config.go\<close> except the file: the records, defaults, \<open>Validate\<close>, token hashes and
    identifiers, the public address check, route selection. \<open>Safe_Address\<close>, \<open>Token_Facts\<close>,
    \<open>Config_Props\<close>: the address check as intervals, canonical hashes, roles that cannot meet in the configuration, public
    routes, order of endpoints, stability of validation.
  \<^item> \<open>Session_Limiter\<close>: counters and reservations, with the invariant that the counters are the live
    reservations.
  \<^item> \<open>Upstream_Pool\<close>, \<open>Upstream_Props\<close>: endpoint health, cooldown order, the half-open probe, backoff,
    and the race of dials with the account of every connection it opens.
  \<^item> \<open>Topology_Bundle\<close>, \<open>Topology_Manager\<close>, \<open>Topology_Props\<close>: signed bundles, refresh, persistence,
    on-demand refresh and routes; round trip, monotone generations, restarts, public routes.
    \<open>Topology_Refresh\<close>: the refresh goroutine with its backoff and its randomised delay, and how it paces
    the requests to the bundle source.
  \<^item> \<open>Control_State\<close>, \<open>Control_Plane\<close>, \<open>Control_Sessions\<close>, \<open>Control_Lifecycle\<close>: all of
    \<open>control_plane.go\<close>: the persisted state and the state file, tokens and blocks, identity migration,
    sessions and pruning, locations, start, flush, shutdown and the overview. \<open>Control_Invariant\<close>,
    \<open>Control_Steps\<close>, \<open>Control_Tokens\<close>, \<open>Control_Devices\<close>, \<open>Control_Owner\<close>, \<open>Control_System\<close>: the
    well-formedness of a state and that every operation keeps it; \<open>Control_Restart\<close>: what the next
    start accepts and what it refuses; \<open>Control_Runs\<close>: the transition system of all operations with failing writes and
    restarts at any moment. \<open>Control_Memory\<close>: a second invariant of the same system, for what is in memory
    only. \<open>Control_Shutdown\<close>: the wait of a shutdown beside the operations that go on. \<open>Control_Props\<close>,
    \<open>Revocation_Props\<close>, \<open>Device_Props\<close>, \<open>Session_Props\<close>: the properties of runs.
  \<^item> \<open>WebSocket_Frames\<close>, \<open>Frames_Props\<close>: RFC 6455 frames of \<open>websocket.go\<close> on bytes: reader,
    reassembly, close frames and the writer, against a reference encoding.
  \<^item> \<open>Server_Http\<close>, \<open>Owner_Http\<close>, \<open>Server_Routes\<close>:
    \<open>server.go\<close> and \<open>owner_http.go\<close>: responses, client and owner endpoints,
    diagnostics, the landing page, the route table with the pattern syntax of
    \<open>http.ServeMux\<close>. \<open>Server_Props\<close>, \<open>Access_Props\<close>: the table
    registers, every route demands its token, owner and client tokens meet only where the owner gave one
    secret to both, and the owner's answers are honest, proved from the \<open>owner_mutation\<close>
    locale (failures are undone, successes durable) that the three mutations of the control plane
    interpret.
  \<^item> \<open>Ws_Handshake\<close>, \<open>Ws_Props\<close>: \<open>handleWebSocket\<close> as a machine whose phases hold what the handler owns;
    it ends and gives everything back. \<open>Admission_Props\<close>: every check it must have passed, on the servers
    its steps met, before it relays. \<open>Ws_Server\<close>: all handlers of a server at once, and the capacity
    they keep. \<open>Ws_Bridge\<close>, \<open>Bridge_Props\<close>, \<open>Bridge_Life\<close>: the four goroutines
    of a bridge as turns on their shared variables; what is relayed, the heartbeat, the common end.
    \<open>Bridge_Idle\<close>: the watchdog that closes silent bridges.
  \<^item> \<open>Relay_Main\<close>, \<open>Start_Props\<close>, \<open>Topology_Sign\<close>, \<open>Sign_Props\<close>: the configuration file, the two
    commands, serving from start to stop; a started process is an initial state of every transition
    system, and the tool's files are what the relay reads. \<open>Life_Cycle\<close>: from \<open>main\<close> through any requests
    to a clean exit, and the next start on the file it left.
  \<^item> \<open>Sample_Config\<close>, \<open>Sample_Topology\<close>, \<open>Sample_Control\<close>, \<open>Sample_Server\<close>, \<open>Sample_Refresh\<close>,
    \<open>Sample_Life\<close>, \<open>Sample_Start\<close>: concrete libraries, configurations, requests and runs at which the
    properties are instantiated.

  \<^bold>\<open>How state and effects are modelled.\<close> A struct is a record with the fields in the code's order, a
  Go map an association list with distinct keys (iteration order only matters where the code sorts), an
  error a value of a sum or an option. A section under a mutex is one function of the state it finds;
  what runs between two sections is left to the step relation, so interleavings are sequences of steps.
  The file system is the content of a file with the outcome of each system call as an argument, so a
  write may fail anywhere; the clock, random bytes, the network and the scheduler are arguments as
  well. Machine words are kept where they wrap or are shifted (frame lengths, ping numbers,
  generations); counters of memory and times in nanoseconds are integers. The one computation in floating
  point, the delay of the refresh goroutine, is exact arithmetic rounded to the nearest double (ties to
  even) after every operation, or after a multiplication and addition taken together, as a compiler may
  do on some processors.

  \<^bold>\<open>Parameters.\<close> \<open>goenv\<close> holds lower-casing of non-ASCII runes, SHA-256, \<open>url.Parse\<close> and RFC 3339
  parsing; \<open>controlenv\<close>, \<open>topoenv\<close> and \<open>jsonReader\<close> the JSON codecs and Ed25519. What is assumed of them
  is named: \<open>sha256_ok\<close> (32 bytes), \<open>lower_ok\<close>, \<open>times_ok\<close>, \<open>codec_ok\<close> and \<open>json_roundtrip\<close> (a
  structurally sound value comes back equal), \<open>key_pair\<close>, \<open>decoded_maps\<close>, \<open>skips_newline\<close>; the samples
  satisfy them.

  \<^bold>\<open>What runs include.\<close> The steps of the owner control plane are all its operations with any arguments,
  creations with a known or a revoked secret included; a state file whose tokens share a hash or an
  identifier, which such a creation leaves, is one the next start refuses, and the statements about
  restarts say so (\<open>unambiguous\<close>). The steps of the topology manager take any clock and say whether the
  system is Windows, where a file is removed before it is replaced (\<open>topo_step\<close>); \<open>forward_step\<close> are
  those on a clock that does not go back. The step relations of the WebSocket handler start where the
  route hands over to \<open>handleWebSocket\<close>. Its dial is one step: the sections of the pool lie together, and
  the connections of the races that were not selected are opened and closed within it.

  \<^bold>\<open>Bounds and fuel.\<close> Loops are structural or have a measure; \<open>drop_spaces\<close> has the length of its
  string as fuel and every round drops a byte. The wait of a shutdown takes at most two hundred looks,
  since it ends after two seconds and sleeps ten milliseconds after each. The WebSocket handler has
  eleven steps at most; the end of a bridge is bounded by the bytes still buffered.

  \<^bold>\<open>Not modelled.\<close> The scheduling of goroutines and timers, write deadlines and TCP tuning (a write
  or read that times out is one that fails); the HTTP server of the library with its time limits, and
  routing of a request to a pattern; the GeoIP request (its answer is an argument); JSON texts
  themselves; the text of the landing page; log lines, signals and exit codes; nil receivers, which the code tolerates and never
  has; \<open>WithDialer\<close> and \<open>routeAddress\<close>, used by tests only.
\<close>

end
